(* ===== verification/Prelude.thy ===== *)
theory Prelude
  imports Main "HOL-Library.Word" "HOL-Library.AList"
begin

text \<open>
  What every component shares: the machine integers and byte strings of the Rust code, the
  \<^verbatim>\<open>Result\<close> type with its early return, Rust's \<^verbatim>\<open>HashMap\<close> as an association list with
  distinct keys (its order is the order in which one particular run iterates the map), and
  \<^verbatim>\<open>HashSet\<close> as a distinct list. The collections of lemmas the component proofs draw on:
  \<open>hash_simps\<close> (lookups after an update), \<open>result_simps\<close> (inversion of a \<^verbatim>\<open>?\<close>-chain).
\<close>

named_theorems hash_simps
named_theorems result_simps

section \<open>Machine integers, octets and text\<close>

type_synonym u8 = "8 word"
type_synonym u32 = "32 word"
type_synonym u64 = "64 word"
type_synonym bytes = "u8 list"

text \<open>
  Rust's \<^verbatim>\<open>str\<close> is a sequence of UTF-8 octets. It is a list of HOL characters, which are
  8-bit values: one character per octet.
\<close>

definition as_bytes :: "string \<Rightarrow> bytes" where
  "as_bytes s = map of_char s"

definition str_of_bytes :: "bytes \<Rightarrow> string" where
  "str_of_bytes b = map (\<lambda>w. char_of (unat w)) b"

text \<open>The characters that have no literal.\<close>

definition NL :: string where "NL = [CHR 0x0A]"
definition TAB :: string where "TAB = [CHR 0x09]"
definition QUOTE :: string where "QUOTE = [CHR 0x22]"

text \<open>\<^verbatim>\<open>u64::saturating_add\<close> and \<^verbatim>\<open>AtomicU64::fetch_add\<close>, which wraps.\<close>

definition saturating_add :: "u64 \<Rightarrow> u64 \<Rightarrow> u64" where
  "saturating_add a b = (if unat a + unat b < 2 ^ 64 then a + b else - 1)"

text \<open>\<^verbatim>\<open>slice::strip_prefix\<close> and \<^verbatim>\<open>str::starts_with\<close>.\<close>

fun strip_prefix :: "'a list \<Rightarrow> 'a list \<Rightarrow> 'a list option" where
  "strip_prefix [] ys = Some ys"
| "strip_prefix (x # xs) [] = None"
| "strip_prefix (x # xs) (y # ys) = (if x = y then strip_prefix xs ys else None)"

definition starts_with :: "'a list \<Rightarrow> 'a list \<Rightarrow> bool" where
  "starts_with name prefix = (strip_prefix prefix name \<noteq> None)"

section \<open>Results\<close>

text \<open>The \<^verbatim>\<open>?\<close> operator: continue with the value, or return the error.\<close>

fun and_then :: "'e + 'a \<Rightarrow> ('a \<Rightarrow> 'e + 'b) \<Rightarrow> 'e + 'b" where
  "and_then (Inl e) k = Inl e"
| "and_then (Inr v) k = k v"

text \<open>\<^verbatim>\<open>Option::ok_or\<close> and \<^verbatim>\<open>Result::map_err\<close>.\<close>

definition ok_or :: "'e \<Rightarrow> 'a option \<Rightarrow> 'e + 'a" where
  "ok_or e m = (case m of None \<Rightarrow> Inl e | Some v \<Rightarrow> Inr v)"

fun map_err :: "('e \<Rightarrow> 'g) \<Rightarrow> 'e + 'a \<Rightarrow> 'g + 'a" where
  "map_err f (Inl e) = Inl (f e)"
| "map_err f (Inr v) = Inr v"

text \<open>A loop with a \<^verbatim>\<open>?\<close> in its body, collecting the values into a \<^verbatim>\<open>Vec\<close>.\<close>

fun map_result :: "('a \<Rightarrow> 'e + 'b) \<Rightarrow> 'a list \<Rightarrow> 'e + 'b list" where
  "map_result f [] = Inr []"
| "map_result f (x # xs) =
     and_then (f x) (\<lambda>y. and_then (map_result f xs) (\<lambda>ys. Inr (y # ys)))"

lemma and_then_Inr [result_simps]:
  "and_then r k = Inr v \<longleftrightarrow> (\<exists>x. r = Inr x \<and> k x = Inr v)"
  by (cases r) auto

lemma and_then_Inl [result_simps]:
  "and_then r k = Inl e \<longleftrightarrow> r = Inl e \<or> (\<exists>x. r = Inr x \<and> k x = Inl e)"
  by (cases r) auto

lemma ok_or_Inr [result_simps]: "ok_or e m = Inr v \<longleftrightarrow> m = Some v"
  by (auto simp: ok_or_def split: option.splits)

lemma ok_or_Inl [result_simps]: "ok_or e m = Inl g \<longleftrightarrow> m = None \<and> g = e"
  by (auto simp: ok_or_def split: option.splits)

lemma map_err_Inr [result_simps]: "map_err f r = Inr v \<longleftrightarrow> r = Inr v"
  by (cases r) auto

lemma and_then_cong [fundef_cong]:
  "r = r' \<Longrightarrow> (\<And>x. r' = Inr x \<Longrightarrow> k x = k' x) \<Longrightarrow> and_then r k = and_then r' k'"
  by (cases r') auto

lemma map_result_cong [fundef_cong]:
  "xs = ys \<Longrightarrow> (\<And>x. x \<in> set ys \<Longrightarrow> f x = g x) \<Longrightarrow> map_result f xs = map_result g ys"
proof (induction xs arbitrary: ys)
  case (Cons x xs)
  from Cons.prems(1) obtain zs where ys: "ys = x # zs" "xs = zs" by auto
  with Cons.prems(2) have "f x = g x" and "\<And>z. z \<in> set zs \<Longrightarrow> f z = g z" by auto
  with Cons.IH[OF ys(2)] ys show ?case by simp
qed simp

lemma map_result_map_inverse:
  "(\<And>x. x \<in> set xs \<Longrightarrow> f (g x) = Inr x) \<Longrightarrow> map_result f (map g xs) = Inr xs"
  by (induction xs) auto

lemma map_result_length: "map_result f xs = Inr ys \<Longrightarrow> length ys = length xs"
  by (induction xs arbitrary: ys) (auto simp: result_simps)

section \<open>Byte strings\<close>

lemma length_as_bytes [simp]: "length (as_bytes s) = length s"
  by (simp add: as_bytes_def)

lemma as_bytes_append [simp]: "as_bytes (s @ t) = as_bytes s @ as_bytes t"
  by (simp add: as_bytes_def)

lemma as_bytes_Nil [simp]: "as_bytes [] = []"
  by (simp add: as_bytes_def)

lemma unat_of_char [simp]: "unat (of_char c :: u8) = of_char c"
proof -
  have "(of_char c :: u8) = word_of_nat (of_char c)"
    by (simp add: of_nat_of_char)
  moreover have "(of_char c :: nat) < 2 ^ LENGTH(8)"
    using nat_of_char_less_256 [of c] by simp
  ultimately show ?thesis
    by (simp add: unat_of_nat)
qed

lemma str_of_bytes_as_bytes [simp]: "str_of_bytes (as_bytes s) = s"
  by (simp add: str_of_bytes_def as_bytes_def comp_def)

lemma as_bytes_str_of_bytes [simp]: "as_bytes (str_of_bytes b) = b"
proof -
  have "(of_char (char_of (unat w)) :: u8) = w" for w :: u8
  proof -
    have "unat w < 256" using unsigned_less [of w, where 'a = nat] by simp
    then have "unat (of_char (char_of (unat w)) :: u8) = unat w"
      by (simp only: unat_of_char of_char_of) simp
    then show ?thesis by (simp add: word_unat_eq_iff)
  qed
  then show ?thesis by (simp add: str_of_bytes_def as_bytes_def comp_def)
qed

lemma as_bytes_inj [simp]: "as_bytes s = as_bytes t \<longleftrightarrow> s = t"
  by (metis str_of_bytes_as_bytes)

lemma strip_prefix_Some [simp]: "strip_prefix p ys = Some zs \<longleftrightarrow> ys = p @ zs"
  by (induction p ys rule: strip_prefix.induct) auto

lemma strip_prefix_None: "strip_prefix p ys = None \<longleftrightarrow> (\<forall>zs. ys \<noteq> p @ zs)"
  by (metis not_Some_eq strip_prefix_Some)

lemma starts_with_iff: "starts_with ys p \<longleftrightarrow> (\<exists>zs. ys = p @ zs)"
  by (auto simp: starts_with_def strip_prefix_None)

section \<open>Saturating counters\<close>

lemma unat_max_u64: "unat (- 1 :: u64) = 18446744073709551615"
  by (simp only: unsigned_minus_1_eq_mask mask_eq_exp_minus_1) simp

lemma unat_less_u64: "unat (a :: u64) < 2 ^ 64"
  using unsigned_less [of a] by simp

lemma unat_plus_one: "a \<noteq> - 1 \<Longrightarrow> unat (a + 1 :: u64) = unat a + 1"
proof -
  assume "a \<noteq> - 1"
  then have "1 + a \<noteq> 0" by (metis add_eq_0_iff)
  then show ?thesis using unatSuc [of a] by (simp add: add.commute)
qed

lemma saturating_add_one:
  "saturating_add a 1 = (if a = - 1 then - 1 else a + 1)"
proof (cases "a = - 1")
  case False
  then have "unat a + 1 < 2 ^ 64"
    using unat_plus_one [of a] unat_less_u64 [of "a + 1"] by simp
  then show ?thesis using False by (simp add: saturating_add_def)
qed (simp add: saturating_add_def unat_max_u64)

lemma unat_saturating_add_one:
  "unat (saturating_add a 1) = min (unat a + 1) (2 ^ 64 - 1)"
  using unat_plus_one [of a] unat_less_u64 [of "a + 1"]
  by (auto simp: saturating_add_one unat_max_u64)

lemma less_word_plus_one: "a \<noteq> - 1 \<Longrightarrow> (b :: u64) < a + 1 \<longleftrightarrow> b \<le> a"
  by (simp add: unat_plus_one word_less_nat_alt word_le_nat_alt less_Suc_eq_le)

lemma removeAll_Nil_iff [simp]: "removeAll x xs = [] \<longleftrightarrow> set xs \<subseteq> {x}"
  by (induction xs) auto

section \<open>Hash maps as association lists\<close>

text \<open>\<open>distinct_keys m\<close>: a representation of a \<^verbatim>\<open>HashMap\<close>.\<close>

definition distinct_keys :: "('k \<times> 'v) list \<Rightarrow> bool" where
  "distinct_keys m \<longleftrightarrow> distinct (map fst m)"

lemma distinct_keys_Nil [simp]: "distinct_keys []"
  by (simp add: distinct_keys_def)

lemma distinct_keys_update [simp]: "distinct_keys m \<Longrightarrow> distinct_keys (AList.update k v m)"
  by (simp add: distinct_keys_def distinct_update)

lemma distinct_keys_delete [simp]: "distinct_keys m \<Longrightarrow> distinct_keys (AList.delete k m)"
  by (simp add: distinct_keys_def distinct_delete)

lemma map_of_update [hash_simps, simp]:
  "map_of (AList.update k v m) k' = (if k' = k then Some v else map_of m k')"
  by (simp add: update_conv')

lemma map_of_delete [hash_simps, simp]:
  "map_of (AList.delete k m) k' = (if k' = k then None else map_of m k')"
  by (simp add: delete_conv')

lemma map_of_in_set: "distinct_keys m \<Longrightarrow> map_of m k = Some v \<longleftrightarrow> (k, v) \<in> set m"
  by (simp add: distinct_keys_def)

lemma length_update_new: "map_of m k = None \<Longrightarrow> length (AList.update k v m) = Suc (length m)"
  by (induction m) (auto split: if_splits)

lemma length_update_old: "map_of m k = Some w \<Longrightarrow> length (AList.update k v m) = length m"
  by (induction m) (auto split: if_splits)

lemma length_delete_le': "length (AList.delete k m) \<le> length m"
  by (simp add: AList.delete_eq)

end
