(* ===== verification/Topic.thy ===== *)
theory Topic
  imports Prelude "HOL-Library.Char_ord" "HOL-Library.List_Lexorder"
begin

text \<open>
  Topic names and their validation (\<^verbatim>\<open>pubsub/tightbeam-pubsub/src/topic.rs\<close>): the reserved
  command prefixes, parsing from text and from wire octets, and the errors. The UTF-8
  validation the wire path runs (\<^verbatim>\<open>core::str::from_utf8\<close>) is written out as the standard
  library's loop, with the position and length its error reports.
\<close>

section \<open>UTF-8 validation\<close>

datatype utf8_error = Utf8Error (valid_up_to: nat) (error_len: "nat option")

definition is_continuation :: "u8 \<Rightarrow> bool" where
  "is_continuation b \<longleftrightarrow> 0x80 \<le> b \<and> b \<le> 0xBF"

text \<open>The second octet a three- or four-octet sequence admits after its first octet.\<close>

definition second_of_three :: "u8 \<Rightarrow> u8 \<Rightarrow> bool" where
  "second_of_three first b \<longleftrightarrow>
     (first = 0xE0 \<and> 0xA0 \<le> b \<and> b \<le> 0xBF) \<or>
     (0xE1 \<le> first \<and> first \<le> 0xEC \<and> is_continuation b) \<or>
     (first = 0xED \<and> 0x80 \<le> b \<and> b \<le> 0x9F) \<or>
     (0xEE \<le> first \<and> first \<le> 0xEF \<and> is_continuation b)"

definition second_of_four :: "u8 \<Rightarrow> u8 \<Rightarrow> bool" where
  "second_of_four first b \<longleftrightarrow>
     (first = 0xF0 \<and> 0x90 \<le> b \<and> b \<le> 0xBF) \<or>
     (0xF1 \<le> first \<and> first \<le> 0xF3 \<and> is_continuation b) \<or>
     (first = 0xF4 \<and> 0x80 \<le> b \<and> b \<le> 0x8F)"

definition utf8_char_width :: "u8 \<Rightarrow> nat" where
  "utf8_char_width b =
     (if b < 0x80 then 1 else if 0xC2 \<le> b \<and> b \<le> 0xDF then 2
      else if 0xE0 \<le> b \<and> b \<le> 0xEF then 3 else if 0xF0 \<le> b \<and> b \<le> 0xF4 then 4 else 0)"

text \<open>
  One character after its first octet: the width, or the \<^verbatim>\<open>error_len\<close> (\<open>None\<close> when the
  input ends inside the character).
\<close>

fun utf8_tail :: "nat \<Rightarrow> u8 list \<Rightarrow> nat \<Rightarrow> nat option + unit" where
  "utf8_tail 0 bs seen = Inr ()"
| "utf8_tail (Suc n) [] seen = Inl None"
| "utf8_tail (Suc n) (b # bs) seen =
     (if is_continuation b then utf8_tail n bs (Suc seen) else Inl (Some seen))"

definition utf8_char :: "u8 \<Rightarrow> bytes \<Rightarrow> nat option + nat" where
  "utf8_char first rest =
     (let w = utf8_char_width first in
      if w = 1 then Inr 1
      else if w = 2 then and_then (utf8_tail 1 rest 1) (\<lambda>_. Inr 2)
      else if w = 3 then
        (case rest of [] \<Rightarrow> Inl None
         | b # bs \<Rightarrow> if second_of_three first b
             then and_then (utf8_tail 1 bs 2) (\<lambda>_. Inr 3) else Inl (Some 1))
      else if w = 4 then
        (case rest of [] \<Rightarrow> Inl None
         | b # bs \<Rightarrow> if second_of_four first b
             then and_then (utf8_tail 2 bs 2) (\<lambda>_. Inr 4) else Inl (Some 1))
      else Inl (Some 1))"

fun run_utf8_validation :: "nat \<Rightarrow> bytes \<Rightarrow> utf8_error + unit" where
  "run_utf8_validation index [] = Inr ()"
| "run_utf8_validation index (b # bs) =
     (case utf8_char b bs of
        Inl len \<Rightarrow> Inl (Utf8Error index len)
      | Inr w \<Rightarrow> run_utf8_validation (index + w) (drop (w - 1) bs))"

definition from_utf8 :: "bytes \<Rightarrow> utf8_error + string" where
  "from_utf8 bs = and_then (run_utf8_validation 0 bs) (\<lambda>_. Inr (str_of_bytes bs))"

section \<open>Topics\<close>

definition SUB_PREFIX :: string where "SUB_PREFIX = ''sub/''"
definition UNSUB_PREFIX :: string where "UNSUB_PREFIX = ''unsub/''"
definition PUB_PREFIX :: string where "PUB_PREFIX = ''pub/''"
definition END_PREFIX :: string where "END_PREFIX = ''end/''"

definition RESERVED_PREFIXES :: "string list" where
  "RESERVED_PREFIXES = [SUB_PREFIX, UNSUB_PREFIX, PUB_PREFIX, END_PREFIX]"

lemmas prefix_defs = SUB_PREFIX_def UNSUB_PREFIX_def PUB_PREFIX_def END_PREFIX_def

datatype topic = Topic (as_str: string)

datatype topic_error = Empty | ReservedPrefix string | NotUtf8 utf8_error

text \<open>The \<^verbatim>\<open>for prefix in RESERVED_PREFIXES\<close> loop: the first prefix the name starts with.\<close>

fun reserved_prefix :: "string list \<Rightarrow> string \<Rightarrow> string option" where
  "reserved_prefix [] name = None"
| "reserved_prefix (prefix # prefixes) name =
     (if starts_with name prefix then Some prefix else reserved_prefix prefixes name)"

definition topic_from_str :: "string \<Rightarrow> topic_error + topic" where
  "topic_from_str name =
     (if name = [] then Inl Empty
      else case reserved_prefix RESERVED_PREFIXES name of
        Some prefix \<Rightarrow> Inl (ReservedPrefix prefix)
      | None \<Rightarrow> Inr (Topic name))"

definition topic_try_from :: "bytes \<Rightarrow> topic_error + topic" where
  "topic_try_from name = and_then (map_err NotUtf8 (from_utf8 name)) topic_from_str"

text \<open>\<^verbatim>\<open>derive(PartialOrd, Ord)\<close>: topics compare as their names do.\<close>

instantiation topic :: linorder
begin

definition less_eq_topic :: "topic \<Rightarrow> topic \<Rightarrow> bool" where
  "less_eq_topic a b \<longleftrightarrow> as_str a \<le> as_str b"

definition less_topic :: "topic \<Rightarrow> topic \<Rightarrow> bool" where
  "less_topic a b \<longleftrightarrow> as_str a < as_str b"

instance
  by standard (auto simp: less_eq_topic_def less_topic_def topic.expand)

end

text \<open>\<^verbatim>\<open>Display for TopicError\<close>, given the upstream rendering of a UTF-8 error.\<close>

fun topic_error_display :: "(utf8_error \<Rightarrow> string) \<Rightarrow> topic_error \<Rightarrow> string" where
  "topic_error_display show_utf8 Empty = ''a topic name must be non-empty''"
| "topic_error_display show_utf8 (NotUtf8 cause) =
     ''a topic name must be UTF-8: '' @ show_utf8 cause"
| "topic_error_display show_utf8 (ReservedPrefix prefix) =
     ''a topic name must not start with the reserved prefix '' @ prefix"

fun topic_error_source :: "topic_error \<Rightarrow> utf8_error option" where
  "topic_error_source (NotUtf8 cause) = Some cause"
| "topic_error_source _ = None"

section \<open>What parsing accepts\<close>

lemma reserved_prefix_None:
  "reserved_prefix ps name = None \<longleftrightarrow> (\<forall>p\<in>set ps. \<not> starts_with name p)"
  by (induction ps) auto

lemma reserved_prefix_Some:
  "reserved_prefix ps name = Some p \<Longrightarrow> p \<in> set ps \<and> starts_with name p"
  by (induction ps) (auto split: if_splits)

lemma topic_from_str_Inr:
  "topic_from_str name = Inr t \<longleftrightarrow>
     t = Topic name \<and> name \<noteq> [] \<and> (\<forall>p\<in>set RESERVED_PREFIXES. \<not> starts_with name p)"
  unfolding topic_from_str_def
  by (auto split: option.split simp: reserved_prefix_None [symmetric])

lemma from_utf8_Inr: "from_utf8 bs = Inr s \<longleftrightarrow> run_utf8_validation 0 bs = Inr () \<and> s = str_of_bytes bs"
  by (auto simp: from_utf8_def result_simps)

lemma starts_with_as_bytes:
  "starts_with (as_bytes s) (as_bytes p) \<longleftrightarrow> starts_with s p"
proof
  assume "starts_with (as_bytes s) (as_bytes p)"
  then obtain zs where "as_bytes s = as_bytes p @ zs" by (auto simp: starts_with_iff)
  then have "s = p @ str_of_bytes zs"
    by (metis as_bytes_append as_bytes_inj as_bytes_str_of_bytes)
  then show "starts_with s p" by (auto simp: starts_with_iff)
qed (auto simp: starts_with_iff)

lemma topic_try_from_Inr:
  "topic_try_from bs = Inr t \<longleftrightarrow>
     run_utf8_validation 0 bs = Inr () \<and> bs \<noteq> [] \<and>
     (\<forall>p\<in>set RESERVED_PREFIXES. \<not> starts_with bs (as_bytes p)) \<and> t = Topic (str_of_bytes bs)"
proof -
  have "starts_with bs (as_bytes p) \<longleftrightarrow> starts_with (str_of_bytes bs) p" for p
    using starts_with_as_bytes [of "str_of_bytes bs" p] by simp
  moreover have "str_of_bytes bs = [] \<longleftrightarrow> bs = []"
    by (simp add: str_of_bytes_def)
  ultimately show ?thesis
    by (auto simp: topic_try_from_def result_simps from_utf8_Inr topic_from_str_Inr)
qed

text \<open>
  Validation does not depend on where it starts, and accepts what follows an accepted prefix
  exactly when it accepts it alone.
\<close>

lemma run_utf8_validation_index:
  "run_utf8_validation i bs = Inr () \<longleftrightarrow> run_utf8_validation j bs = Inr ()"
proof (induction i bs arbitrary: j rule: run_utf8_validation.induct)
  case (2 index b bs)
  show ?case
  proof (cases "utf8_char b bs")
    case (Inr w)
    from "2.IH" [OF Inr, of "j + w"] Inr show ?thesis by simp
  qed simp
qed simp

lemma utf8_char_ascii: "b < 0x80 \<Longrightarrow> utf8_char b bs = Inr 1"
  by (simp add: utf8_char_def utf8_char_width_def)

lemma run_utf8_validation_ascii:
  "list_all (\<lambda>b. b < 0x80) p \<Longrightarrow>
   run_utf8_validation i (p @ bs) = Inr () \<longleftrightarrow> run_utf8_validation 0 bs = Inr ()"
proof (induction p arbitrary: i)
  case Nil
  then show ?case using run_utf8_validation_index by simp
next
  case (Cons b p)
  then show ?case by (simp add: utf8_char_ascii)
qed

section \<open>Properties\<close>

text \<open>
  What \<^verbatim>\<open>Topic::try_from\<close> accepts, and what it yields: exactly the octet strings that are
  valid UTF-8, are not empty and carry none of the reserved command prefixes, and the topic's
  name is those octets. So a topic id can never be taken for a \<^verbatim>\<open>sub/\<close>, \<^verbatim>\<open>unsub/\<close>, \<^verbatim>\<open>pub/\<close> or
  \<^verbatim>\<open>end/\<close> command, and the wire octets round-trip.
\<close>

lemma topic_try_from_accepts:
  "topic_try_from bs = Inr t \<longleftrightarrow>
     run_utf8_validation 0 bs = Inr () \<and> bs \<noteq> [] \<and>
     list_all (\<lambda>p. strip_prefix (as_bytes p) bs = None) RESERVED_PREFIXES \<and>
     as_bytes (as_str t) = bs"
proof -
  have "t = Topic (str_of_bytes bs) \<longleftrightarrow> as_bytes (as_str t) = bs"
    by (cases t) (auto simp flip: as_bytes_inj)
  then show ?thesis
    by (auto simp: topic_try_from_Inr list_all_iff starts_with_iff strip_prefix_None)
qed

text \<open>
  Which error a refused name gets: an undecodable name reports the standard library's
  position, an empty one is \<^verbatim>\<open>Empty\<close>, and a reserved one names the first of the four prefixes
  it starts with.
\<close>

lemma topic_try_from_refuses:
  "topic_try_from bs = Inl e \<longleftrightarrow>
     (case run_utf8_validation 0 bs of
        Inl cause \<Rightarrow> e = NotUtf8 cause
      | Inr _ \<Rightarrow>
          if bs = [] then e = Empty
          else (case find (\<lambda>p. starts_with bs (as_bytes p)) RESERVED_PREFIXES of
                  Some p \<Rightarrow> e = ReservedPrefix p
                | None \<Rightarrow> False))"
proof (cases "run_utf8_validation 0 bs")
  case (Inl cause)
  then show ?thesis by (auto simp: topic_try_from_def from_utf8_def)
next
  case (Inr u)
  have find: "reserved_prefix ps (str_of_bytes bs) = find (\<lambda>p. starts_with bs (as_bytes p)) ps" for ps
  proof (induction ps)
    case (Cons p ps)
    have "starts_with bs (as_bytes p) \<longleftrightarrow> starts_with (str_of_bytes bs) p"
      using starts_with_as_bytes [of "str_of_bytes bs" p] by simp
    with Cons show ?case by simp
  qed simp
  have "str_of_bytes bs = [] \<longleftrightarrow> bs = []" by (simp add: str_of_bytes_def)
  with Inr show ?thesis
    by (auto simp: topic_try_from_def from_utf8_def topic_from_str_def find split: option.splits)
qed

end
