(* ===== verification/Frame.thy ===== *)
theory Frame
  imports Topic
begin

text \<open>
  Update-frame construction and payload extraction (\<^verbatim>\<open>pubsub/tightbeam-pubsub/src/frame.rs\<close>).
  The frame type, its builder and the \<^verbatim>\<open>der\<close> codec of the opaque body belong to the upstream
  \<^verbatim>\<open>tightbeam\<close> and \<^verbatim>\<open>der\<close> crates: they are the fields of \<open>frame_api\<close>, a parameter of every
  definition that calls them, and \<open>frame_api_laws\<close> states the documented behaviour the code
  relies on. An upstream error is only wrapped and displayed by this code, so it is carried as
  its display text.
\<close>

datatype tightbeam_error = TightBeamError (error_text: string)

record opaque_body =
  body :: bytes

record 'f frame_api =
  octet_string_new :: "bytes \<Rightarrow> tightbeam_error + bytes"
  build_v0 :: "string \<Rightarrow> u64 \<Rightarrow> opaque_body \<Rightarrow> tightbeam_error + 'f"
  opaque_from_der :: "bytes \<Rightarrow> tightbeam_error + opaque_body"
  frame_to_der :: "'f \<Rightarrow> tightbeam_error + bytes"
  metadata_id :: "'f \<Rightarrow> bytes"
  metadata_order :: "'f \<Rightarrow> u64"
  frame_message :: "'f \<Rightarrow> bytes"

definition build :: "'f frame_api \<Rightarrow> string \<Rightarrow> u64 \<Rightarrow> bytes \<Rightarrow> tightbeam_error + 'f" where
  "build api ident order payload =
     and_then (octet_string_new api payload) (\<lambda>octets. build_v0 api ident order \<lparr>body = octets\<rparr>)"

definition update_frame :: "'f frame_api \<Rightarrow> topic \<Rightarrow> u64 \<Rightarrow> bytes \<Rightarrow> tightbeam_error + 'f" where
  "update_frame api topic order payload = build api (as_str topic) order payload"

definition end_frame :: "'f frame_api \<Rightarrow> topic \<Rightarrow> u64 \<Rightarrow> tightbeam_error + 'f" where
  "end_frame api topic order = build api (END_PREFIX @ as_str topic) order []"

definition opaque_payload :: "'f frame_api \<Rightarrow> 'f \<Rightarrow> tightbeam_error + bytes" where
  "opaque_payload api frame =
     and_then (opaque_from_der api (frame_message api frame)) (\<lambda>decoded. Inr (body decoded))"

text \<open>
  What the upstream crates document: an octet string holds the octets it was made from, and a
  built frame carries its id, its order and a message that decodes to the body it was given.
\<close>

definition frame_api_laws :: "'f frame_api \<Rightarrow> bool" where
  "frame_api_laws api \<longleftrightarrow>
     (\<forall>octets held. octet_string_new api octets = Inr held \<longrightarrow> held = octets) \<and>
     (\<forall>ident order b f. build_v0 api ident order b = Inr f \<longrightarrow>
        metadata_id api f = as_bytes ident \<and> metadata_order api f = order \<and>
        opaque_from_der api (frame_message api f) = Inr b)"

lemma build_carries:
  assumes "frame_api_laws api" and "build api ident order payload = Inr f"
  shows "metadata_id api f = as_bytes ident" and "metadata_order api f = order"
    and "opaque_payload api f = Inr payload"
  using assms by (auto simp: build_def frame_api_laws_def opaque_payload_def result_simps)

text \<open>
  A concrete frame interface for the closed examples: a frame is its id, order and message, a
  message is the body's octets, and an octet string holds at most 1024 octets.
\<close>

definition plain_api :: "(bytes \<times> u64 \<times> bytes) frame_api" where
  "plain_api =
     \<lparr>octet_string_new = (\<lambda>b. if length b \<le> 1024 then Inr b else Inl (TightBeamError ''length'')),
      build_v0 = (\<lambda>ident order b. Inr (as_bytes ident, order, body b)),
      opaque_from_der = (\<lambda>m. Inr \<lparr>body = m\<rparr>),
      frame_to_der = (\<lambda>(ident, order, m). Inr m),
      metadata_id = fst, metadata_order = (\<lambda>f. fst (snd f)), frame_message = (\<lambda>f. snd (snd f))\<rparr>"

lemma plain_api_laws: "frame_api_laws plain_api"
  by (simp add: frame_api_laws_def plain_api_def)

section \<open>Properties\<close>

text \<open>
  An update frame carries exactly the topic's name as its id, the assigned order, and a body
  from which \<^verbatim>\<open>opaque_payload\<close> lifts the published octets; an end frame carries the prefixed
  name, its order and no payload.
\<close>

lemma frames_round_trip:
  assumes "frame_api_laws api" and "update_frame api topic order payload = Inr f"
    and "end_frame api topic order' = Inr g"
  shows "metadata_id api f = as_bytes (as_str topic) \<and> metadata_order api f = order \<and>
         opaque_payload api f = Inr payload \<and>
         metadata_id api g = as_bytes (END_PREFIX @ as_str topic) \<and>
         metadata_order api g = order' \<and> opaque_payload api g = Inr []"
  using assms build_carries [OF assms(1)] by (simp add: update_frame_def end_frame_def)

end
