(* ===== verification/Policy.thy ===== *)
theory Policy
  imports Topic
begin

text \<open>
  The application's seams (\<^verbatim>\<open>pubsub/tightbeam-pubsub/src/policy.rs\<close>): the verdicts and the
  default policies. A policy object is consulted through one method, so it is the function
  that method computes.
\<close>

datatype delivery_verdict = VDropOldest | VDropNew | VDisconnect

type_synonym delivery_policy = "topic \<Rightarrow> u64 \<Rightarrow> delivery_verdict"

definition drop_oldest_on_full :: delivery_policy where
  "drop_oldest_on_full topic dropped_so_far = VDropOldest"

datatype access_verdict = Allow | Forbid

type_synonym subscribe_policy = "bytes option \<Rightarrow> topic \<Rightarrow> access_verdict"
type_synonym publish_policy = "bytes option \<Rightarrow> topic \<Rightarrow> access_verdict"

definition allow_all_subscribe :: subscribe_policy where
  "allow_all_subscribe identity topic = Allow"

definition allow_all_publish :: publish_policy where
  "allow_all_publish identity topic = Allow"

end
