(* ===== verification/Subscriber.thy ===== *)
theory Subscriber
  imports Frame Policy
begin

text \<open>
  One subscriber's delivery lane (\<^verbatim>\<open>Lane\<close>, \<^verbatim>\<open>Subscriber\<close> and \<^verbatim>\<open>Inner::push\<close> of
  \<^verbatim>\<open>pubsub/tightbeam-pubsub/src/registry.rs\<close>): the bounded queue, the flags, and enqueueing
  under the delivery policy. \<open>notified\<close> records that \<^verbatim>\<open>notify_one\<close> was called and the drain
  task has not resumed since.
\<close>

datatype connection_id = ConnectionId u64
datatype subscriber_id = SubscriberId u64

text \<open>\<^verbatim>\<open>derive(PartialOrd, Ord)\<close>: ids compare as their numbers do.\<close>

fun connection_number :: "connection_id \<Rightarrow> u64" where
  "connection_number (ConnectionId n) = n"

fun subscriber_number :: "subscriber_id \<Rightarrow> u64" where
  "subscriber_number (SubscriberId n) = n"

lemma connection_number_inj [simp]: "connection_number a = connection_number b \<longleftrightarrow> a = b"
  by (cases a; cases b) simp

lemma subscriber_number_inj [simp]: "subscriber_number a = subscriber_number b \<longleftrightarrow> a = b"
  by (cases a; cases b) simp

instantiation connection_id :: linorder
begin

definition less_eq_connection_id :: "connection_id \<Rightarrow> connection_id \<Rightarrow> bool" where
  "less_eq_connection_id a b \<longleftrightarrow> connection_number a \<le> connection_number b"

definition less_connection_id :: "connection_id \<Rightarrow> connection_id \<Rightarrow> bool" where
  "less_connection_id a b \<longleftrightarrow> connection_number a < connection_number b"

instance
  by standard (auto simp: less_eq_connection_id_def less_connection_id_def dest: antisym)

end

instantiation subscriber_id :: linorder
begin

definition less_eq_subscriber_id :: "subscriber_id \<Rightarrow> subscriber_id \<Rightarrow> bool" where
  "less_eq_subscriber_id a b \<longleftrightarrow> subscriber_number a \<le> subscriber_number b"

definition less_subscriber_id :: "subscriber_id \<Rightarrow> subscriber_id \<Rightarrow> bool" where
  "less_subscriber_id a b \<longleftrightarrow> subscriber_number a < subscriber_number b"

instance
  by standard (auto simp: less_eq_subscriber_id_def less_subscriber_id_def dest: antisym)

end

record 'f lane =
  queue :: "'f list"
  in_flight :: bool

record 'f subscriber =
  sub_topic :: topic
  sub_connection :: connection_id
  lane :: "'f lane"
  notified :: bool
  dropped :: u64
  closed :: bool
  finished :: bool

definition subscriber_new :: "topic \<Rightarrow> connection_id \<Rightarrow> 'f subscriber" where
  "subscriber_new topic connection =
     \<lparr>sub_topic = topic, sub_connection = connection, lane = \<lparr>queue = [], in_flight = False\<rparr>,
      notified = False, dropped = 0, closed = False, finished = False\<rparr>"

text \<open>The lane with one more frame at the back, and with its oldest frame gone.\<close>

definition push_back :: "'f \<Rightarrow> 'f lane \<Rightarrow> 'f lane" where
  "push_back f l = l\<lparr>queue := queue l @ [f]\<rparr>"

definition pop_front :: "'f lane \<Rightarrow> 'f option \<times> 'f lane" where
  "pop_front l = (case queue l of [] \<Rightarrow> (None, l) | f # fs \<Rightarrow> (Some f, l\<lparr>queue := fs\<rparr>))"

definition pending :: "'f subscriber \<Rightarrow> bool" where
  "pending s \<longleftrightarrow> in_flight (lane s) \<or> queue (lane s) \<noteq> []"

definition close :: "'f subscriber \<Rightarrow> 'f subscriber" where
  "close s = s\<lparr>closed := True, notified := True\<rparr>"

definition finish :: "'f \<Rightarrow> 'f subscriber \<Rightarrow> 'f subscriber" where
  "finish end s = s\<lparr>lane := push_back end (lane s), finished := True, notified := True\<rparr>"

datatype push_outcome = Delivered | Dropped | Disconnect

definition push :: "nat \<Rightarrow> delivery_policy \<Rightarrow> 'f \<Rightarrow> 'f subscriber \<Rightarrow> push_outcome \<times> 'f subscriber" where
  "push capacity on_full update s =
     (if length (queue (lane s)) < capacity
      then (Delivered, s\<lparr>lane := push_back update (lane s), notified := True\<rparr>)
      else case on_full (sub_topic s) (dropped s) of
        VDropOldest \<Rightarrow>
          (Delivered, s\<lparr>lane := push_back update (snd (pop_front (lane s))),
                        dropped := dropped s + 1, notified := True\<rparr>)
      | VDropNew \<Rightarrow> (Dropped, s\<lparr>dropped := dropped s + 1\<rparr>)
      | VDisconnect \<Rightarrow> (Disconnect, s))"

section \<open>Frame conditions\<close>

lemma push_back_simps [simp]:
  "queue (push_back f l) = queue l @ [f]" "in_flight (push_back f l) = in_flight l"
  by (simp_all add: push_back_def)

lemma pop_front_simps [simp]:
  "queue (snd (pop_front l)) = tl (queue l)" "in_flight (snd (pop_front l)) = in_flight l"
  by (simp_all add: pop_front_def split: list.split)

lemma fst_pop_front: "fst (pop_front l) = (case queue l of [] \<Rightarrow> None | f # fs \<Rightarrow> Some f)"
  by (simp add: pop_front_def split: list.split)

lemma push_keeps [simp]:
  "sub_topic (snd (push c p f s)) = sub_topic s"
  "sub_connection (snd (push c p f s)) = sub_connection s"
  "closed (snd (push c p f s)) = closed s"
  "finished (snd (push c p f s)) = finished s"
  "in_flight (lane (snd (push c p f s))) = in_flight (lane s)"
  by (simp_all add: push_def split: delivery_verdict.split)

lemma close_keeps [simp]:
  "sub_topic (close s) = sub_topic s" "sub_connection (close s) = sub_connection s"
  "lane (close s) = lane s" "closed (close s)" "finished (close s) = finished s"
  "dropped (close s) = dropped s"
  by (simp_all add: close_def)

lemma finish_keeps [simp]:
  "sub_topic (finish f s) = sub_topic s" "sub_connection (finish f s) = sub_connection s"
  "queue (lane (finish f s)) = queue (lane s) @ [f]" "closed (finish f s) = closed s"
  "finished (finish f s)" "dropped (finish f s) = dropped s"
  by (simp_all add: finish_def)

section \<open>Properties\<close>

text \<open>
  Every update is accounted for: whatever mix of \<^verbatim>\<open>DropOldest\<close> and \<^verbatim>\<open>DropNew\<close> the policy
  answers, after a burst of pushes the queued updates and the drop counter together have grown
  by exactly the number of updates pushed (the counter not having wrapped).
\<close>

lemma push_accounts_for_every_update:
  assumes "0 < capacity" and "\<And>topic n. on_full topic n \<noteq> VDisconnect"
    and "unat (dropped s) + length updates < 2 ^ 64"
    and "foldl (\<lambda>l u. snd (push capacity on_full u l)) s updates = s'"
  shows "unat (dropped s') + length (queue (lane s')) =
         unat (dropped s) + length (queue (lane s)) + length updates"
  using assms(3,4)
proof (induction updates arbitrary: s)
  case (Cons u updates)
  let ?t = "snd (push capacity on_full u s)"
  have "dropped s \<noteq> - 1"
    using Cons.prems(1) by (auto simp: unat_max_u64)
  then have inc: "unat (dropped s + 1) = unat (dropped s) + 1" by (rule unat_plus_one)
  have one: "unat (dropped ?t) + length (queue (lane ?t)) =
      unat (dropped s) + length (queue (lane s)) + 1"
    and le: "unat (dropped ?t) \<le> unat (dropped s) + 1"
    using assms(1) assms(2) [of "sub_topic s" "dropped s"] inc
    by (auto simp: push_def split: delivery_verdict.split)
  have "unat (dropped ?t) + length updates < 2 ^ 64"
    using Cons.prems(1) le by simp
  from Cons.IH [OF this] Cons.prems(2) one show ?case by simp
qed simp

text \<open>
  The queue stays bounded: however many updates are pushed at a lane and whatever the policy
  answers, the queue never grows past its capacity (a capacity of zero still holds the one
  update \<^verbatim>\<open>DropOldest\<close> keeps).
\<close>

lemma push_bounded:
  assumes "length (queue (lane s)) \<le> max 1 capacity"
  shows "length (queue (lane (foldl (\<lambda>l u. snd (push capacity on_full u l)) s updates)))
           \<le> max 1 capacity"
  using assms
proof (induction updates arbitrary: s)
  case (Cons u updates)
  have "length (queue (lane (snd (push capacity on_full u s)))) \<le> max 1 capacity"
    using Cons.prems by (auto simp: push_def split: delivery_verdict.split)
  from Cons.IH [OF this] show ?case by simp
qed simp

text \<open>
  Under the default \<^verbatim>\<open>DropOldest\<close> policy a lane that starts empty holds, after any burst
  with no drain in between, exactly the newest updates in publish order, as many as fit.
\<close>

lemma push_drop_oldest_keeps_newest:
  assumes "0 < capacity" and "queue (lane s) = []"
  shows "queue (lane (foldl (\<lambda>l u. snd (push capacity drop_oldest_on_full u l)) s updates)) =
           drop (length updates - capacity) updates"
proof -
  let ?run = "foldl (\<lambda>l u. snd (push capacity drop_oldest_on_full u l)) s"
  have step: "queue (lane (snd (push capacity drop_oldest_on_full u l))) =
      (if length (queue (lane l)) < capacity then queue (lane l) else tl (queue (lane l))) @ [u]"
    for u and l :: "'a subscriber"
    by (simp add: push_def drop_oldest_on_full_def)
  show ?thesis
  proof (induction updates rule: rev_induct)
    case Nil
    then show ?case using assms(2) by simp
  next
    case (snoc u us)
    have "length us - capacity \<le> length us" by simp
    have IH: "queue (lane (?run us)) = drop (length us - capacity) us" by (rule snoc.IH)
    show ?case
    proof (cases "length us < capacity")
      case True
      then show ?thesis by (simp add: step IH)
    next
      case False
      then have "Suc (length us) - capacity = Suc (length us - capacity)" by simp
      with False assms(1) show ?thesis
        by (simp add: step IH drop_Suc flip: tl_drop)
    qed
  qed
qed

end
