(* ===== verification/Backplane.thy ===== *)
theory Backplane
  imports Frame
begin

text \<open>
  Per-topic sequencing and distribution (\<^verbatim>\<open>pubsub/tightbeam-pubsub/src/backplane.rs\<close>): the
  errors, the in-process backplane \<^verbatim>\<open>Local\<close>, and its contract. A sink is a weak reference to
  a node; \<open>upgrade\<close> tells whether it is still alive and \<open>deliver\<close> is its
  \<^verbatim>\<open>UpdateSink::deliver\<close>, both over the state \<open>'w\<close> of all nodes, which deliveries change.
\<close>

datatype deliver_error = Draining | Build tightbeam_error | Rejected

definition is_hard :: "deliver_error \<Rightarrow> bool" where
  "is_hard e \<longleftrightarrow> e \<noteq> Draining"

fun deliver_error_display :: "deliver_error \<Rightarrow> string" where
  "deliver_error_display Draining = ''the node is draining''"
| "deliver_error_display (Build cause) = ''the update frame failed to build: '' @ error_text cause"
| "deliver_error_display Rejected = ''the sink rejected the update''"

fun deliver_error_source :: "deliver_error \<Rightarrow> tightbeam_error option" where
  "deliver_error_source (Build cause) = Some cause"
| "deliver_error_source Draining = None"
| "deliver_error_source Rejected = None"

text \<open>The boxed error of \<^verbatim>\<open>Unavailable\<close> is carried as its display text.\<close>

datatype backplane_error = Refused deliver_error | Unavailable string

fun backplane_error_display :: "backplane_error \<Rightarrow> string" where
  "backplane_error_display (Refused cause) =
     ''every node refused the update: '' @ deliver_error_display cause"
| "backplane_error_display (Unavailable cause) = ''the backplane is unavailable: '' @ cause"

text \<open>\<^verbatim>\<open>Error::source\<close>; the source is carried as its display text.\<close>

fun backplane_error_source :: "backplane_error \<Rightarrow> string option" where
  "backplane_error_source (Refused cause) = Some (deliver_error_display cause)"
| "backplane_error_source (Unavailable cause) = Some cause"

record 'n local_state =
  orders :: "(topic \<times> u64) list"
  sinks :: "'n list"

definition local_default :: "'n local_state" where
  "local_default = \<lparr>orders = [], sinks = []\<rparr>"

definition attach :: "('w \<Rightarrow> 'n \<Rightarrow> bool) \<Rightarrow> 'w \<Rightarrow> 'n \<Rightarrow> 'n local_state \<Rightarrow> 'n local_state" where
  "attach upgrade w sink s = s\<lparr>sinks := filter (upgrade w) (sinks s) @ [sink]\<rparr>"

definition last_order_of :: "'n local_state \<Rightarrow> topic \<Rightarrow> u64" where
  "last_order_of s topic = (case map_of (orders s) topic of None \<Rightarrow> 0 | Some n \<Rightarrow> n)"

definition reserve_order :: "topic \<Rightarrow> 'n local_state \<Rightarrow> u64 \<times> 'n local_state" where
  "reserve_order topic s =
     (let order = saturating_add (last_order_of s topic) 1
      in (order, s\<lparr>orders := AList.update topic order (orders s)\<rparr>))"

text \<open>The locals of the \<^verbatim>\<open>publish\<close> loop.\<close>

record tally =
  delivered_any :: bool
  first_hard :: "deliver_error option"
  first_soft :: "deliver_error option"

definition tally_start :: tally where
  "tally_start = \<lparr>delivered_any = False, first_hard = None, first_soft = None\<rparr>"

definition tally_result :: "deliver_error + unit \<Rightarrow> tally \<Rightarrow> tally" where
  "tally_result r a =
     (case r of
        Inr _ \<Rightarrow> a\<lparr>delivered_any := True\<rparr>
      | Inl cause \<Rightarrow>
          if is_hard cause
          then (if first_hard a = None then a\<lparr>first_hard := Some cause\<rparr> else a)
          else if first_soft a = None then a\<lparr>first_soft := Some cause\<rparr> else a)"

type_synonym ('n, 'w) sink_deliver =
  "'n \<Rightarrow> topic \<Rightarrow> u64 \<Rightarrow> bytes \<Rightarrow> 'w \<Rightarrow> (deliver_error + unit) \<times> 'w"

text \<open>\<^verbatim>\<open>state.sinks.retain\<close>: dead sinks fall out, live ones are delivered to in order.\<close>

fun distribute ::
  "('w \<Rightarrow> 'n \<Rightarrow> bool) \<Rightarrow> ('n, 'w) sink_deliver \<Rightarrow> topic \<Rightarrow> u64 \<Rightarrow> bytes \<Rightarrow>
   'n list \<Rightarrow> tally \<Rightarrow> 'w \<Rightarrow> 'n list \<times> tally \<times> 'w" where
  "distribute upgrade deliver topic order payload [] a w = ([], a, w)"
| "distribute upgrade deliver topic order payload (n # ns) a w =
     (if upgrade w n
      then let (r, w') = deliver n topic order payload w;
               (kept, a', w'') = distribute upgrade deliver topic order payload ns (tally_result r a) w'
           in (n # kept, a', w'')
      else distribute upgrade deliver topic order payload ns a w)"

definition local_publish ::
  "('w \<Rightarrow> 'n \<Rightarrow> bool) \<Rightarrow> ('n, 'w) sink_deliver \<Rightarrow> topic \<Rightarrow> bytes \<Rightarrow> 'n local_state \<Rightarrow> 'w \<Rightarrow>
   (backplane_error + unit) \<times> 'n local_state \<times> 'w" where
  "local_publish upgrade deliver topic payload s w =
     (let order = saturating_add (last_order_of s topic) 1;
          (kept, a, w') = distribute upgrade deliver topic order payload (sinks s) tally_start w;
          s' = s\<lparr>sinks := kept\<rparr>;
          burned = s'\<lparr>orders := AList.update topic order (orders s')\<rparr>
      in if delivered_any a
         then (case first_hard a of
                 Some refusal \<Rightarrow> (Inl (Refused refusal), burned, w')
               | None \<Rightarrow> (Inr (), burned, w'))
         else (case (case first_hard a of Some e \<Rightarrow> Some e | None \<Rightarrow> first_soft a) of
                 Some refusal \<Rightarrow> (Inl (Refused refusal), s', w')
               | None \<Rightarrow> (Inr (), burned, w')))"

section \<open>The distribution loop\<close>

text \<open>
  \<open>answers\<close> lists what the live sinks answered, in order: the specification the loop's three
  locals are compared with.
\<close>

fun answers ::
  "('w \<Rightarrow> 'n \<Rightarrow> bool) \<Rightarrow> ('n, 'w) sink_deliver \<Rightarrow> topic \<Rightarrow> u64 \<Rightarrow> bytes \<Rightarrow>
   'n list \<Rightarrow> 'w \<Rightarrow> ('n \<times> (deliver_error + unit)) list" where
  "answers upgrade deliver topic order payload [] w = []"
| "answers upgrade deliver topic order payload (n # ns) w =
     (if upgrade w n
      then (n, fst (deliver n topic order payload w)) #
             answers upgrade deliver topic order payload ns (snd (deliver n topic order payload w))
      else answers upgrade deliver topic order payload ns w)"

lemma distribute_answers:
  "distribute upgrade deliver topic order payload ns a w = (kept, a', w') \<Longrightarrow>
     kept = map fst (answers upgrade deliver topic order payload ns w) \<and>
     a' = fold tally_result (map snd (answers upgrade deliver topic order payload ns w)) a"
  by (induction ns arbitrary: a w kept)
     (auto simp: Let_def split: prod.splits if_splits)

lemma fold_tally:
  "delivered_any (fold tally_result rs a) \<longleftrightarrow> delivered_any a \<or> Inr () \<in> set rs"
  "first_hard (fold tally_result rs a) =
     (case first_hard a of Some e \<Rightarrow> Some e
      | None \<Rightarrow> find is_hard (concat (map (\<lambda>r. case r of Inl e \<Rightarrow> [e] | Inr _ \<Rightarrow> []) rs)))"
  "first_soft (fold tally_result rs a) =
     (case first_soft a of Some e \<Rightarrow> Some e
      | None \<Rightarrow> find (Not \<circ> is_hard) (concat (map (\<lambda>r. case r of Inl e \<Rightarrow> [e] | Inr _ \<Rightarrow> []) rs)))"
  by (induction rs arbitrary: a)
     (auto simp: tally_result_def split: sum.splits option.splits)

lemma last_order_of_update:
  "last_order_of (s\<lparr>orders := AList.update topic n (orders s)\<rparr>) t =
     (if t = topic then n else last_order_of s t)"
  by (simp add: last_order_of_def)

lemma last_order_of_sinks [simp]: "last_order_of (s\<lparr>sinks := ns\<rparr>) t = last_order_of s t"
  by (simp add: last_order_of_def)

text \<open>The loop's outcome in terms of the answers.\<close>

definition refusals :: "('n \<times> (deliver_error + unit)) list \<Rightarrow> deliver_error list" where
  "refusals rs = concat (map (\<lambda>r. case r of Inl e \<Rightarrow> [e] | Inr _ \<Rightarrow> []) (map snd rs))"

lemma local_publish_answers:
  fixes rs :: "('n \<times> (deliver_error + unit)) list"
  assumes "local_publish upgrade deliver topic payload s w = (r, s', w')"
  defines "order \<equiv> saturating_add (last_order_of s topic) 1"
  defines "rs \<equiv> answers upgrade deliver topic order payload (sinks s) w"
  shows "r = (case find is_hard (refusals rs) of
                Some e \<Rightarrow> Inl (Refused e)
              | None \<Rightarrow> if Inr () \<in> snd ` set rs \<or> refusals rs = [] then Inr ()
                         else Inl (Refused (hd (refusals rs))))"
    and "s' = (if Inr () \<in> snd ` set rs \<or> refusals rs = []
               then s\<lparr>sinks := map fst rs, orders := AList.update topic order (orders s)\<rparr>
               else s\<lparr>sinks := map fst rs\<rparr>)"
proof -
  obtain kept a wx where d: "distribute upgrade deliver topic order payload (sinks s) tally_start w = (kept, a, wx)"
    by (metis prod_cases3)
  have kept: "kept = map fst rs" and a: "a = fold tally_result (map snd rs) tally_start"
    using distribute_answers [OF d] by (simp_all add: rs_def)
  have any: "delivered_any a \<longleftrightarrow> Inr () \<in> snd ` set rs"
    and hard: "first_hard a = find is_hard (refusals rs)"
    and soft: "first_soft a = find (Not \<circ> is_hard) (refusals rs)"
    by (simp_all add: a fold_tally refusals_def tally_start_def)
  have soft_hd: "find (Not \<circ> is_hard) es = (case es of [] \<Rightarrow> None | e # _ \<Rightarrow> Some e)"
    if "find is_hard es = None" for es
    using that by (cases es) (auto split: if_splits)
  show "r = (case find is_hard (refusals rs) of
                Some e \<Rightarrow> Inl (Refused e)
              | None \<Rightarrow> if Inr () \<in> snd ` set rs \<or> refusals rs = [] then Inr ()
                         else Inl (Refused (hd (refusals rs))))"
    using assms(1) d by (auto simp: local_publish_def Let_def any hard soft soft_hd simp flip: order_def
        split: option.splits if_splits list.splits)
  show "s' = (if Inr () \<in> snd ` set rs \<or> refusals rs = []
               then s\<lparr>sinks := map fst rs, orders := AList.update topic order (orders s)\<rparr>
               else s\<lparr>sinks := map fst rs\<rparr>)"
    using assms(1) d by (auto simp: local_publish_def Let_def any hard soft soft_hd kept simp flip: order_def
        split: option.splits if_splits list.splits)
qed

section \<open>The contract\<close>

text \<open>
  The order contract of the \<^verbatim>\<open>Backplane\<close> trait: a reserved order is the next one, a successful
  publish takes the next one, a failed publish takes it or leaves the counter alone, and no
  call disturbs another topic's counter.
\<close>

locale backplane =
  fixes last_order :: "'b \<Rightarrow> topic \<Rightarrow> u64"
    and reserve :: "topic \<Rightarrow> 'b \<Rightarrow> u64 \<times> 'b"
    and publish :: "topic \<Rightarrow> bytes \<Rightarrow> 'b \<Rightarrow> 'w \<Rightarrow> (backplane_error + unit) \<times> 'b \<times> 'w"
  assumes reserve_next:
      "reserve t b = (n, b') \<Longrightarrow> n = saturating_add (last_order b t) 1 \<and>
         last_order b' u = (if u = t then n else last_order b u)"
    and publish_next: "publish t p b w = (Inr (), b', w') \<Longrightarrow>
         last_order b' t = saturating_add (last_order b t) 1"
    and publish_failed: "publish t p b w = (Inl e, b', w') \<Longrightarrow>
         last_order b' t = last_order b t \<or> last_order b' t = saturating_add (last_order b t) 1"
    and publish_other: "publish t p b w = (r, b', w') \<Longrightarrow> u \<noteq> t \<Longrightarrow> last_order b' u = last_order b u"

text \<open>
  A run of backplane calls: \<open>claims\<close> collects the orders one topic's counter moves to, which are
  the stamps of its updates and its completion.
\<close>

datatype backplane_call = Reserve topic | Publish topic bytes

fun call ::
  "(topic \<Rightarrow> 'b \<Rightarrow> u64 \<times> 'b) \<Rightarrow>
   (topic \<Rightarrow> bytes \<Rightarrow> 'b \<Rightarrow> 'w \<Rightarrow> (backplane_error + unit) \<times> 'b \<times> 'w) \<Rightarrow>
   backplane_call \<Rightarrow> 'b \<Rightarrow> 'w \<Rightarrow> 'b \<times> 'w" where
  "call reserve publish (Reserve t) b w = (snd (reserve t b), w)"
| "call reserve publish (Publish t p) b w = snd (publish t p b w)"

fun claims ::
  "('b \<Rightarrow> topic \<Rightarrow> u64) \<Rightarrow> (topic \<Rightarrow> 'b \<Rightarrow> u64 \<times> 'b) \<Rightarrow>
   (topic \<Rightarrow> bytes \<Rightarrow> 'b \<Rightarrow> 'w \<Rightarrow> (backplane_error + unit) \<times> 'b \<times> 'w) \<Rightarrow>
   topic \<Rightarrow> backplane_call list \<Rightarrow> 'b \<Rightarrow> 'w \<Rightarrow> u64 list" where
  "claims last_order reserve publish t [] b w = []"
| "claims last_order reserve publish t (c # cs) b w =
     (let (b', w') = call reserve publish c b w;
          later = claims last_order reserve publish t cs b' w'
      in if last_order b' t = last_order b t then later else last_order b' t # later)"

context backplane
begin

lemma call_moves:
  assumes "call reserve publish c b w = (b', w')"
  shows "last_order b' t = last_order b t \<or> last_order b' t = saturating_add (last_order b t) 1"
proof (cases c)
  case (Reserve u)
  with assms have "b' = snd (reserve u b)" by auto
  then show ?thesis using reserve_next [of u b "fst (reserve u b)" b' t] by auto
next
  case (Publish u p)
  with assms obtain r where "publish u p b w = (r, b', w')" by (metis call.simps(2) prod.collapse)
  then show ?thesis
    using publish_next [of u p b w b' w'] publish_failed [of u p b w _ b' w']
      publish_other [of u p b w r b' w' t] by (cases r) auto
qed

lemma claims_dense:
  assumes "unat (last_order b t) + length cs < 2 ^ 64"
  shows "\<exists>k\<le>length cs. map unat (claims last_order reserve publish t cs b w) =
           [unat (last_order b t) + 1 ..< unat (last_order b t) + 1 + k]"
  using assms
proof (induction cs arbitrary: b w)
  case (Cons c cs)
  obtain b' w' where c: "call reserve publish c b w = (b', w')" by fastforce
  from call_moves [OF c, of t] show ?case
  proof
    assume same: "last_order b' t = last_order b t"
    with Cons.prems Cons.IH [of b' w'] obtain k where "k \<le> length cs"
      "map unat (claims last_order reserve publish t cs b' w') =
         [unat (last_order b t) + 1 ..< unat (last_order b t) + 1 + k]" by auto
    with same c show ?case by (intro exI [of _ k]) simp
  next
    assume next_: "last_order b' t = saturating_add (last_order b t) 1"
    have not_max: "last_order b t \<noteq> - 1" using Cons.prems by (auto simp: unat_max_u64)
    then have succ: "last_order b' t = last_order b t + 1"
      and un: "unat (last_order b' t) = unat (last_order b t) + 1"
      using next_ by (simp_all add: saturating_add_one unat_plus_one)
    with Cons.prems Cons.IH [of b' w'] obtain k where k: "k \<le> length cs"
      "map unat (claims last_order reserve publish t cs b' w') =
         [unat (last_order b t) + 2 ..< unat (last_order b t) + 2 + k]" by auto
    have "last_order b' t \<noteq> last_order b t" using un by auto
    moreover have "[n + 1 ..< n + 1 + Suc k] = (n + 1) # [n + 2 ..< n + 2 + k]" for n :: nat
      by (simp add: upt_conv_Cons del: upt_Suc)
    ultimately have "map unat (claims last_order reserve publish t (c # cs) b w) =
        [unat (last_order b t) + 1 ..< unat (last_order b t) + 1 + Suc k]"
      using c k(2) un by (simp del: upt_Suc)
    with k(1) show ?thesis by (intro exI [of _ "Suc k"]) simp
  qed
qed simp

end

lemma local_publish_last_order:
  assumes "local_publish upgrade deliver topic payload s w = (r, s', w')"
  shows "last_order_of s' u =
    (if u = topic \<and> (let rs = answers upgrade deliver topic (saturating_add (last_order_of s topic) 1) payload (sinks s) w
                      in Inr () \<in> snd ` set rs \<or> refusals rs = [])
     then saturating_add (last_order_of s topic) 1 else last_order_of s u)"
  unfolding local_publish_answers(2) [OF assms]
  by (auto simp: last_order_of_def Let_def)

interpretation local_bp: backplane last_order_of reserve_order "local_publish upgrade deliver"
  for upgrade deliver
proof unfold_locales
  fix t p s w s' w'
  assume *: "local_publish upgrade deliver t p s w = (Inr (), s', w')"
  then show "last_order_of s' t = saturating_add (last_order_of s t) 1"
    using local_publish_answers(1) [OF *]
    by (auto simp: local_publish_last_order [OF *] Let_def split: option.splits if_splits)
qed (auto simp: reserve_order_def Let_def last_order_of_update local_publish_last_order)

section \<open>Properties\<close>

text \<open>
  C6. The outcome of \<^verbatim>\<open>Local::publish\<close> from what its live sinks answer, with the fate of the order
  stamp: a hard refusal fails the publish even after a partial accept, soft refusals matter only
  when nobody accepted, the stamp burns exactly when some sink accepted or no live sink was
  attached, the other topics' counters never move, and dead sinks fall out of distribution.
\<close>

theorem local_publish_outcome:
  assumes "local_publish upgrade deliver topic payload s w = (r, s', w')"
    and "rs = answers upgrade deliver topic (saturating_add (last_order_of s topic) 1) payload (sinks s) w"
  shows "r = (case find is_hard (refusals rs) of
                Some e \<Rightarrow> Inl (Refused e)
              | None \<Rightarrow> if Inr () \<in> snd ` set rs \<or> rs = [] then Inr ()
                         else Inl (Refused (hd (refusals rs)))) \<and>
         last_order_of s' u =
           (if u = topic \<and> (Inr () \<in> snd ` set rs \<or> rs = [])
            then saturating_add (last_order_of s topic) 1 else last_order_of s u) \<and>
         sinks s' = map fst rs"
proof -
  have "refusals rs = [] \<Longrightarrow> Inr () \<in> snd ` set rs \<or> rs = []"
    by (cases rs) (auto simp: refusals_def split: sum.splits)
  then have empty: "Inr () \<in> snd ` set rs \<or> refusals rs = [] \<longleftrightarrow> Inr () \<in> snd ` set rs \<or> rs = []"
    by (auto simp: refusals_def)
  show ?thesis
    using local_publish_answers(1,2) [OF assms(1), folded assms(2)]
      local_publish_last_order [OF assms(1), of u, folded assms(2)]
    unfolding Let_def empty by simp
qed

text \<open>The sinks of the closed examples: node 1 rejects, every other node records the order.\<close>

definition recorder_deliver :: "nat \<Rightarrow> topic \<Rightarrow> u64 \<Rightarrow> bytes \<Rightarrow> u64 list \<Rightarrow> (deliver_error + unit) \<times> u64 list" where
  "recorder_deliver n topic order payload w = (if n = 1 then (Inl Rejected, w) else (Inr (), w @ [order]))"

theorem local_publish_outcome_witness:
  "local_publish (\<lambda>w n. n \<noteq> 2) recorder_deliver (Topic ''prices'') [] \<lparr>orders = [], sinks = [0, 1, 2]\<rparr> [] =
     (Inl (Refused Rejected), \<lparr>orders = [(Topic ''prices'', 1)], sinks = [0, 1]\<rparr>, [1]) \<and>
   last_order_of \<lparr>orders = [(Topic ''prices'', 1)], sinks = [0, 1 :: nat]\<rparr> (Topic ''prices'') = 1"
proof -
  let ?s = "\<lparr>orders = [], sinks = [0, 1, 2 :: nat]\<rparr>"
  have run: "local_publish (\<lambda>w n. n \<noteq> 2) recorder_deliver (Topic ''prices'') [] ?s [] =
     (Inl (Refused Rejected), \<lparr>orders = [(Topic ''prices'', 1)], sinks = [0, 1]\<rparr>, [1])"
    by (simp add: local_publish_def recorder_deliver_def last_order_of_def saturating_add_def
        tally_start_def tally_result_def is_hard_def)
  from local_publish_outcome [OF run refl, of "Topic ''prices''"] run show ?thesis
    by (simp add: recorder_deliver_def last_order_of_def saturating_add_def)
qed



end
