(* ===== verification/Registry.thy ===== *)
theory Registry
  imports Subscriber Backplane
begin

text \<open>
  The topic registry (\<^verbatim>\<open>pubsub/tightbeam-pubsub/src/registry.rs\<close>): connections, topics and
  subscribers, registration, publish fan-out, disconnects and quiesce. Every method that takes
  the state lock is one function over \<open>inner\<close>, the registry's \<^verbatim>\<open>Inner\<close>. Subscriber objects are
  shared between the registry's map and their drain task: \<open>subscribers\<close> are the ones in the
  map, \<open>detached\<close> the ones only their drain task still holds. \<open>spawned\<close> lists the tasks handed
  to the runtime, and the upstream mux handle is the type \<open>'h\<close>.
\<close>

section \<open>State\<close>

definition DEFAULT_QUEUE_CAPACITY :: nat where "DEFAULT_QUEUE_CAPACITY = 32"
definition DEFAULT_MAX_SUBSCRIPTIONS_PER_CONNECTION :: nat where
  "DEFAULT_MAX_SUBSCRIPTIONS_PER_CONNECTION = 64"

record registry_options =
  queue_capacity :: nat
  max_subscriptions_per_connection :: nat
  delivery :: delivery_policy

definition default_options :: registry_options where
  "default_options =
     \<lparr>queue_capacity = DEFAULT_QUEUE_CAPACITY,
      max_subscriptions_per_connection = DEFAULT_MAX_SUBSCRIPTIONS_PER_CONNECTION,
      delivery = drop_oldest_on_full\<rparr>"

datatype register_error = UnknownConnection | RegisterDraining | LimitReached

fun register_error_display :: "register_error \<Rightarrow> string" where
  "register_error_display UnknownConnection = ''the connection is not registered''"
| "register_error_display RegisterDraining = ''the registry is draining''"
| "register_error_display LimitReached = ''the connection holds too many subscriptions''"

datatype publish_error =
  PublishDraining | PublishBuild tightbeam_error | PublishBackplane backplane_error

text \<open>\<^verbatim>\<open>impl From<BackplaneError> for PublishError\<close>.\<close>

fun publish_error_from :: "backplane_error \<Rightarrow> publish_error" where
  "publish_error_from (Refused Draining) = PublishDraining"
| "publish_error_from (Refused (Build cause)) = PublishBuild cause"
| "publish_error_from unavailable = PublishBackplane unavailable"

fun publish_error_display :: "publish_error \<Rightarrow> string" where
  "publish_error_display PublishDraining = ''the registry is draining''"
| "publish_error_display (PublishBuild cause) =
     ''the update frame failed to build: '' @ error_text cause"
| "publish_error_display (PublishBackplane cause) =
     ''the backplane refused the publish: '' @ backplane_error_display cause"

fun publish_error_source :: "publish_error \<Rightarrow> string option" where
  "publish_error_source (PublishBuild cause) = Some (error_text cause)"
| "publish_error_source (PublishBackplane cause) = Some (backplane_error_display cause)"
| "publish_error_source PublishDraining = None"

record topic_state =
  last_order :: u64
  members :: "subscriber_id list"

definition topic_state_default :: topic_state where
  "topic_state_default = \<lparr>last_order = 0, members = []\<rparr>"

record 'h connection_state =
  handle :: 'h
  identity :: "bytes option"
  conn_topics :: "(topic \<times> subscriber_id) list"

record ('h, 'f) state =
  topics :: "(topic \<times> topic_state) list"
  connections :: "(connection_id \<times> 'h connection_state) list"
  subscribers :: "(subscriber_id \<times> 'f subscriber) list"
  detached :: "(subscriber_id \<times> 'f subscriber) list"

definition state_default :: "('h, 'f) state" where
  "state_default = \<lparr>topics = [], connections = [], subscribers = [], detached = []\<rparr>"

text \<open>The upstream \<^verbatim>\<open>GoAwayReason\<close>, with the variants this repository names.\<close>

datatype goaway_reason =
  Shutdown | ProtocolError | EnhanceYourCalm | BudgetExhausted | SettlementFailed | Application u32

datatype 'h task = DrainTask subscriber_id 'h | ShutdownTask 'h goaway_reason

record ('h, 'f) inner =
  options :: registry_options
  draining :: bool
  next_connection :: u64
  next_subscriber :: u64
  state :: "('h, 'f) state"
  spawned :: "'h task list"

definition registry_new :: "registry_options \<Rightarrow> ('h, 'f) inner" where
  "registry_new opts =
     \<lparr>options = opts, draining = False, next_connection = 1, next_subscriber = 1,
      state = state_default, spawned = []\<rparr>"

section \<open>Connections and subscriptions\<close>

definition admit_connection :: "'h \<Rightarrow> bytes option \<Rightarrow> ('h, 'f) inner \<Rightarrow> connection_id \<times> ('h, 'f) inner" where
  "admit_connection h ident r =
     (let connection = ConnectionId (next_connection r);
          connected = \<lparr>handle = h, identity = ident, conn_topics = []\<rparr>
      in (connection,
          r\<lparr>next_connection := next_connection r + 1,
            state := (state r)\<lparr>connections := AList.update connection connected (connections (state r))\<rparr>\<rparr>))"

definition register_connection :: "'h \<Rightarrow> ('h, 'f) inner \<Rightarrow> connection_id \<times> ('h, 'f) inner" where
  "register_connection h r = admit_connection h None r"

definition register_connection_as :: "'h \<Rightarrow> bytes \<Rightarrow> ('h, 'f) inner \<Rightarrow> connection_id \<times> ('h, 'f) inner" where
  "register_connection_as h ident r = admit_connection h (Some ident) r"

definition member_identity :: "connection_id \<Rightarrow> ('h, 'f) inner \<Rightarrow> bytes option option" where
  "member_identity connection r =
     map_option identity (map_of (connections (state r)) connection)"

definition connection_identity :: "connection_id \<Rightarrow> ('h, 'f) inner \<Rightarrow> bytes option" where
  "connection_identity connection r =
     (case member_identity connection r of None \<Rightarrow> None | Some ident \<Rightarrow> ident)"

text \<open>\<^verbatim>\<open>topics.entry(topic).or_default().members.insert(id)\<close>.\<close>

definition add_member :: "topic \<Rightarrow> subscriber_id \<Rightarrow> (topic \<times> topic_state) list \<Rightarrow> (topic \<times> topic_state) list" where
  "add_member topic id' ts =
     (let entry = (case map_of ts topic of None \<Rightarrow> topic_state_default | Some e \<Rightarrow> e)
      in AList.update topic (entry\<lparr>members := List.insert id' (members entry)\<rparr>) ts)"

definition register ::
  "connection_id \<Rightarrow> topic \<Rightarrow> ('h, 'f) inner \<Rightarrow> (register_error + subscriber_id) \<times> ('h, 'f) inner" where
  "register connection topic r =
     (if draining r then (Inl RegisterDraining, r)
      else case map_of (connections (state r)) connection of
        None \<Rightarrow> (Inl UnknownConnection, r)
      | Some connected \<Rightarrow>
          (case map_of (conn_topics connected) topic of
             Some existing \<Rightarrow> (Inr existing, r)
           | None \<Rightarrow>
               if max_subscriptions_per_connection (options r) \<le> length (conn_topics connected)
               then (Inl LimitReached, r)
               else
                 let id' = SubscriberId (next_subscriber r);
                     st = state r;
                     joined = connected\<lparr>conn_topics := AList.update topic id' (conn_topics connected)\<rparr>
                 in (Inr id',
                     r\<lparr>next_subscriber := next_subscriber r + 1,
                       state := st\<lparr>subscribers := AList.update id' (subscriber_new topic connection) (subscribers st),
                                   topics := add_member topic id' (topics st),
                                   connections := AList.update connection joined (connections st)\<rparr>,
                       spawned := spawned r @ [DrainTask id' (handle connected)]\<rparr>)))"

definition remove_subscriber :: "subscriber_id \<Rightarrow> ('h, 'f) state \<Rightarrow> ('h, 'f) state" where
  "remove_subscriber id' st =
     (case map_of (subscribers st) id' of
        None \<Rightarrow> st
      | Some subscriber \<Rightarrow>
          let st' = st\<lparr>subscribers := AList.delete id' (subscribers st)\<rparr>;
              topic = sub_topic subscriber;
              pruned =
                (case map_of (topics st') topic of
                   None \<Rightarrow> topics st'
                 | Some entry \<Rightarrow>
                     let left = removeAll id' (members entry)
                     in if left = [] then AList.delete topic (topics st')
                        else AList.update topic (entry\<lparr>members := left\<rparr>) (topics st'))
          in st'\<lparr>topics := pruned, detached := (id', close subscriber) # detached st'\<rparr>)"

definition unregister :: "connection_id \<Rightarrow> topic \<Rightarrow> ('h, 'f) inner \<Rightarrow> bool \<times> ('h, 'f) inner" where
  "unregister connection topic r =
     (case map_of (connections (state r)) connection of
        None \<Rightarrow> (False, r)
      | Some connected \<Rightarrow>
          (case map_of (conn_topics connected) topic of
             None \<Rightarrow> (False, r)
           | Some id' \<Rightarrow>
               let left = connected\<lparr>conn_topics := AList.delete topic (conn_topics connected)\<rparr>;
                   st = (state r)\<lparr>connections := AList.update connection left (connections (state r))\<rparr>
               in (True, r\<lparr>state := remove_subscriber id' st\<rparr>)))"

definition drop_connection :: "connection_id \<Rightarrow> ('h, 'f) inner \<Rightarrow> ('h, 'f) inner" where
  "drop_connection connection r =
     (case map_of (connections (state r)) connection of
        None \<Rightarrow> r
      | Some connected \<Rightarrow>
          r\<lparr>state := fold remove_subscriber (map snd (conn_topics connected))
              ((state r)\<lparr>connections := AList.delete connection (connections (state r))\<rparr>)\<rparr>)"

definition disconnect :: "connection_id \<Rightarrow> ('h, 'f) inner \<Rightarrow> ('h, 'f) inner" where
  "disconnect connection r =
     (let found = map_option handle (map_of (connections (state r)) connection);
          r' = drop_connection connection r
      in case found of
           None \<Rightarrow> r'
         | Some h \<Rightarrow> r'\<lparr>spawned := spawned r' @ [ShutdownTask h EnhanceYourCalm]\<rparr>)"

section \<open>Fan-out and publishing\<close>

text \<open>The member loop of \<^verbatim>\<open>fan_out\<close>, with the connections the policy voted off so far.\<close>

fun fan_out_members ::
  "registry_options \<Rightarrow> 'f \<Rightarrow> subscriber_id list \<Rightarrow> (subscriber_id \<times> 'f subscriber) list \<Rightarrow>
   connection_id list \<Rightarrow> (subscriber_id \<times> 'f subscriber) list \<times> connection_id list" where
  "fan_out_members opts update [] subs doomed = (subs, doomed)"
| "fan_out_members opts update (id' # ids) subs doomed =
     (case map_of subs id' of
        None \<Rightarrow> fan_out_members opts update ids subs doomed
      | Some subscriber \<Rightarrow>
          let (outcome, pushed) = push (queue_capacity opts) (delivery opts) update subscriber;
              subs' = AList.update id' pushed subs
          in fan_out_members opts update ids subs'
               (if outcome = Disconnect then doomed @ [sub_connection subscriber] else doomed))"

definition fan_out :: "registry_options \<Rightarrow> topic \<Rightarrow> 'f \<Rightarrow> ('h, 'f) state \<Rightarrow> ('h, 'f) state \<times> connection_id list" where
  "fan_out opts topic update st =
     (case map_of (topics st) topic of
        None \<Rightarrow> (st, [])
      | Some entry \<Rightarrow>
          let (subs, doomed) = fan_out_members opts update (members entry) (subscribers st) []
          in (st\<lparr>subscribers := subs\<rparr>, doomed))"

definition deliver ::
  "'f frame_api \<Rightarrow> topic \<Rightarrow> u64 \<Rightarrow> bytes \<Rightarrow> ('h, 'f) inner \<Rightarrow> (deliver_error + unit) \<times> ('h, 'f) inner" where
  "deliver api topic order payload r =
     (if draining r then (Inl Draining, r)
      else case update_frame api topic order payload of
        Inl cause \<Rightarrow> (Inl (Build cause), r)
      | Inr update \<Rightarrow>
          let st = state r;
              stamped =
                (case map_of (topics st) topic of
                   None \<Rightarrow> st
                 | Some entry \<Rightarrow>
                     st\<lparr>topics := AList.update topic
                          (entry\<lparr>last_order := max (last_order entry) order\<rparr>) (topics st)\<rparr>);
              (st', doomed) = fan_out (options r) topic update stamped
          in (Inr (), fold disconnect doomed (r\<lparr>state := st'\<rparr>)))"

text \<open>The nodes sharing one backplane, by number; a dropped registry is \<open>None\<close>.\<close>

type_synonym ('h, 'f) nodes = "nat \<Rightarrow> ('h, 'f) inner option"

definition node_upgrade :: "('h, 'f) nodes \<Rightarrow> nat \<Rightarrow> bool" where
  "node_upgrade w n \<longleftrightarrow> w n \<noteq> None"

definition node_deliver :: "'f frame_api \<Rightarrow> (nat, ('h, 'f) nodes) sink_deliver" where
  "node_deliver api n topic order payload w =
     (case w n of
        None \<Rightarrow> (Inr (), w)
      | Some r \<Rightarrow> let (result, r') = deliver api topic order payload r in (result, w(n \<mapsto> r')))"

definition publish ::
  "'f frame_api \<Rightarrow> nat \<Rightarrow> topic \<Rightarrow> bytes \<Rightarrow> nat local_state \<Rightarrow> ('h, 'f) nodes \<Rightarrow>
   (publish_error + unit) \<times> nat local_state \<times> ('h, 'f) nodes" where
  "publish api n topic payload bp w =
     (case w n of
        None \<Rightarrow> (Inl PublishDraining, bp, w)
      | Some r \<Rightarrow>
          if draining r then (Inl PublishDraining, bp, w)
          else let (result, bp', w') = local_publish node_upgrade (node_deliver api) topic payload bp w
               in (map_err publish_error_from result, bp', w'))"

definition publish_frame ::
  "'f frame_api \<Rightarrow> nat \<Rightarrow> topic \<Rightarrow> 'f \<Rightarrow> nat local_state \<Rightarrow> ('h, 'f) nodes \<Rightarrow>
   (publish_error + unit) \<times> nat local_state \<times> ('h, 'f) nodes" where
  "publish_frame api n topic inner_frame bp w =
     (case frame_to_der api inner_frame of
        Inl cause \<Rightarrow> (Inl (PublishBuild cause), bp, w)
      | Inr payload \<Rightarrow> publish api n topic payload bp w)"

text \<open>
  \<^verbatim>\<open>TopicRegistry::new\<close> in full: the node exists before its weak sink is attached to the backplane of
  its options.
\<close>

definition join_node ::
  "nat \<Rightarrow> registry_options \<Rightarrow> nat local_state \<Rightarrow> ('h, 'f) nodes \<Rightarrow> nat local_state \<times> ('h, 'f) nodes" where
  "join_node n opts bp w = (let w' = w(n \<mapsto> registry_new opts) in (attach node_upgrade w' n bp, w'))"

section \<open>Quiesce\<close>

definition quiesce_snapshot :: "('h, 'f) inner \<Rightarrow> (topic \<times> subscriber_id list) list" where
  "quiesce_snapshot r = map (\<lambda>(topic, entry). (topic, members entry)) (topics (state r))"

fun quiesce_reserve ::
  "'f frame_api \<Rightarrow> (topic \<Rightarrow> 'b \<Rightarrow> u64 \<times> 'b) \<Rightarrow> (topic \<times> subscriber_id list) list \<Rightarrow> 'b \<Rightarrow>
   (tightbeam_error + (topic \<times> u64 \<times> subscriber_id list \<times> 'f) list) \<times> 'b" where
  "quiesce_reserve api reserve [] bp = (Inr [], bp)"
| "quiesce_reserve api reserve ((topic, ids) # rest) bp =
     (let (order, bp') = reserve topic bp
      in case end_frame api topic order of
           Inl cause \<Rightarrow> (Inl cause, bp')
         | Inr end \<Rightarrow>
             let (result, bp'') = quiesce_reserve api reserve rest bp'
             in (and_then result (\<lambda>ends. Inr ((topic, order, ids, end) # ends)), bp''))"

fun finish_members ::
  "'f \<Rightarrow> subscriber_id list \<Rightarrow> (subscriber_id \<times> 'f subscriber) list \<times> nat \<Rightarrow>
   (subscriber_id \<times> 'f subscriber) list \<times> nat" where
  "finish_members end [] acc = acc"
| "finish_members end (id' # ids) (subs, signaled) =
     (case map_of subs id' of
        None \<Rightarrow> finish_members end ids (subs, signaled)
      | Some subscriber \<Rightarrow>
          finish_members end ids (AList.update id' (finish end subscriber) subs, Suc signaled))"

fun quiesce_finish ::
  "(topic \<times> u64 \<times> subscriber_id list \<times> 'f) list \<Rightarrow> ('h, 'f) state \<times> nat \<Rightarrow> ('h, 'f) state \<times> nat" where
  "quiesce_finish [] acc = acc"
| "quiesce_finish ((topic, order, ids, end) # ends) (st, signaled) =
     (let stamped =
            (case map_of (topics st) topic of
               None \<Rightarrow> st
             | Some entry \<Rightarrow> st\<lparr>topics := AList.update topic (entry\<lparr>last_order := order\<rparr>) (topics st)\<rparr>);
          (subs, signaled') = finish_members end ids (subscribers stamped, signaled)
      in quiesce_finish ends (stamped\<lparr>subscribers := subs\<rparr>, signaled'))"

definition quiesce ::
  "'f frame_api \<Rightarrow> (topic \<Rightarrow> 'b \<Rightarrow> u64 \<times> 'b) \<Rightarrow> 'b \<Rightarrow> ('h, 'f) inner \<Rightarrow>
   (publish_error + nat) \<times> 'b \<times> ('h, 'f) inner" where
  "quiesce api reserve bp r =
     (if draining r then (Inr 0, bp, r)
      else
        let r' = r\<lparr>draining := True\<rparr>;
            (reserved, bp') = quiesce_reserve api reserve (quiesce_snapshot r') bp
        in case reserved of
             Inl cause \<Rightarrow> (Inl (PublishBuild cause), bp', r')
           | Inr ends \<Rightarrow>
               let (st, signaled) = quiesce_finish ends (state r', 0)
               in (Inr signaled, bp', r'\<lparr>state := st\<rparr>))"

section \<open>Queries\<close>

definition is_draining :: "('h, 'f) inner \<Rightarrow> bool" where
  "is_draining r \<longleftrightarrow> draining r"

definition dropped_count :: "subscriber_id \<Rightarrow> ('h, 'f) inner \<Rightarrow> u64 option" where
  "dropped_count id' r = map_option dropped (map_of (subscribers (state r)) id')"

definition subscriber_count :: "topic \<Rightarrow> ('h, 'f) inner \<Rightarrow> nat" where
  "subscriber_count topic r =
     (case map_of (topics (state r)) topic of None \<Rightarrow> 0 | Some entry \<Rightarrow> length (members entry))"

text \<open>The condition \<^verbatim>\<open>flushed\<close> waits for: no live subscriber holds an update.\<close>

definition is_flushed :: "('h, 'f) inner \<Rightarrow> bool" where
  "is_flushed r \<longleftrightarrow>
     list_all (\<lambda>(id', s). closed s \<or> \<not> pending s) (subscribers (state r))"

end
