(* ===== verification/Registry_Invariant.thy ===== *)
theory Registry_Invariant
  imports Registry
begin

text \<open>
  The registry's consistency invariant and what every operation keeps of it: the topic map, the
  connection map and the subscriber map describe one and the same set of subscriptions. The
  abstract registry is that set of (connection, topic) pairs, and every operation is the
  corresponding set operation on it.
\<close>

section \<open>The invariant\<close>

text \<open>The topic map against the subscriber map.\<close>

definition topics_inv :: "('h, 'f) state \<Rightarrow> bool" where
  "topics_inv st \<longleftrightarrow>
     distinct_keys (topics st) \<and> distinct_keys (subscribers st) \<and>
     (\<forall>t e. map_of (topics st) t = Some e \<longrightarrow> distinct (members e) \<and> members e \<noteq> []) \<and>
     (\<forall>t i. (\<exists>e. map_of (topics st) t = Some e \<and> i \<in> set (members e)) \<longleftrightarrow>
            (\<exists>s. map_of (subscribers st) i = Some s \<and> sub_topic s = t))"

text \<open>The connection map against the subscriber map.\<close>

definition connections_inv :: "nat \<Rightarrow> ('h, 'f) state \<Rightarrow> bool" where
  "connections_inv cap st \<longleftrightarrow>
     distinct_keys (connections st) \<and>
     (\<forall>c cs. map_of (connections st) c = Some cs \<longrightarrow>
        distinct_keys (conn_topics cs) \<and> length (conn_topics cs) \<le> cap) \<and>
     (\<forall>c t i. (\<exists>cs. map_of (connections st) c = Some cs \<and> map_of (conn_topics cs) t = Some i) \<longleftrightarrow>
              (\<exists>s. map_of (subscribers st) i = Some s \<and> sub_topic s = t \<and> sub_connection s = c))"

definition ids_inv :: "('h, 'f) inner \<Rightarrow> bool" where
  "ids_inv r \<longleftrightarrow>
     (\<forall>c \<in> dom (map_of (connections (state r))). c < ConnectionId (next_connection r)) \<and>
     (\<forall>i \<in> dom (map_of (subscribers (state r))). i < SubscriberId (next_subscriber r))"

definition registry_inv :: "('h, 'f) inner \<Rightarrow> bool" where
  "registry_inv r \<longleftrightarrow>
     topics_inv (state r) \<and>
     connections_inv (max_subscriptions_per_connection (options r)) (state r) \<and> ids_inv r"

lemmas inv_defs = registry_inv_def topics_inv_def connections_inv_def ids_inv_def

text \<open>The abstract registry.\<close>

definition subscriptions :: "('h, 'f) inner \<Rightarrow> (connection_id \<times> topic) set" where
  "subscriptions r =
     {(c, t). \<exists>cs i. map_of (connections (state r)) c = Some cs \<and> map_of (conn_topics cs) t = Some i}"

definition connected :: "('h, 'f) inner \<Rightarrow> connection_id set" where
  "connected r = dom (map_of (connections (state r)))"

section \<open>Removing a subscriber\<close>

lemma remove_subscriber_keeps [simp]:
  "connections (remove_subscriber i st) = connections st"
  by (simp add: remove_subscriber_def Let_def split: option.split)

lemma remove_subscriber_subscribers [simp]:
  "map_of (subscribers (remove_subscriber i st)) j =
     (if j = i then None else map_of (subscribers st) j)"
  by (auto simp: remove_subscriber_def Let_def split: option.split)

lemma remove_subscriber_topics:
  "map_of (topics (remove_subscriber i st)) t =
     (case map_of (subscribers st) i of
        None \<Rightarrow> map_of (topics st) t
      | Some s \<Rightarrow>
          if t \<noteq> sub_topic s then map_of (topics st) t
          else (case map_of (topics st) t of
                  None \<Rightarrow> None
                | Some e \<Rightarrow> if removeAll i (members e) = [] then None
                            else Some (e\<lparr>members := removeAll i (members e)\<rparr>)))"
  by (auto simp: remove_subscriber_def Let_def split: option.split)

lemma remove_subscriber_distinct:
  "distinct_keys (topics st) \<Longrightarrow> distinct_keys (topics (remove_subscriber i st))"
  "distinct_keys (subscribers st) \<Longrightarrow> distinct_keys (subscribers (remove_subscriber i st))"
  by (auto simp: remove_subscriber_def Let_def split: option.split)

lemma topics_inv_remove:
  assumes "topics_inv st"
  shows "topics_inv (remove_subscriber i st)"
proof (cases "map_of (subscribers st) i")
  case None
  then show ?thesis using assms by (simp add: remove_subscriber_def)
next
  case (Some s)
  let ?st = "remove_subscriber i st"
  have link: "\<And>t j. (\<exists>e. map_of (topics st) t = Some e \<and> j \<in> set (members e)) \<longleftrightarrow>
            (\<exists>s. map_of (subscribers st) j = Some s \<and> sub_topic s = t)"
    and keys: "distinct_keys (topics st)" "distinct_keys (subscribers st)"
    and entries: "\<And>t e. map_of (topics st) t = Some e \<Longrightarrow> distinct (members e) \<and> members e \<noteq> []"
    using assms by (auto simp: topics_inv_def)
  have "distinct (members e) \<and> members e \<noteq> []" if "map_of (topics ?st) t = Some e" for t e
    using that entries [of t]
    by (auto simp: remove_subscriber_topics Some distinct_removeAll split: option.splits if_splits)
  moreover have "(\<exists>e. map_of (topics ?st) t = Some e \<and> j \<in> set (members e)) \<longleftrightarrow>
            (\<exists>s. map_of (subscribers ?st) j = Some s \<and> sub_topic s = t)" for t j
  proof (cases "t = sub_topic s")
    case True
    obtain e where e: "map_of (topics st) t = Some e" "i \<in> set (members e)"
      using link [of t i] Some True by auto
    have "(\<exists>e. map_of (topics ?st) t = Some e \<and> j \<in> set (members e)) \<longleftrightarrow>
        j \<in> set (removeAll i (members e))"
      using e True by (auto simp: remove_subscriber_topics Some)
    also have "\<dots> \<longleftrightarrow> (\<exists>s. map_of (subscribers ?st) j = Some s \<and> sub_topic s = t)"
      using link [of t j] e by auto
    finally show ?thesis .
  next
    case False
    then show ?thesis using link [of t j] Some by (auto simp: remove_subscriber_topics)
  qed
  ultimately show ?thesis
    using keys by (simp add: topics_inv_def remove_subscriber_distinct)
qed

lemma fold_remove_keeps [simp]: "connections (fold remove_subscriber is st) = connections st"
  by (induction "is" arbitrary: st) auto

lemma fold_remove_subscribers [simp]:
  "map_of (subscribers (fold remove_subscriber is st)) j =
     (if j \<in> set is then None else map_of (subscribers st) j)"
  by (induction "is" arbitrary: st) auto

lemma topics_inv_fold_remove: "topics_inv st \<Longrightarrow> topics_inv (fold remove_subscriber is st)"
  by (induction "is" arbitrary: st) (auto intro: topics_inv_remove)

lemma topics_inv_connections [simp]: "topics_inv (st\<lparr>connections := cs\<rparr>) \<longleftrightarrow> topics_inv st"
  by (simp add: topics_inv_def)

section \<open>Each operation keeps the invariant\<close>

lemma registry_inv_new: "registry_inv (registry_new opts)"
  by (simp add: registry_new_def state_default_def inv_defs)

lemma less_ConnectionId: "ConnectionId a < ConnectionId b \<longleftrightarrow> a < b"
  by (simp add: less_connection_id_def)

lemma less_SubscriberId: "SubscriberId a < SubscriberId b \<longleftrightarrow> a < b"
  by (simp add: less_subscriber_id_def)

lemma connection_below_next:
  "n \<noteq> - 1 \<Longrightarrow> c < ConnectionId (n + 1) \<longleftrightarrow> c < ConnectionId n \<or> c = ConnectionId n"
  by (cases c) (auto simp: less_ConnectionId less_word_plus_one order_le_less)

lemma subscriber_below_next:
  "n \<noteq> - 1 \<Longrightarrow> i < SubscriberId (n + 1) \<longleftrightarrow> i < SubscriberId n \<or> i = SubscriberId n"
  by (cases i) (auto simp: less_SubscriberId less_word_plus_one order_le_less)

lemma registry_inv_admit:
  assumes inv: "registry_inv r" and next': "next_connection r \<noteq> - 1"
  shows "registry_inv (snd (admit_connection h ident r))"
proof -
  let ?c = "ConnectionId (next_connection r)"
  have fresh: "map_of (connections (state r)) ?c = None"
    using inv by (fastforce simp: registry_inv_def ids_inv_def dom_def)
  have no_sub: "\<nexists>s i. map_of (subscribers (state r)) i = Some s \<and> sub_connection s = ?c"
    using inv fresh unfolding registry_inv_def connections_inv_def by (metis option.distinct(1))
  show ?thesis
    using inv fresh no_sub next'
    by (auto simp: admit_connection_def Let_def registry_inv_def connections_inv_def ids_inv_def
        connection_below_next dom_def)
qed

lemma registry_inv_unregister:
  assumes inv: "registry_inv r"
  shows "registry_inv (snd (unregister c t r))"
proof (cases "\<exists>cs i. map_of (connections (state r)) c = Some cs \<and> map_of (conn_topics cs) t = Some i")
  case False
  then have "snd (unregister c t r) = r"
    by (auto simp: unregister_def split: option.splits)
  then show ?thesis using inv by simp
next
  case True
  then obtain cs i where cs: "map_of (connections (state r)) c = Some cs"
    and i: "map_of (conn_topics cs) t = Some i" by blast
  have link: "\<And>c' t' j. (\<exists>cs. map_of (connections (state r)) c' = Some cs \<and> map_of (conn_topics cs) t' = Some j) \<longleftrightarrow>
      (\<exists>s. map_of (subscribers (state r)) j = Some s \<and> sub_topic s = t' \<and> sub_connection s = c')"
    using inv by (auto simp: registry_inv_def connections_inv_def)
  let ?left = "cs\<lparr>conn_topics := AList.delete t (conn_topics cs)\<rparr>"
  let ?conns = "AList.update c ?left (connections (state r))"
  let ?st = "remove_subscriber i ((state r)\<lparr>connections := ?conns\<rparr>)"
  have *: "snd (unregister c t r) = r\<lparr>state := ?st\<rparr>"
    by (simp add: unregister_def cs i Let_def)
  have "(\<exists>cs. map_of ?conns c' = Some cs \<and> map_of (conn_topics cs) t' = Some j) \<longleftrightarrow>
      (j \<noteq> i \<and> (\<exists>s. map_of (subscribers (state r)) j = Some s \<and> sub_topic s = t' \<and> sub_connection s = c'))"
    for c' t' j
    using link [of c' t' j] link [of c t i] cs i by auto
  moreover have "length (AList.delete t (conn_topics cs)) \<le> length (conn_topics cs)"
    by (rule length_delete_le')
  ultimately show ?thesis
    using inv cs unfolding *
    by (auto simp: registry_inv_def connections_inv_def ids_inv_def dom_def topics_inv_remove
        split: if_splits intro: le_trans)
qed

lemma registry_inv_drop_connection:
  assumes inv: "registry_inv r"
  shows "registry_inv (drop_connection c r)"
proof (cases "map_of (connections (state r)) c")
  case None
  then show ?thesis using inv by (simp add: drop_connection_def)
next
  case (Some cs)
  have link: "\<And>c' t' j. (\<exists>cs. map_of (connections (state r)) c' = Some cs \<and> map_of (conn_topics cs) t' = Some j) \<longleftrightarrow>
      (\<exists>s. map_of (subscribers (state r)) j = Some s \<and> sub_topic s = t' \<and> sub_connection s = c')"
    and keys: "distinct_keys (conn_topics cs)"
    using inv Some by (auto simp: registry_inv_def connections_inv_def)
  have held: "j \<in> snd ` set (conn_topics cs) \<longleftrightarrow>
      (\<exists>s. map_of (subscribers (state r)) j = Some s \<and> sub_connection s = c)" for j
    using link [of c _ j] Some keys by (force simp: map_of_in_set image_iff)
  have "topics_inv (state r)" using inv by (simp add: registry_inv_def)
  then show ?thesis
    using inv Some held link
    by (auto simp: registry_inv_def connections_inv_def ids_inv_def drop_connection_def dom_def
        topics_inv_fold_remove)
qed

lemma add_member_simps [simp]:
  "distinct_keys ts \<Longrightarrow> distinct_keys (add_member t i ts)"
  "map_of (add_member t i ts) u =
     (if u = t then
        (let e = (case map_of ts t of None \<Rightarrow> topic_state_default | Some e \<Rightarrow> e)
         in Some (e\<lparr>members := List.insert i (members e)\<rparr>))
      else map_of ts u)"
  by (simp_all add: add_member_def Let_def)

text \<open>The one branch of \<^verbatim>\<open>register\<close> that changes the registry.\<close>

definition registered :: "connection_id \<Rightarrow> topic \<Rightarrow> 'h connection_state \<Rightarrow> ('h, 'f) inner \<Rightarrow> ('h, 'f) inner" where
  "registered c t cs r =
     (let i = SubscriberId (next_subscriber r); st = state r
      in r\<lparr>next_subscriber := next_subscriber r + 1,
           state := st\<lparr>subscribers := AList.update i (subscriber_new t c) (subscribers st),
                       topics := add_member t i (topics st),
                       connections := AList.update c
                         (cs\<lparr>conn_topics := AList.update t i (conn_topics cs)\<rparr>) (connections st)\<rparr>,
           spawned := spawned r @ [DrainTask i (handle cs)]\<rparr>)"

lemma register_cases:
  obtains (draining) "draining r" "register c t r = (Inl RegisterDraining, r)"
  | (unknown) "\<not> draining r" "map_of (connections (state r)) c = None"
      "register c t r = (Inl UnknownConnection, r)"
  | (existing) cs i where "\<not> draining r" "map_of (connections (state r)) c = Some cs"
      "map_of (conn_topics cs) t = Some i" "register c t r = (Inr i, r)"
  | (limit) cs where "\<not> draining r" "map_of (connections (state r)) c = Some cs"
      "map_of (conn_topics cs) t = None"
      "max_subscriptions_per_connection (options r) \<le> length (conn_topics cs)"
      "register c t r = (Inl LimitReached, r)"
  | (new) cs where "\<not> draining r" "map_of (connections (state r)) c = Some cs"
      "map_of (conn_topics cs) t = None"
      "length (conn_topics cs) < max_subscriptions_per_connection (options r)"
      "register c t r = (Inr (SubscriberId (next_subscriber r)), registered c t cs r)"
proof (cases "draining r")
  case False
  show thesis
  proof (cases "map_of (connections (state r)) c")
    case (Some cs)
    show thesis
    proof (cases "map_of (conn_topics cs) t")
      case None
      with False Some show thesis
        by (cases "length (conn_topics cs) < max_subscriptions_per_connection (options r)")
           (auto simp: register_def registered_def Let_def intro: limit new)
    qed (use False Some existing in \<open>simp add: register_def\<close>)
  qed (use False unknown in \<open>simp add: register_def\<close>)
qed (use that(1) in \<open>simp add: register_def\<close>)

lemma topics_inv_insert:
  assumes inv: "topics_inv st" and fresh: "map_of (subscribers st) i = None"
  shows "topics_inv (st\<lparr>subscribers := AList.update i s (subscribers st),
                        topics := add_member (sub_topic s) i (topics st)\<rparr>)"
proof -
  have link: "\<And>t j. (\<exists>e. map_of (topics st) t = Some e \<and> j \<in> set (members e)) \<longleftrightarrow>
            (\<exists>s. map_of (subscribers st) j = Some s \<and> sub_topic s = t)"
    using inv by (auto simp: topics_inv_def)
  let ?ts = "add_member (sub_topic s) i (topics st)"
  have "(\<exists>e. map_of ?ts t = Some e \<and> j \<in> set (members e)) \<longleftrightarrow>
      (t = sub_topic s \<and> j = i) \<or> (\<exists>e. map_of (topics st) t = Some e \<and> j \<in> set (members e))" for t j
    by (auto simp: Let_def topic_state_default_def split: option.splits)
  moreover have "\<exists>s. map_of (subscribers st) j = Some s \<Longrightarrow> j \<noteq> i" for j using fresh by auto
  ultimately show ?thesis
    using inv link fresh
    by (auto simp: topics_inv_def Let_def topic_state_default_def List.insert_def split: option.splits)
qed

lemma registry_inv_register:
  assumes inv: "registry_inv r" and next': "next_subscriber r \<noteq> - 1"
  shows "registry_inv (snd (register c t r))"
proof (cases rule: register_cases [of r c t])
  case (new cs)
  let ?i = "SubscriberId (next_subscriber r)"
  have fresh: "map_of (subscribers (state r)) ?i = None"
    using inv by (fastforce simp: registry_inv_def ids_inv_def dom_def)
  have link: "\<And>c' t' j. (\<exists>cs. map_of (connections (state r)) c' = Some cs \<and> map_of (conn_topics cs) t' = Some j) \<longleftrightarrow>
      (\<exists>s. map_of (subscribers (state r)) j = Some s \<and> sub_topic s = t' \<and> sub_connection s = c')"
    and topics: "topics_inv (state r)"
    using inv by (auto simp: registry_inv_def connections_inv_def)
  let ?conns = "AList.update c (cs\<lparr>conn_topics := AList.update t ?i (conn_topics cs)\<rparr>) (connections (state r))"
  let ?subs = "AList.update ?i (subscriber_new t c) (subscribers (state r))"
  have "(\<exists>cs. map_of ?conns c' = Some cs \<and> map_of (conn_topics cs) t' = Some j) \<longleftrightarrow>
      (\<exists>s. map_of ?subs j = Some s \<and> sub_topic s = t' \<and> sub_connection s = c')" for c' t' j
    using link [of c' t' j] link [of c' t' ?i] new(2,3) fresh by (auto simp: subscriber_new_def)
  moreover have "topics_inv ((state r)\<lparr>subscribers := ?subs, topics := add_member t ?i (topics (state r))\<rparr>)"
    using topics_inv_insert [OF topics fresh, of "subscriber_new t c"] by (simp add: subscriber_new_def)
  ultimately have "connections_inv (max_subscriptions_per_connection (options r)) (state (registered c t cs r))"
    and "topics_inv (state (registered c t cs r))"
    using inv new(2-4)
    by (auto simp: registered_def Let_def registry_inv_def connections_inv_def topics_inv_def length_update_new)
  moreover have "ids_inv (registered c t cs r)"
    using inv new(2) next' by (auto simp: registered_def Let_def registry_inv_def ids_inv_def dom_def subscriber_below_next)
  ultimately show ?thesis
    unfolding new(5) by (simp add: registry_inv_def) (simp add: registered_def Let_def)
qed (use inv in simp_all)

section \<open>Changing lanes only\<close>

text \<open>\<open>same_lanes\<close>: two subscriber maps that differ in lanes, counters and flags only.\<close>

definition sub_key :: "'f subscriber \<Rightarrow> topic \<times> connection_id" where
  "sub_key s = (sub_topic s, sub_connection s)"

definition same_lanes :: "(subscriber_id \<times> 'f subscriber) list \<Rightarrow> (subscriber_id \<times> 'f subscriber) list \<Rightarrow> bool" where
  "same_lanes subs subs' \<longleftrightarrow>
     (distinct_keys subs \<longrightarrow> distinct_keys subs') \<and>
     (\<forall>i. map_option sub_key (map_of subs' i) = map_option sub_key (map_of subs i))"

lemma same_lanes_refl [simp]: "same_lanes subs subs"
  by (simp add: same_lanes_def)

lemma same_lanes_trans: "same_lanes a b \<Longrightarrow> same_lanes b c \<Longrightarrow> same_lanes a c"
  by (simp add: same_lanes_def)

lemma same_lanes_update:
  "map_of subs i = Some s \<Longrightarrow> sub_key s' = sub_key s \<Longrightarrow> same_lanes subs (AList.update i s' subs)"
  by (simp add: same_lanes_def)

lemma same_lanes_ex:
  assumes "same_lanes subs subs'"
  shows "(\<exists>s. map_of subs' i = Some s \<and> sub_topic s = t) \<longleftrightarrow> (\<exists>s. map_of subs i = Some s \<and> sub_topic s = t)"
    and "(\<exists>s. map_of subs' i = Some s \<and> sub_topic s = t \<and> sub_connection s = c) \<longleftrightarrow>
         (\<exists>s. map_of subs i = Some s \<and> sub_topic s = t \<and> sub_connection s = c)"
    and "dom (map_of subs') = dom (map_of subs)"
proof -
  have "map_option sub_key (map_of subs' i) = map_option sub_key (map_of subs i)" for i
    using assms by (simp add: same_lanes_def)
  then have *: "map_of subs' i = None \<longleftrightarrow> map_of subs i = None"
    "map_of subs i = Some s \<Longrightarrow> map_of subs' i = Some s' \<Longrightarrow> sub_key s' = sub_key s" for i s s'
    by (metis option.map_disc_iff, metis option.inject option.simps(9))
  show "(\<exists>s. map_of subs' i = Some s \<and> sub_topic s = t) \<longleftrightarrow> (\<exists>s. map_of subs i = Some s \<and> sub_topic s = t)"
    using * [of i] by (fastforce simp: sub_key_def)
  show "(\<exists>s. map_of subs' i = Some s \<and> sub_topic s = t \<and> sub_connection s = c) \<longleftrightarrow>
         (\<exists>s. map_of subs i = Some s \<and> sub_topic s = t \<and> sub_connection s = c)"
    using * [of i] by (fastforce simp: sub_key_def)
  show "dom (map_of subs') = dom (map_of subs)" using *(1) by (auto simp: dom_def)
qed

lemma registry_inv_same_lanes:
  assumes inv: "registry_inv r" and lanes: "same_lanes (subscribers (state r)) subs'"
  shows "registry_inv (r\<lparr>state := (state r)\<lparr>subscribers := subs'\<rparr>\<rparr>)"
proof -
  have "distinct_keys subs'"
    using inv lanes by (simp add: registry_inv_def topics_inv_def same_lanes_def)
  then show ?thesis
    using inv by (simp add: inv_defs same_lanes_ex [OF lanes])
qed

lemma registry_inv_stamp:
  assumes "registry_inv r" and "map_of (topics (state r)) t = Some e"
  shows "registry_inv (r\<lparr>state := (state r)\<lparr>topics := AList.update t (e\<lparr>last_order := n\<rparr>) (topics (state r))\<rparr>\<rparr>)"
proof -
  have "(\<exists>e'. map_of (AList.update t (e\<lparr>last_order := n\<rparr>) (topics (state r))) u = Some e' \<and> i \<in> set (members e')) \<longleftrightarrow>
      (\<exists>e'. map_of (topics (state r)) u = Some e' \<and> i \<in> set (members e'))" for u i
    using assms(2) by auto
  then show ?thesis using assms by (simp add: inv_defs)
qed

lemma registry_inv_spawned [simp]: "registry_inv (r\<lparr>spawned := q\<rparr>) \<longleftrightarrow> registry_inv r"
  by (simp add: inv_defs)

lemma registry_inv_draining [simp]: "registry_inv (r\<lparr>draining := q\<rparr>) \<longleftrightarrow> registry_inv r"
  by (simp add: inv_defs)

lemma registry_inv_disconnect: "registry_inv r \<Longrightarrow> registry_inv (disconnect c r)"
  by (simp add: disconnect_def Let_def registry_inv_drop_connection split: option.split)

lemma registry_inv_fold_disconnect: "registry_inv r \<Longrightarrow> registry_inv (fold disconnect cs r)"
  by (induction cs arbitrary: r) (auto intro: registry_inv_disconnect)

section \<open>Fan-out\<close>

lemma fan_out_members_lookup:
  assumes "fan_out_members opts update ids subs doomed = (subs', doomed')" and "distinct ids"
  shows "map_of subs' j =
      (if j \<in> set ids
       then map_option (\<lambda>s. snd (push (queue_capacity opts) (delivery opts) update s)) (map_of subs j)
       else map_of subs j)"
    and "set doomed' = set doomed \<union>
      {sub_connection s | i s. i \<in> set ids \<and> map_of subs i = Some s \<and>
         fst (push (queue_capacity opts) (delivery opts) update s) = Disconnect}"
  using assms
proof (induction ids arbitrary: subs doomed)
  case (Cons i ids)
  {
    case 1
    show ?case
    proof (cases "map_of subs i")
      case None
      with 1 Cons.IH(1) show ?thesis by auto
    next
      case (Some s)
      with 1 Cons.IH(1) show ?thesis by (fastforce simp: Let_def split: prod.splits)
    qed
  next
    case 2
    show ?case
    proof (cases "map_of subs i")
      case None
      with 2 Cons.IH(2) show ?thesis by auto
    next
      case (Some s)
      obtain o' p where p: "push (queue_capacity opts) (delivery opts) update s = (o', p)" by fastforce
      let ?doomed = "if o' = Disconnect then doomed @ [sub_connection s] else doomed"
      have run: "fan_out_members opts update ids (AList.update i p subs) ?doomed = (subs', doomed')"
        using 2 Some p by simp
      have "i \<notin> set ids" and "distinct ids" using 2 by auto
      then have ids: "j \<in> set ids \<Longrightarrow> map_of (AList.update i p subs) j = map_of subs j" for j by auto
      show ?thesis
        using Cons.IH(2) [OF run \<open>distinct ids\<close>] Some p ids by (auto split: if_splits) (fastforce+)
    qed
  }
qed auto

lemma fan_out_members_same_lanes:
  "fan_out_members opts update ids subs doomed = (subs', doomed') \<Longrightarrow> same_lanes subs subs'"
proof (induction ids arbitrary: subs doomed)
  case (Cons i ids)
  show ?case
  proof (cases "map_of subs i")
    case (Some s)
    let ?p = "snd (push (queue_capacity opts) (delivery opts) update s)"
    have "same_lanes subs (AList.update i ?p subs)"
      using Some by (rule same_lanes_update) (simp add: sub_key_def)
    moreover have "same_lanes (AList.update i ?p subs) subs'"
      using Cons Some by (auto simp: Let_def split: prod.splits)
    ultimately show ?thesis by (rule same_lanes_trans)
  qed (use Cons in auto)
qed simp

lemma registry_inv_deliver:
  assumes inv: "registry_inv r"
  shows "registry_inv (snd (deliver api t n p r))"
proof (cases "draining r \<or> (\<exists>e. update_frame api t n p = Inl e)")
  case True
  then show ?thesis using inv by (auto simp: deliver_def)
next
  case False
  then obtain u where u: "update_frame api t n p = Inr u" by (cases "update_frame api t n p") auto
  show ?thesis
  proof (cases "map_of (topics (state r)) t")
    case None
    then show ?thesis using inv False u by (simp add: deliver_def fan_out_def)
  next
    case (Some e)
    let ?r = "r\<lparr>state := (state r)\<lparr>topics := AList.update t (e\<lparr>last_order := max (last_order e) n\<rparr>) (topics (state r))\<rparr>\<rparr>"
    obtain subs' doomed where f: "fan_out_members (options r) u (members e) (subscribers (state r)) [] = (subs', doomed)"
      by fastforce
    have "registry_inv (?r\<lparr>state := (state ?r)\<lparr>subscribers := subs'\<rparr>\<rparr>)"
      using registry_inv_stamp [OF inv Some] fan_out_members_same_lanes [OF f]
      by (intro registry_inv_same_lanes) simp_all
    then show ?thesis
      using False u Some f by (simp add: deliver_def fan_out_def Let_def registry_inv_fold_disconnect)
  qed
qed

section \<open>Quiesce\<close>

text \<open>The nested loops of the last phase as one loop over (subscriber, end frame) pairs.\<close>

fun finish_pairs ::
  "(subscriber_id \<times> 'f) list \<Rightarrow> (subscriber_id \<times> 'f subscriber) list \<times> nat \<Rightarrow>
   (subscriber_id \<times> 'f subscriber) list \<times> nat" where
  "finish_pairs [] acc = acc"
| "finish_pairs ((i, end) # ps) (subs, n) =
     (case map_of subs i of
        None \<Rightarrow> finish_pairs ps (subs, n)
      | Some s \<Rightarrow> finish_pairs ps (AList.update i (finish end s) subs, Suc n))"

definition end_pairs :: "(topic \<times> u64 \<times> subscriber_id list \<times> 'f) list \<Rightarrow> (subscriber_id \<times> 'f) list" where
  "end_pairs ends = concat (map (\<lambda>(t, n, ids, end). map (\<lambda>i. (i, end)) ids) ends)"

lemma finish_members_pairs: "finish_members end ids acc = finish_pairs (map (\<lambda>i. (i, end)) ids) acc"
proof (induction ids arbitrary: acc)
  case (Cons i ids)
  then show ?case by (cases acc) (auto split: option.split)
qed simp

lemma finish_pairs_append: "finish_pairs (ps @ qs) acc = finish_pairs qs (finish_pairs ps acc)"
proof (induction ps arbitrary: acc)
  case (Cons p ps)
  then show ?case by (cases p; cases acc) (auto split: option.split)
qed simp

lemma quiesce_finish_pairs:
  "quiesce_finish ends (st, n) = (st', n') \<Longrightarrow>
     (subscribers st', n') = finish_pairs (end_pairs ends) (subscribers st, n)"
proof (induction ends arbitrary: st n)
  case Nil
  then show ?case by (simp add: end_pairs_def)
next
  case (Cons e ends)
  obtain t k ids fin where e: "e = (t, k, ids, fin)" by (metis prod_cases4)
  obtain subs m where f: "finish_members fin ids (subscribers st, n) = (subs, m)" by fastforce
  define stamped where "stamped = (case map_of (topics st) t of None \<Rightarrow> st
     | Some entry \<Rightarrow> st\<lparr>topics := AList.update t (entry\<lparr>last_order := k\<rparr>) (topics st)\<rparr>)"
  have "subscribers stamped = subscribers st" by (simp add: stamped_def split: option.split)
  with Cons.prems f have "quiesce_finish ends (stamped\<lparr>subscribers := subs\<rparr>, m) = (st', n')"
    by (simp add: e Let_def flip: stamped_def)
  from Cons.IH [OF this] show ?case
    using f by (simp add: e end_pairs_def finish_pairs_append finish_members_pairs)
qed

lemma finish_pairs_run:
  assumes "finish_pairs ps (subs, n) = (subs', n')" and "distinct (map fst ps)"
  shows "(\<forall>i. map_of subs' i =
      (case map_of ps i of None \<Rightarrow> map_of subs i
       | Some end \<Rightarrow> map_option (finish end) (map_of subs i))) \<and>
    n' = n + length (filter (\<lambda>i. map_of subs i \<noteq> None) (map fst ps))"
  using assms
proof (induction ps arbitrary: subs n)
  case (Cons p ps)
  obtain j fin where p: "p = (j, fin)" by fastforce
  have fresh: "j \<notin> fst ` set ps" "distinct (map fst ps)" using Cons.prems(2) p by auto
  then have none: "map_of ps j = None" by (simp add: map_of_eq_None_iff)
  have same: "filter (\<lambda>i. map_of (AList.update j s subs) i \<noteq> None) (map fst ps) =
      filter (\<lambda>i. map_of subs i \<noteq> None) (map fst ps)" for s
    using fresh(1) by (intro filter_cong) auto
  show ?case
  proof (cases "map_of subs j")
    case None
    with Cons.prems(1) have "finish_pairs ps (subs, n) = (subs', n')" by (simp add: p)
    from Cons.IH [OF this fresh(2)] None none show ?thesis by (auto simp: p split: option.splits)
  next
    case (Some s)
    with Cons.prems(1) have "finish_pairs ps (AList.update j (finish fin s) subs, Suc n) = (subs', n')"
      by (simp add: p)
    note run = Cons.IH [OF this fresh(2), unfolded same]
    have "n' = n + length (filter (\<lambda>i. map_of subs i \<noteq> None) (map fst (p # ps)))"
      using run Some by (simp add: p)
    moreover have "map_of subs' i = (case map_of (p # ps) i of None \<Rightarrow> map_of subs i
        | Some end \<Rightarrow> map_option (finish end) (map_of subs i))" for i
      using conjunct1 [OF run, THEN spec, of i] Some none by (auto simp: p split: option.splits)
    ultimately show ?thesis by blast
  qed
qed simp

lemma finish_pairs_same_lanes: "finish_pairs ps (subs, n) = (subs', n') \<Longrightarrow> same_lanes subs subs'"
proof (induction ps arbitrary: subs n)
  case (Cons p ps)
  obtain j fin where p: "p = (j, fin)" by fastforce
  show ?case
  proof (cases "map_of subs j")
    case (Some s)
    have "same_lanes subs (AList.update j (finish fin s) subs)"
      using Some by (rule same_lanes_update) (simp add: sub_key_def)
    moreover have "same_lanes (AList.update j (finish fin s) subs) subs'"
      using Cons Some by (auto simp: p)
    ultimately show ?thesis by (rule same_lanes_trans)
  qed (use Cons p in auto)
qed simp

lemma registry_inv_quiesce_finish:
  "registry_inv (r\<lparr>state := st\<rparr>) \<Longrightarrow> registry_inv (r\<lparr>state := fst (quiesce_finish ends (st, n))\<rparr>)"
proof (induction ends arbitrary: st n)
  case (Cons e ends)
  obtain t k ids fin where e: "e = (t, k, ids, fin)" by (metis prod_cases4)
  define stamped where "stamped = (case map_of (topics st) t of None \<Rightarrow> st
     | Some entry \<Rightarrow> st\<lparr>topics := AList.update t (entry\<lparr>last_order := k\<rparr>) (topics st)\<rparr>)"
  obtain subs m where f: "finish_members fin ids (subscribers stamped, n) = (subs, m)" by fastforce
  have "registry_inv (r\<lparr>state := stamped\<rparr>)"
    using Cons.prems registry_inv_stamp [of "r\<lparr>state := st\<rparr>" t]
    by (auto simp: stamped_def split: option.split)
  moreover have "same_lanes (subscribers stamped) subs"
    using f by (auto simp: finish_members_pairs intro: finish_pairs_same_lanes)
  ultimately have "registry_inv (r\<lparr>state := stamped\<lparr>subscribers := subs\<rparr>\<rparr>)"
    using registry_inv_same_lanes [of "r\<lparr>state := stamped\<rparr>" subs] by simp
  from Cons.IH [OF this] show ?case
    using f by (simp add: e Let_def flip: stamped_def)
qed simp

lemma registry_inv_quiesce:
  assumes "registry_inv r"
  shows "registry_inv (snd (snd (quiesce api reserve bp r)))"
proof -
  have "registry_inv ((r\<lparr>draining := True\<rparr>)\<lparr>state := state r\<rparr>)" using assms by (simp add: inv_defs)
  from registry_inv_quiesce_finish [OF this] assms show ?thesis
    by (auto simp: quiesce_def Let_def split: prod.split sum.split) (metis fst_conv)
qed

lemma quiesce_reserve_ends:
  "quiesce_reserve api reserve snap bp = (Inr ends, bp') \<Longrightarrow>
     map (\<lambda>(t, n, ids, end). (t, ids)) ends = snap \<and>
     (\<forall>(t, n, ids, end) \<in> set ends. end_frame api t n = Inr end)"
proof (induction snap arbitrary: bp ends)
  case (Cons p snap)
  obtain t ids where p: "p = (t, ids)" by fastforce
  show ?case
    using Cons.prems Cons.IH
    by (auto simp: p Let_def result_simps split: prod.splits sum.splits) fastforce+
qed simp

end
