(* ===== verification/Drain.thy ===== *)
theory Drain
  imports Subscriber "HOL-Library.Sublist"
begin

text \<open>
  One subscriber's delivery task (\<^verbatim>\<open>drain\<close>, \<^verbatim>\<open>deliver\<close> and \<^verbatim>\<open>TopicRegistry::flushed\<close> of
  \<^verbatim>\<open>pubsub/tightbeam-pubsub/src/registry.rs\<close>) as a state machine that interleaves with the
  registry's \<^verbatim>\<open>push\<close>, \<^verbatim>\<open>finish\<close> and \<^verbatim>\<open>close\<close>. A program point stands before every access to
  shared data and at every \<^verbatim>\<open>await\<close>; one step runs to the next point. The upstream mux answers
  an emit or a slot wait with any value of its result type.
\<close>

section \<open>The task\<close>

text \<open>The upstream errors, as far as \<^verbatim>\<open>deliver\<close> tells them apart.\<close>

datatype transport_failure = StreamsExhausted | OtherFailure string
datatype transport_error = OperationFailed transport_failure | OtherError string

type_synonym answer = "transport_error + unit"

datatype 'f drain_pc =
    AtTop
  | AtPop
  | AtFinishedCheck
  | Parked
  | Emitting 'f
  | AwaitSlot 'f
  | Settling 'f bool
  | Stopped

datatype flush_pc = FlushIdle | FlushCheck | FlushWait | FlushDone

text \<open>
  The lane, the task's and the flush waiter's program points, the permit of the registry's
  flush signal, and the history: every frame offered to the lane, and every frame the peer took
  or that was given up with the link.
\<close>

record 'f drain_state =
  sub :: "'f subscriber"
  drain_pc :: "'f drain_pc"
  flush_permit :: bool
  flush_pc :: flush_pc
  offered :: "'f list"
  settled :: "'f list"
  sent :: "'f list"
  lost :: "'f list"

definition drain_start :: "'f subscriber \<Rightarrow> 'f drain_state" where
  "drain_start s =
     \<lparr>sub = s, drain_pc = AtTop, flush_permit = False, flush_pc = FlushIdle,
      offered = [], settled = [], sent = [], lost = []\<rparr>"

text \<open>The two blocks that hold the lane lock.\<close>

definition drain_pop :: "'f subscriber \<Rightarrow> 'f option \<times> 'f subscriber" where
  "drain_pop s =
     (let (popped, l) = pop_front (lane s)
      in (popped, s\<lparr>lane := l\<lparr>in_flight := popped \<noteq> None\<rparr>\<rparr>))"

definition drain_settle :: "'f subscriber \<Rightarrow> bool \<times> 'f subscriber" where
  "drain_settle s = (queue (lane s) = [], s\<lparr>lane := (lane s)\<lparr>in_flight := False\<rparr>\<rparr>)"

text \<open>
  \<^verbatim>\<open>deliver\<close>: what an answer to the emit, and one to the slot wait, does next. \<^verbatim>\<open>Settling u True\<close>
  is its \<^verbatim>\<open>Ok(())\<close>, \<^verbatim>\<open>Settling u False\<close> its \<^verbatim>\<open>Err(LinkLost)\<close>.
\<close>

fun emit_answer :: "answer \<Rightarrow> 'f \<Rightarrow> 'f drain_state \<Rightarrow> 'f drain_state" where
  "emit_answer (Inr _) u d = d\<lparr>drain_pc := Settling u True, sent := sent d @ [u]\<rparr>"
| "emit_answer (Inl (OperationFailed StreamsExhausted)) u d = d\<lparr>drain_pc := AwaitSlot u\<rparr>"
| "emit_answer (Inl (OperationFailed (OtherFailure _))) u d =
     d\<lparr>drain_pc := Settling u True, sub := (sub d)\<lparr>dropped := dropped (sub d) + 1\<rparr>\<rparr>"
| "emit_answer (Inl (OtherError _)) u d = d\<lparr>drain_pc := Settling u False, lost := lost d @ [u]\<rparr>"

fun slot_answer :: "answer \<Rightarrow> 'f \<Rightarrow> 'f drain_state \<Rightarrow> 'f drain_state" where
  "slot_answer (Inr _) u d = d\<lparr>drain_pc := Emitting u\<rparr>"
| "slot_answer (Inl _) u d = d\<lparr>drain_pc := Settling u False, lost := lost d @ [u]\<rparr>"

definition settle :: "'f \<Rightarrow> bool \<Rightarrow> 'f drain_state \<Rightarrow> 'f drain_state" where
  "settle u ok d =
     (let (idle, s) = drain_settle (sub d);
          d' = d\<lparr>sub := s, settled := settled d @ [u], flush_permit := flush_permit d \<or> idle\<rparr>
      in if ok then d'\<lparr>drain_pc := AtTop\<rparr>
         else d'\<lparr>drain_pc := Stopped, sub := close s\<rparr>)"

fun drain_step :: "answer \<Rightarrow> 'f drain_state \<Rightarrow> 'f drain_state" where
  "drain_step a d =
     (case drain_pc d of
        AtTop \<Rightarrow> d\<lparr>drain_pc := (if closed (sub d) then Stopped else AtPop)\<rparr>
      | AtPop \<Rightarrow>
          (let (popped, s) = drain_pop (sub d)
           in d\<lparr>sub := s, drain_pc := (case popped of None \<Rightarrow> AtFinishedCheck | Some u \<Rightarrow> Emitting u)\<rparr>)
      | AtFinishedCheck \<Rightarrow> d\<lparr>drain_pc := (if finished (sub d) then Stopped else Parked)\<rparr>
      | Parked \<Rightarrow>
          (if notified (sub d)
           then d\<lparr>sub := (sub d)\<lparr>notified := False\<rparr>, drain_pc := AtTop\<rparr> else d)
      | Emitting u \<Rightarrow> emit_answer a u d
      | AwaitSlot u \<Rightarrow> slot_answer a u d
      | Settling u ok \<Rightarrow> settle u ok d
      | Stopped \<Rightarrow> d)"

declare drain_step.simps [simp del]

text \<open>The waiter's loop.\<close>

definition flush_step :: "'f drain_state \<Rightarrow> 'f drain_state" where
  "flush_step d =
     (case flush_pc d of
        FlushCheck \<Rightarrow>
          d\<lparr>flush_pc := (if \<not> closed (sub d) \<and> pending (sub d) then FlushWait else FlushDone)\<rparr>
      | FlushWait \<Rightarrow>
          (if flush_permit d then d\<lparr>flush_permit := False, flush_pc := FlushCheck\<rparr> else d)
      | FlushIdle \<Rightarrow> d\<lparr>flush_pc := FlushCheck\<rparr>
      | FlushDone \<Rightarrow> d)"

text \<open>
  The interleavings. A frame is offered, and the completion is queued, only before the
  completion: \<^verbatim>\<open>draining\<close> refuses later publishes and a second quiesce.
\<close>

inductive lane_step :: "nat \<Rightarrow> delivery_policy \<Rightarrow> 'f drain_state \<Rightarrow> 'f drain_state \<Rightarrow> bool"
  for capacity on_full where
  drain: "lane_step capacity on_full d (drain_step a d)"
| flush: "lane_step capacity on_full d (flush_step d)"
| offer: "\<not> finished (sub d) \<Longrightarrow>
    lane_step capacity on_full d
      (d\<lparr>sub := snd (push capacity on_full u (sub d)), offered := offered d @ [u]\<rparr>)"
| finish: "\<not> finished (sub d) \<Longrightarrow>
    lane_step capacity on_full d (d\<lparr>sub := finish e (sub d), offered := offered d @ [e]\<rparr>)"
| close: "lane_step capacity on_full d (d\<lparr>sub := close (sub d)\<rparr>)"

inductive_cases lane_stepE: "lane_step capacity on_full d d'"

definition lane_reachable :: "nat \<Rightarrow> delivery_policy \<Rightarrow> 'f drain_state \<Rightarrow> bool" where
  "lane_reachable capacity on_full d \<longleftrightarrow>
     (\<exists>topic connection. (lane_step capacity on_full)\<^sup>*\<^sup>* (drain_start (subscriber_new topic connection)) d)"

section \<open>Invariants of every interleaving\<close>

fun held :: "'f drain_pc \<Rightarrow> 'f list" where
  "held (Emitting u) = [u]"
| "held (AwaitSlot u) = [u]"
| "held (Settling u _) = [u]"
| "held _ = []"

text \<open>The task's own view of its lane.\<close>

definition task_inv :: "'f drain_state \<Rightarrow> bool" where
  "task_inv d \<longleftrightarrow>
     (in_flight (lane (sub d)) \<longleftrightarrow> held (drain_pc d) \<noteq> []) \<and>
     (\<not> notified (sub d) \<longrightarrow>
        (drain_pc d \<in> {AtPop, AtFinishedCheck, Parked} \<longrightarrow> \<not> closed (sub d)) \<and>
        (drain_pc d \<in> {AtFinishedCheck, Parked} \<longrightarrow> queue (lane (sub d)) = []) \<and>
        (drain_pc d = Parked \<longrightarrow> \<not> finished (sub d)))"

text \<open>Frames leave in the order they were offered.\<close>

definition fifo_inv :: "'f drain_state \<Rightarrow> bool" where
  "fifo_inv d \<longleftrightarrow>
     subseq (settled d @ held (drain_pc d) @ queue (lane (sub d))) (offered d)"

text \<open>The waiter is woken as long as the subscription lives.\<close>

definition flush_inv :: "'f drain_state \<Rightarrow> bool" where
  "flush_inv d \<longleftrightarrow>
     (flush_pc d = FlushWait \<and> \<not> flush_permit d \<and> \<not> closed (sub d) \<longrightarrow> pending (sub d))"

lemma emit_answer_cases:
  obtains (sent) "emit_answer a u d = d\<lparr>drain_pc := Settling u True, sent := sent d @ [u]\<rparr>"
  | (slot) "emit_answer a u d = d\<lparr>drain_pc := AwaitSlot u\<rparr>"
  | (refused) "emit_answer a u d =
      d\<lparr>drain_pc := Settling u True, sub := (sub d)\<lparr>dropped := dropped (sub d) + 1\<rparr>\<rparr>"
  | (lost) "emit_answer a u d = d\<lparr>drain_pc := Settling u False, lost := lost d @ [u]\<rparr>"
  by (cases "(a, u, d)" rule: emit_answer.cases) auto

lemma slot_answer_cases:
  obtains (slot) "slot_answer a u d = d\<lparr>drain_pc := Emitting u\<rparr>"
  | (lost) "slot_answer a u d = d\<lparr>drain_pc := Settling u False, lost := lost d @ [u]\<rparr>"
  by (cases a) auto

lemma push_queue:
  "queue (lane (snd (push c p u s))) =
     (if length (queue (lane s)) < c then queue (lane s) @ [u]
      else case p (sub_topic s) (dropped s) of
        VDropOldest \<Rightarrow> tl (queue (lane s)) @ [u] | VDropNew \<Rightarrow> queue (lane s) | VDisconnect \<Rightarrow> queue (lane s))"
  by (simp add: push_def split: delivery_verdict.split)

lemma push_notifies: "notified (snd (push c p u s)) \<or> snd (push c p u s) = s
    \<or> (\<exists>n. snd (push c p u s) = s\<lparr>dropped := n\<rparr>)"
  by (auto simp: push_def split: delivery_verdict.split)

lemmas drain_defs = drain_step.simps drain_pop_def drain_settle_def settle_def pop_front_def Let_def

lemma task_inv_drain: "task_inv d \<Longrightarrow> task_inv (drain_step a d)"
proof (cases "drain_pc d")
  case (Emitting u)
  assume "task_inv d"
  with Emitting show ?thesis
    by (cases a u d rule: emit_answer_cases) (simp_all add: drain_step.simps task_inv_def)
next
  case (AwaitSlot u)
  assume "task_inv d"
  with AwaitSlot show ?thesis
    by (cases a u d rule: slot_answer_cases) (simp_all add: drain_step.simps task_inv_def)
qed (auto simp: drain_defs task_inv_def close_def split: list.split)

lemma task_inv_step:
  assumes "lane_step capacity on_full d d'" and inv: "task_inv d"
  shows "task_inv d'"
  using assms(1)
proof cases
  case drain
  then show ?thesis using inv by (simp add: task_inv_drain)
next
  case flush
  then show ?thesis using inv by (auto simp: flush_step_def task_inv_def split: flush_pc.split)
next
  case (offer u)
  then show ?thesis
    using inv push_notifies [of capacity on_full u "sub d"] by (auto simp: task_inv_def)
next
  case (finish e)
  then show ?thesis using inv by (auto simp: task_inv_def Subscriber.finish_def)
next
  case close
  then show ?thesis using inv by (auto simp: task_inv_def Subscriber.close_def)
qed

lemma fifo_inv_drain: "fifo_inv d \<Longrightarrow> fifo_inv (drain_step a d)"
proof (cases "drain_pc d")
  case (Emitting u)
  assume "fifo_inv d"
  with Emitting show ?thesis
    by (cases a u d rule: emit_answer_cases) (simp_all add: drain_step.simps fifo_inv_def)
next
  case (AwaitSlot u)
  assume "fifo_inv d"
  with AwaitSlot show ?thesis
    by (cases a u d rule: slot_answer_cases) (simp_all add: drain_step.simps fifo_inv_def)
qed (auto simp: drain_defs fifo_inv_def split: list.split)

lemma subseq_drop_mid: "subseq (xs @ ys) zs \<Longrightarrow> subseq (xs @ tl ys @ [u]) (zs @ [u])"
proof -
  assume "subseq (xs @ ys) zs"
  moreover have "subseq (xs @ tl ys) (xs @ ys)" by (cases ys) (auto simp: subseq_append_iff)
  ultimately have "subseq (xs @ tl ys) zs" by (metis subseq_order.trans)
  then show ?thesis by (simp flip: append_assoc)
qed

lemma fifo_inv_step:
  assumes "lane_step capacity on_full d d'" and inv: "fifo_inv d"
  shows "fifo_inv d'"
  using assms(1)
proof cases
  case drain
  then show ?thesis using inv by (simp add: fifo_inv_drain)
next
  case flush
  then show ?thesis using inv by (auto simp: flush_step_def fifo_inv_def split: flush_pc.split)
next
  case (offer u)
  have "subseq (settled d @ held (drain_pc d) @ queue (lane (sub d)) @ [u]) (offered d @ [u])"
    using inv by (simp add: fifo_inv_def flip: append_assoc)
  moreover have "subseq (settled d @ held (drain_pc d) @ tl (queue (lane (sub d))) @ [u]) (offered d @ [u])"
    using inv subseq_drop_mid [of "settled d @ held (drain_pc d)"] by (simp add: fifo_inv_def)
  moreover have "subseq (settled d @ held (drain_pc d) @ queue (lane (sub d))) (offered d @ [u])"
    using inv unfolding fifo_inv_def by (rule subseq_order.trans) (simp add: prefix_imp_subseq)
  ultimately show ?thesis
    using offer by (simp add: fifo_inv_def push_queue split: delivery_verdict.split)
next
  case (finish e)
  then show ?thesis using inv by (simp add: fifo_inv_def flip: append_assoc)
next
  case close
  then show ?thesis using inv by (simp add: fifo_inv_def)
qed

lemma flush_inv_step:
  assumes "lane_step capacity on_full d d'" and inv: "flush_inv d" and task: "task_inv d"
  shows "flush_inv d'"
  using assms(1)
proof cases
  case (drain a)
  show ?thesis
  proof (cases "drain_pc d")
    case (Emitting u)
    with drain inv show ?thesis
      by (cases a u d rule: emit_answer_cases) (simp_all add: drain_step.simps flush_inv_def pending_def)
  next
    case (AwaitSlot u)
    with drain inv show ?thesis
      by (cases a u d rule: slot_answer_cases) (simp_all add: drain_step.simps flush_inv_def pending_def)
  qed (use drain inv task in \<open>auto simp: drain_defs flush_inv_def task_inv_def pending_def split: list.split\<close>)
next
  case flush
  then show ?thesis using inv by (auto simp: flush_step_def flush_inv_def split: flush_pc.split)
next
  case (offer u)
  then show ?thesis using inv
    by (auto simp: flush_inv_def pending_def push_queue split: delivery_verdict.split)
next
  case (finish e)
  then show ?thesis using inv by (auto simp: flush_inv_def pending_def)
next
  case close
  then show ?thesis using inv by (auto simp: flush_inv_def)
qed

text \<open>
  Where the offered frames are: sent, given up with the link, in flight, queued, or counted as
  dropped. The counter is a wrapping 64-bit word, so the equation is one of words.
\<close>

fun unanswered :: "'f drain_pc \<Rightarrow> nat" where
  "unanswered (Emitting u) = 1"
| "unanswered (AwaitSlot u) = 1"
| "unanswered _ = 0"

definition account_inv :: "'f drain_state \<Rightarrow> bool" where
  "account_inv d \<longleftrightarrow>
     dropped (sub d) + word_of_nat (length (sent d) + length (lost d) + unanswered (drain_pc d) +
       length (queue (lane (sub d)))) = word_of_nat (length (offered d))"

lemma push_account:
  assumes "0 < capacity" and "\<forall>t n. on_full t n \<noteq> VDisconnect"
  shows "dropped (snd (push capacity on_full u s)) + word_of_nat (length (queue (lane (snd (push capacity on_full u s))))) =
         dropped s + word_of_nat (length (queue (lane s))) + 1"
proof (cases "length (queue (lane s)) < capacity")
  case False
  with assms(1) obtain v vs where "queue (lane s) = v # vs" by (cases "queue (lane s)") auto
  with False assms(2) [rule_format, of "sub_topic s" "dropped s"] show ?thesis
    by (auto simp: push_def split: delivery_verdict.split)
qed (simp add: push_def)

lemma account_inv_drain: "account_inv d \<Longrightarrow> account_inv (drain_step a d)"
proof (cases "drain_pc d")
  case (Emitting u)
  assume "account_inv d"
  with Emitting show ?thesis
    by (cases a u d rule: emit_answer_cases) (simp_all add: drain_step.simps account_inv_def algebra_simps)
next
  case (AwaitSlot u)
  assume "account_inv d"
  with AwaitSlot show ?thesis
    by (cases a u d rule: slot_answer_cases) (simp_all add: drain_step.simps account_inv_def algebra_simps)
qed (auto simp: drain_defs account_inv_def algebra_simps split: list.split)

lemma account_inv_step:
  assumes "lane_step capacity on_full d d'" and inv: "account_inv d"
    and pos: "0 < capacity" and policy: "\<forall>t n. on_full t n \<noteq> VDisconnect"
  shows "account_inv d'"
  using assms(1)
proof cases
  case drain
  then show ?thesis using inv by (simp add: account_inv_drain)
next
  case flush
  then show ?thesis using inv by (auto simp: flush_step_def account_inv_def split: flush_pc.split)
next
  case (offer u)
  then show ?thesis
    using inv push_account [OF pos policy, of u "sub d"] by (simp add: account_inv_def algebra_simps)
next
  case (finish e)
  then show ?thesis using inv by (simp add: account_inv_def algebra_simps)
next
  case close
  then show ?thesis using inv by (simp add: account_inv_def)
qed

lemma lane_reachable_inv:
  assumes "lane_reachable capacity on_full d"
  shows "task_inv d \<and> fifo_inv d \<and> flush_inv d"
proof -
  obtain topic connection
    where "(lane_step capacity on_full)\<^sup>*\<^sup>* (drain_start (subscriber_new topic connection)) d"
    using assms by (auto simp: lane_reachable_def)
  then show ?thesis
  proof (induction rule: rtranclp_induct)
    case base
    show ?case
      by (simp add: task_inv_def fifo_inv_def flush_inv_def drain_start_def subscriber_new_def)
  next
    case (step d d')
    then show ?case using task_inv_step fifo_inv_step flush_inv_step by blast
  qed
qed

section \<open>Running the task alone\<close>

text \<open>The task with every emit accepted and nobody else running, for a number of steps.\<close>

fun drain_run :: "answer list \<Rightarrow> 'f drain_state \<Rightarrow> 'f drain_state" where
  "drain_run [] d = d"
| "drain_run (a # as) d = drain_run as (drain_step a d)"

lemma drain_run_append: "drain_run (as @ bs) d = drain_run bs (drain_run as d)"
  by (induction as arbitrary: d) auto

lemma drain_run_one:
  assumes "drain_pc d = AtTop" and "\<not> closed (sub d)" and "queue (lane (sub d)) = u # us"
  shows "drain_run (replicate 4 (Inr ())) d =
    d\<lparr>sub := (sub d)\<lparr>lane := \<lparr>queue = us, in_flight = False\<rparr>\<rparr>,
      settled := settled d @ [u], sent := sent d @ [u], flush_permit := flush_permit d \<or> us = []\<rparr>"
  using assms by (simp add: numeral_eq_Suc drain_defs)

lemma drain_run_all:
  assumes "drain_pc d = AtTop" and "\<not> closed (sub d)" and "\<not> in_flight (lane (sub d))"
  shows "drain_run (replicate (4 * length (queue (lane (sub d)))) (Inr ())) d =
    d\<lparr>sub := (sub d)\<lparr>lane := \<lparr>queue = [], in_flight = False\<rparr>\<rparr>,
      settled := settled d @ queue (lane (sub d)), sent := sent d @ queue (lane (sub d)),
      flush_permit := flush_permit d \<or> queue (lane (sub d)) \<noteq> []\<rparr>"
  using assms
proof (induction "queue (lane (sub d))" arbitrary: d)
  case Nil
  then show ?case by simp
next
  case (Cons u us)
  let ?d = "drain_run (replicate 4 (Inr ())) d"
  have one: "?d = d\<lparr>sub := (sub d)\<lparr>lane := \<lparr>queue = us, in_flight = False\<rparr>\<rparr>,
      settled := settled d @ [u], sent := sent d @ [u], flush_permit := flush_permit d \<or> us = []\<rparr>"
    using Cons.prems Cons.hyps(2) by (intro drain_run_one) simp_all
  have "drain_run (replicate (4 * length (queue (lane (sub d)))) (Inr ())) d =
      drain_run (replicate (4 * length us) (Inr ())) ?d"
    by (simp flip: Cons.hyps(2) drain_run_append replicate_add add: add.commute)
  also have "\<dots> = ?d\<lparr>sub := (sub ?d)\<lparr>lane := \<lparr>queue = [], in_flight = False\<rparr>\<rparr>,
      settled := settled ?d @ us, sent := sent ?d @ us,
      flush_permit := flush_permit ?d \<or> us \<noteq> []\<rparr>"
    using Cons.hyps(1) [of ?d] Cons.prems by (simp add: one)
  finally show ?case
    by (simp add: one flip: Cons.hyps(2))
qed

lemma drain_run_stops:
  assumes "drain_pc d = AtTop" and "\<not> closed (sub d)" and "queue (lane (sub d)) = []" and "finished (sub d)"
  shows "drain_run (replicate 3 (Inr ())) d =
    d\<lparr>sub := (sub d)\<lparr>lane := \<lparr>queue = [], in_flight = False\<rparr>\<rparr>, drain_pc := Stopped\<rparr>"
  using assms by (simp add: numeral_eq_Suc drain_defs)

section \<open>Properties\<close>

text \<open>
  C9. Per-subscriber order: in every interleaving of the delivery task with publishes, a
  completion and a close, under every delivery policy and every answer of the transport, the
  frames whose emit settled, then the one in flight, then the queued ones form a subsequence of
  the frames offered to the lane. No frame overtakes another or is delivered twice, and eviction
  never touches the frame in flight.
\<close>

theorem drain_preserves_order:
  assumes "lane_reachable capacity on_full d"
  shows "subseq (settled d @ held (drain_pc d) @ queue (lane (sub d))) (offered d) \<and>
         (in_flight (lane (sub d)) \<longleftrightarrow> held (drain_pc d) \<noteq> [])"
  using lane_reachable_inv [OF assms] by (simp add: fifo_inv_def task_inv_def)

text \<open>The runs of the closed examples.\<close>

abbreviation example_lane :: "nat drain_state" where
  "example_lane \<equiv> drain_start (subscriber_new (Topic ''prices'') (ConnectionId 1))"

lemmas example_defs =
  drain_start_def subscriber_new_def push_def push_back_def drain_defs flush_step_def
  Subscriber.finish_def Subscriber.close_def pending_def drop_oldest_on_full_def

lemma lane_reachable_start [simp]: "lane_reachable capacity on_full example_lane"
  by (auto simp: lane_reachable_def)

lemma lane_reachable_step:
  "lane_reachable capacity on_full d \<Longrightarrow> lane_step capacity on_full d d' \<Longrightarrow> lane_reachable capacity on_full d'"
  by (auto simp: lane_reachable_def intro: rtranclp.rtrancl_into_rtrancl)

lemma lane_reachable_drain:
  "lane_reachable capacity on_full d \<Longrightarrow> lane_reachable capacity on_full (drain_run as d)"
  by (induction as arbitrary: d) (auto intro: lane_reachable_step lane_step.drain)

text \<open>Three updates published to a lane of two, of which the task has taken one.\<close>

definition offer_frame :: "nat \<Rightarrow> 'f \<Rightarrow> 'f drain_state \<Rightarrow> 'f drain_state" where
  "offer_frame capacity u d =
     d\<lparr>sub := snd (push capacity drop_oldest_on_full u (sub d)), offered := offered d @ [u]\<rparr>"

definition busy_lane :: "nat drain_state" where
  "busy_lane = drain_run (replicate 2 (Inr ())) (fold (offer_frame 2) [1, 2, 3] example_lane)"

lemma lane_reachable_offers:
  "lane_reachable capacity drop_oldest_on_full d \<Longrightarrow> \<not> finished (sub d) \<Longrightarrow>
   lane_reachable capacity drop_oldest_on_full (fold (offer_frame capacity) us d)"
proof (induction us arbitrary: d)
  case (Cons u us)
  have "lane_reachable capacity drop_oldest_on_full (offer_frame capacity u d)"
    unfolding offer_frame_def by (rule lane_reachable_step [OF Cons.prems(1) lane_step.offer [OF Cons.prems(2)]])
  from Cons.IH [OF this] Cons.prems(2) show ?case by (simp add: offer_frame_def)
qed simp

lemma busy_lane_reachable: "lane_reachable 2 drop_oldest_on_full busy_lane"
  unfolding busy_lane_def
  by (intro lane_reachable_drain lane_reachable_offers lane_reachable_start)
     (simp add: drain_start_def subscriber_new_def)

theorem drain_preserves_order_witness:
  "offered busy_lane = [1, 2, 3] \<and>
   settled busy_lane @ held (drain_pc busy_lane) @ queue (lane (sub busy_lane)) = [2, 3] \<and>
   subseq (settled busy_lane @ held (drain_pc busy_lane) @ queue (lane (sub busy_lane))) (offered busy_lane)"
  using drain_preserves_order [OF busy_lane_reachable]
  by (simp add: busy_lane_def offer_frame_def numeral_eq_Suc example_defs)



text \<open>
  C11. No wake-up is lost: in every interleaving, a delivery task that is parked with no
  notification stored has nothing to do. Its queue is empty, and neither a close nor a completion
  is waiting for it.
\<close>

theorem parked_drain_has_nothing_to_do:
  assumes "lane_reachable capacity on_full d" and "drain_pc d = Parked" and "\<not> notified (sub d)"
  shows "queue (lane (sub d)) = [] \<and> \<not> in_flight (lane (sub d)) \<and>
         \<not> closed (sub d) \<and> \<not> finished (sub d)"
  using lane_reachable_inv [OF assms(1)] assms(2,3) by (simp add: task_inv_def)

theorem parked_drain_has_nothing_to_do_witness:
  "let d = drain_run (replicate 3 (Inr ())) example_lane
   in drain_pc d = Parked \<and> queue (lane (sub d)) = [] \<and> \<not> finished (sub d)"
proof -
  let ?d = "drain_run (replicate 3 (Inr ())) example_lane"
  have parked: "drain_pc ?d = Parked" "\<not> notified (sub ?d)"
    by (simp_all add: numeral_eq_Suc example_defs)
  have "lane_reachable 2 drop_oldest_on_full ?d" by (rule lane_reachable_drain) simp
  from parked_drain_has_nothing_to_do [OF this parked] parked show ?thesis unfolding Let_def by blast
qed

text \<open>
  C12. A completed lane drains: from the top of its loop, with the completion queued, a healthy
  link and no close, the task delivers every queued frame in order, the completion last, leaves
  the lane idle, signals the flush waiters and stops, within four steps per frame and three more.
\<close>

theorem drain_delivers_completion:
  assumes "drain_pc d = AtTop" and "\<not> in_flight (lane (sub d))"
    and "\<not> closed (sub d)" and "finished (sub d)" and "queue (lane (sub d)) \<noteq> []"
  shows "let d' = drain_run (replicate (4 * length (queue (lane (sub d))) + 3) (Inr ())) d
         in drain_pc d' = Stopped \<and> sent d' = sent d @ queue (lane (sub d)) \<and>
            \<not> pending (sub d') \<and> flush_permit d'"
  unfolding Let_def replicate_add drain_run_append
  using assms drain_run_all [OF assms(1,3,2)]
  by (subst (1 2 3 4) drain_run_stops) (simp_all add: pending_def)

theorem drain_delivers_completion_witness:
  "let d = (fold (offer_frame 2) [1, 2] example_lane);
       d' = d\<lparr>sub := Subscriber.finish 9 (sub d)\<rparr>
   in sent (drain_run (replicate 15 (Inr ())) d') = [1, 2, 9] \<and>
      drain_pc (drain_run (replicate 15 (Inr ())) d') = Stopped"
proof -
  let ?d = "(fold (offer_frame 2) [1, 2] example_lane)\<lparr>sub :=
      Subscriber.finish 9 (sub (fold (offer_frame 2) [1, 2] example_lane))\<rparr>"
  have "drain_pc ?d = AtTop" "\<not> in_flight (lane (sub ?d))" "\<not> closed (sub ?d)" "finished (sub ?d)"
    and queue: "queue (lane (sub ?d)) = [1, 2, 9]" "sent ?d = []"
    by (simp_all add: offer_frame_def example_defs)
  from drain_delivers_completion [OF this(1-4)] queue show ?thesis
    unfolding Let_def by simp
qed



text \<open>
  C14. The completion can be stranded: the task checks \<^verbatim>\<open>finished\<close> after it released the lane
  lock, so a completion queued between an empty pop and that check stops the task with the
  completion undelivered. From there every further step of the task or of a flush waiter leaves
  the subscriber pending and not closed: \<^verbatim>\<open>flushed\<close> never returns.
\<close>

definition stranded :: "'f drain_state \<Rightarrow> bool" where
  "stranded d \<longleftrightarrow>
     drain_pc d = Stopped \<and> finished (sub d) \<and> \<not> closed (sub d) \<and> queue (lane (sub d)) \<noteq> [] \<and>
     flush_pc d \<noteq> FlushDone"

lemma stranded_stays:
  "stranded d \<Longrightarrow> stranded (drain_step a d)" "stranded d \<Longrightarrow> stranded (flush_step d)"
  by (auto simp: stranded_def drain_step.simps flush_step_def pending_def split: flush_pc.split)

theorem drain_can_strand_completion:
  "\<exists>d :: nat drain_state. lane_reachable 32 drop_oldest_on_full d \<and> stranded d \<and> sent d = [] \<and>
     queue (lane (sub d)) = [9] \<and>
     {d'. (\<lambda>x y. (\<exists>a. y = drain_step a x) \<or> y = flush_step x)\<^sup>*\<^sup>* d d'} \<subseteq> {d'. stranded d'}"
proof -
  let ?empty = "drain_run (replicate 2 (Inr ())) example_lane"
  let ?ended = "?empty\<lparr>sub := Subscriber.finish 9 (sub ?empty), offered := offered ?empty @ [9]\<rparr>"
  let ?d = "drain_step (Inr ()) ?ended"
  have "\<not> finished (sub ?empty)" by (simp add: numeral_eq_Suc example_defs)
  then have "lane_reachable 32 drop_oldest_on_full ?ended"
    by (intro lane_reachable_step [OF _ lane_step.finish] lane_reachable_drain) simp_all
  then have reach: "lane_reachable 32 drop_oldest_on_full ?d"
    by (rule lane_reachable_step) (rule lane_step.drain)
  have d: "stranded ?d" "sent ?d = []" "queue (lane (sub ?d)) = [9]"
    by (simp_all add: numeral_eq_Suc example_defs stranded_def)
  have "stranded d'" if "(\<lambda>x y. (\<exists>a. y = drain_step a x) \<or> y = flush_step x)\<^sup>*\<^sup>* ?d d'" for d'
    using that by (induction rule: rtranclp_induct) (auto simp: d stranded_stays)
  with reach d show ?thesis by blast
qed

text \<open>
  C15. A lost link can hang the flush waiter: when the link fails while more updates are queued,
  the task closes its subscriber and stops without signalling, since its lane is not idle. A
  waiter that was already waiting is then owed a wake-up, its condition being met, that no step
  of the task or of the waiter ever produces.
\<close>

theorem lost_link_can_hang_flush:
  "\<exists>d :: nat drain_state. lane_reachable 2 drop_oldest_on_full d \<and>
     drain_pc d = Stopped \<and> closed (sub d) \<and> flush_pc d = FlushWait \<and>
     (\<forall>a. drain_step a d = d) \<and> flush_step d = d"
proof -
  let ?wait = "flush_step (flush_step busy_lane)"
  let ?d = "drain_run [Inl (OtherError ''closed''), Inr ()] ?wait"
  have "lane_reachable 2 drop_oldest_on_full ?wait"
    by (intro lane_reachable_step [OF _ lane_step.flush] busy_lane_reachable)
  then have "lane_reachable 2 drop_oldest_on_full ?d" by (rule lane_reachable_drain)
  moreover have "drain_pc ?d = Stopped" "closed (sub ?d)" "flush_pc ?d = FlushWait" "\<not> flush_permit ?d"
    by (simp_all add: busy_lane_def offer_frame_def numeral_eq_Suc example_defs)
  moreover from this have "drain_step a ?d = ?d" "flush_step ?d = ?d" for a
    by (simp_all only: drain_step.simps flush_step_def) simp_all
  ultimately show ?thesis by blast
qed

end
