(* ===== verification/Registry_Properties.thy ===== *)
theory Registry_Properties
  imports Registry_Invariant Drain
begin

text \<open>
  The registry's theorems: every reachable registry satisfies the invariant, the operations
  implement an abstract subscription book, fan-out reaches the topic's members and nobody else,
  quiesce completes every subscriber, and a dropped connection stays dropped.
\<close>

section \<open>Runs of one registry\<close>

text \<open>
  Every call a node's registry serves, the lane accesses of its delivery tasks included. The id
  counters are 64-bit: a run allocates fewer ids than that.
\<close>

inductive registry_step :: "'f frame_api \<Rightarrow> ('h, 'f) inner \<Rightarrow> ('h, 'f) inner \<Rightarrow> bool" for api where
  step_admit: "next_connection r \<noteq> - 1 \<Longrightarrow> registry_step api r (snd (admit_connection h ident r))"
| step_register: "next_subscriber r \<noteq> - 1 \<Longrightarrow> registry_step api r (snd (register c t r))"
| step_unregister: "registry_step api r (snd (unregister c t r))"
| step_drop: "registry_step api r (drop_connection c r)"
| step_disconnect: "registry_step api r (disconnect c r)"
| step_deliver: "registry_step api r (snd (deliver api t n p r))"
| step_quiesce: "registry_step api r (snd (snd (quiesce api reserve_order (bp :: nat local_state) r)))"
| step_lane: "map_of (subscribers (state r)) i = Some s \<Longrightarrow>
    s' \<in> {snd (drain_pop s), snd (drain_settle s), s\<lparr>dropped := dropped s + 1\<rparr>, s\<lparr>notified := False\<rparr>, close s} \<Longrightarrow>
    registry_step api r (r\<lparr>state := (state r)\<lparr>subscribers := AList.update i s' (subscribers (state r))\<rparr>\<rparr>)"

definition registry_reachable :: "'f frame_api \<Rightarrow> registry_options \<Rightarrow> ('h, 'f) inner \<Rightarrow> bool" where
  "registry_reachable api opts r \<longleftrightarrow> (registry_step api)\<^sup>*\<^sup>* (registry_new opts) r"

lemma drain_keeps_key [simp]:
  "sub_key (snd (drain_pop s)) = sub_key s" "sub_key (snd (drain_settle s)) = sub_key s"
  "sub_key (close s) = sub_key s"
  by (simp_all add: sub_key_def drain_pop_def drain_settle_def Let_def split: prod.split)

lemma registry_inv_step:
  assumes "registry_step api r r'" and inv: "registry_inv r"
  shows "registry_inv r'"
  using assms(1)
proof cases
  case (step_lane i s s')
  have "sub_key s' = sub_key s" using step_lane(3) by (auto simp: sub_key_def drain_pop_def drain_settle_def Let_def split: prod.split)
  with step_lane(1,2) show ?thesis
    using inv by (simp add: registry_inv_same_lanes same_lanes_update)
qed (use inv in \<open>simp_all add: registry_inv_admit registry_inv_register registry_inv_unregister
    registry_inv_drop_connection registry_inv_disconnect registry_inv_deliver registry_inv_quiesce\<close>)

text \<open>
  C1. The three maps of a registry always describe the same subscriptions: in every reachable
  registry, the topic members, the connections' topic maps and the subscribers agree entry by
  entry, no topic is kept without members, no connection holds more than its cap, and every id
  in use was allocated. \<^verbatim>\<open>registry_inv\<close> holds initially and every operation keeps it.
\<close>

theorem registry_maps_agree:
  assumes "registry_reachable api opts r"
  shows "registry_inv r"
  using assms unfolding registry_reachable_def
  by (induction rule: rtranclp_induct) (auto intro: registry_inv_new registry_inv_step)

text \<open>The registry of the closed examples: one connection with two subscriptions.\<close>

definition example_registry :: "(nat, bytes \<times> u64 \<times> bytes) inner" where
  "example_registry =
     snd (register (ConnectionId 1) (Topic ''chat'')
       (snd (register (ConnectionId 1) (Topic ''prices'')
         (snd (register_connection 7 (registry_new default_options))))))"

lemmas registry_eval =
  example_registry_def register_connection_def admit_connection_def registry_new_def state_default_def
  register_def add_member_def topic_state_default_def subscriber_new_def default_options_def
  DEFAULT_QUEUE_CAPACITY_def DEFAULT_MAX_SUBSCRIPTIONS_PER_CONNECTION_def Let_def

lemma example_registry_reachable: "registry_reachable plain_api default_options example_registry"
proof -
  let ?a = "snd (register_connection 7 (registry_new default_options)) :: (nat, bytes \<times> u64 \<times> bytes) inner"
  let ?b = "snd (register (ConnectionId 1) (Topic ''prices'') ?a)"
  have "registry_step plain_api (registry_new default_options) ?a"
    unfolding register_connection_def by (rule step_admit) (simp add: registry_new_def)
  moreover have "registry_step plain_api ?a ?b"
    by (rule step_register) (simp add: registry_eval)
  moreover have "registry_step plain_api ?b example_registry"
    unfolding example_registry_def by (rule step_register) (simp add: registry_eval)
  ultimately show ?thesis
    unfolding registry_reachable_def
    by (meson rtranclp.rtrancl_refl rtranclp.rtrancl_into_rtrancl)
qed

theorem registry_maps_agree_witness:
  "registry_inv example_registry \<and> subscriber_count (Topic ''prices'') example_registry = 1"
  using registry_maps_agree [OF example_registry_reachable]
  by (simp add: subscriber_count_def registry_eval)

section \<open>The subscription book\<close>

text \<open>
  What the registry promises its callers, without queues, tasks and ids: who is connected, who
  is subscribed to what, and whether the node has completed.
\<close>

record book =
  book_connections :: "connection_id set"
  book_subscriptions :: "(connection_id \<times> topic) set"
  book_draining :: bool

definition book_of :: "('h, 'f) inner \<Rightarrow> book" where
  "book_of r = \<lparr>book_connections = connected r, book_subscriptions = subscriptions r,
                book_draining = draining r\<rparr>"

definition book_subscribe :: "nat \<Rightarrow> connection_id \<Rightarrow> topic \<Rightarrow> book \<Rightarrow> register_error option \<times> book" where
  "book_subscribe cap c t b =
     (if book_draining b then (Some RegisterDraining, b)
      else if c \<notin> book_connections b then (Some UnknownConnection, b)
      else if (c, t) \<in> book_subscriptions b then (None, b)
      else if cap \<le> card {u. (c, u) \<in> book_subscriptions b} then (Some LimitReached, b)
      else (None, b\<lparr>book_subscriptions := insert (c, t) (book_subscriptions b)\<rparr>))"

definition book_unsubscribe :: "connection_id \<Rightarrow> topic \<Rightarrow> book \<Rightarrow> bool \<times> book" where
  "book_unsubscribe c t b =
     ((c, t) \<in> book_subscriptions b, b\<lparr>book_subscriptions := book_subscriptions b - {(c, t)}\<rparr>)"

definition book_forget :: "connection_id set \<Rightarrow> book \<Rightarrow> book" where
  "book_forget cs b =
     b\<lparr>book_connections := book_connections b - cs,
       book_subscriptions := {(c, t) \<in> book_subscriptions b. c \<notin> cs}\<rparr>"

definition register_failure :: "register_error + subscriber_id \<Rightarrow> register_error option" where
  "register_failure res = (case res of Inl e \<Rightarrow> Some e | Inr _ \<Rightarrow> None)"

lemma subscriptions_iff:
  "(c, t) \<in> subscriptions r \<longleftrightarrow>
     (\<exists>cs i. map_of (connections (state r)) c = Some cs \<and> map_of (conn_topics cs) t = Some i)"
  by (simp add: subscriptions_def)

lemma held_count:
  assumes "registry_inv r" and "map_of (connections (state r)) c = Some cs"
  shows "card {u. (c, u) \<in> subscriptions r} = length (conn_topics cs)"
proof -
  have keys: "distinct (map fst (conn_topics cs))"
    using assms by (simp add: inv_defs distinct_keys_def)
  have "{u. (c, u) \<in> subscriptions r} = dom (map_of (conn_topics cs))"
    using assms(2) by (auto simp: subscriptions_iff)
  then show ?thesis using distinct_card [OF keys] by (simp add: dom_map_of_conv_image_fst)
qed

lemma subscriptions_drop:
  "subscriptions (drop_connection c r) = {(d, t) \<in> subscriptions r. d \<noteq> c}"
  "connected (drop_connection c r) = connected r - {c}"
  by (auto simp: subscriptions_def connected_def drop_connection_def split: option.splits if_splits)

lemma drop_connection_keeps [simp]:
  "draining (drop_connection c r) = draining r" "options (drop_connection c r) = options r"
  "spawned (drop_connection c r) = spawned r"
  by (simp_all add: drop_connection_def split: option.split)

lemma register_book:
  assumes "registry_inv r"
  shows "(register_failure (fst (register c t r)), book_of (snd (register c t r))) =
         book_subscribe (max_subscriptions_per_connection (options r)) c t (book_of r)"
proof (cases rule: register_cases [of r c t])
  case (new cs)
  have "book_of (registered c t cs r) = (book_of r)\<lparr>book_subscriptions := insert (c, t) (subscriptions r)\<rparr>"
    using new(2) by (auto simp: book_of_def registered_def Let_def subscriptions_def connected_def
        split: if_splits)
  with new held_count [OF assms new(2)] show ?thesis
    by (auto simp: book_subscribe_def book_of_def register_failure_def subscriptions_iff connected_def)
next
  case (limit cs)
  with held_count [OF assms limit(2)] show ?thesis
    by (auto simp: book_subscribe_def book_of_def register_failure_def subscriptions_iff connected_def)
qed (auto simp: book_subscribe_def book_of_def register_failure_def subscriptions_iff connected_def)

lemma unregister_book:
  "(fst (unregister c t r), book_of (snd (unregister c t r))) = book_unsubscribe c t (book_of r)"
proof (cases "(c, t) \<in> subscriptions r")
  case True
  then obtain cs i where "map_of (connections (state r)) c = Some cs" "map_of (conn_topics cs) t = Some i"
    by (auto simp: subscriptions_iff)
  then show ?thesis
    by (auto simp: unregister_def Let_def book_unsubscribe_def book_of_def subscriptions_def connected_def
        split: if_splits)
next
  case False
  then have "unregister c t r = (False, r)"
    by (auto simp: unregister_def subscriptions_iff split: option.splits)
  with False show ?thesis by (simp add: book_unsubscribe_def book_of_def)
qed

lemma drop_book: "book_of (drop_connection c r) = book_forget {c} (book_of r)"
  by (auto simp: book_of_def book_forget_def subscriptions_drop)

text \<open>The contract the command plane builds on.\<close>

locale subscription_book =
  fixes inv :: "'r \<Rightarrow> bool" and book :: "'r \<Rightarrow> book" and cap :: "'r \<Rightarrow> nat"
    and subscribe :: "connection_id \<Rightarrow> topic \<Rightarrow> 'r \<Rightarrow> (register_error + subscriber_id) \<times> 'r"
    and unsubscribe :: "connection_id \<Rightarrow> topic \<Rightarrow> 'r \<Rightarrow> bool \<times> 'r"
    and forget :: "connection_id \<Rightarrow> 'r \<Rightarrow> 'r"
  assumes subscribe_book: "inv r \<Longrightarrow>
      (register_failure (fst (subscribe c t r)), book (snd (subscribe c t r))) = book_subscribe (cap r) c t (book r)"
    and unsubscribe_book: "(fst (unsubscribe c t r), book (snd (unsubscribe c t r))) = book_unsubscribe c t (book r)"
    and forget_book: "book (forget c r) = book_forget {c} (book r)"
    and unsubscribe_inv: "inv r \<Longrightarrow> inv (snd (unsubscribe c t r))"
    and forget_inv: "inv r \<Longrightarrow> inv (forget c r)"
begin

lemma subscribe_accepted:
  assumes "inv r" and "subscribe c t r = (Inr i, r')"
  shows "\<not> book_draining (book r) \<and> c \<in> book_connections (book r) \<and>
    book r' = (book r)\<lparr>book_subscriptions := insert (c, t) (book_subscriptions (book r))\<rparr>"
  using subscribe_book [OF assms(1), of c t] assms(2)
  by (auto simp: register_failure_def book_subscribe_def insert_absorb split: if_splits)

lemma subscribe_refused:
  assumes "inv r" and "subscribe c t r = (Inl e, r')"
  shows "book r' = book r \<and>
    (e = RegisterDraining \<longleftrightarrow> book_draining (book r)) \<and>
    (e = UnknownConnection \<longleftrightarrow> \<not> book_draining (book r) \<and> c \<notin> book_connections (book r))"
  using subscribe_book [OF assms(1), of c t] assms(2)
  by (auto simp: register_failure_def book_subscribe_def split: if_splits)

lemma unsubscribe_after_subscribe:
  assumes "inv r" and "subscribe c t r = (Inr i, r')"
  shows "fst (unsubscribe c t r') \<and>
    book (snd (unsubscribe c t r')) =
      (book r)\<lparr>book_subscriptions := book_subscriptions (book r) - {(c, t)}\<rparr>"
  using subscribe_accepted [OF assms] unsubscribe_book [of c t r']
  by (auto simp: book_unsubscribe_def)

lemma forgotten_stays_out:
  assumes "inv r"
  shows "fst (subscribe c t (forget c r)) =
    Inl (if book_draining (book r) then RegisterDraining else UnknownConnection) \<and>
    \<not> fst (unsubscribe c t (forget c r))"
proof -
  have b: "book (forget c r) = book_forget {c} (book r)" by (rule forget_book)
  have "register_failure (fst (subscribe c t (forget c r))) =
      Some (if book_draining (book r) then RegisterDraining else UnknownConnection)"
    using subscribe_book [OF forget_inv [OF assms, of c], of c t]
    by (auto simp: b book_subscribe_def book_forget_def split: if_splits)
  then show ?thesis
    using unsubscribe_book [of c t "forget c r"]
    by (cases "fst (subscribe c t (forget c r))")
       (simp_all add: register_failure_def b book_unsubscribe_def book_forget_def)
qed

end

interpretation reg: subscription_book registry_inv book_of "\<lambda>r. max_subscriptions_per_connection (options r)"
  register unregister drop_connection
  by unfold_locales
     (simp_all add: register_book unregister_book drop_book
       registry_inv_unregister registry_inv_drop_connection)

text \<open>
  C2. \<^verbatim>\<open>register\<close> implements the subscription book: on every path it answers the error the book
  answers, in the book's order of checks (draining, unknown connection, an existing subscription
  which is idempotent, the cap), and changes the set of subscriptions exactly as the book does.
\<close>

theorem register_refines_book:
  assumes "registry_inv r"
  shows "(register_failure (fst (register c t r)), book_of (snd (register c t r))) =
         book_subscribe (max_subscriptions_per_connection (options r)) c t (book_of r)"
  using assms by (rule reg.subscribe_book)

lemma example_registry_inv: "registry_inv example_registry"
  using example_registry_reachable registry_inv_new registry_inv_step unfolding registry_reachable_def
  by (metis (no_types, lifting) rtranclp_induct)

theorem register_refines_book_witness:
  "fst (register (ConnectionId 2) (Topic ''news'') example_registry) = Inl UnknownConnection \<and>
   register_failure (fst (register (ConnectionId 2) (Topic ''news'') example_registry)) =
     fst (book_subscribe (max_subscriptions_per_connection (options example_registry)) (ConnectionId 2)
            (Topic ''news'') (book_of example_registry))"
  using register_refines_book [OF example_registry_inv, of "ConnectionId 2" "Topic ''news''"]
  by (simp add: prod_eq_iff) (simp add: registry_eval)

text \<open>
  \<^verbatim>\<open>unregister\<close> answers whether the subscription existed and removes exactly that one.
\<close>

lemma unregister_refines_book:
  "(fst (unregister c t r), book_of (snd (unregister c t r))) = book_unsubscribe c t (book_of r)"
  by (rule reg.unsubscribe_book)

text \<open>
  A subscription that is accepted and then dropped leaves no trace: the unsubscribe reports
  that it existed, and the set of subscriptions is the one before without that pair.
\<close>

lemma unregister_undoes_register:
  assumes "registry_inv r" and "register c t r = (Inr i, r')"
  shows "fst (unregister c t r') \<and>
         subscriptions (snd (unregister c t r')) = subscriptions r - {(c, t)} \<and>
         connected (snd (unregister c t r')) = connected r"
  using reg.unsubscribe_after_subscribe [OF assms] by (simp add: book_of_def)

text \<open>
  A dropped connection is out: its subscriptions are gone from the registry and nobody
  else's, and neither a subscribe nor an unsubscribe under its id is accepted afterwards.
\<close>

lemma dropped_connection_is_out:
  assumes "registry_inv r"
  shows "subscriptions (drop_connection c r) = {(d, t) \<in> subscriptions r. d \<noteq> c} \<and>
         fst (register c t (drop_connection c r)) =
           Inl (if draining r then RegisterDraining else UnknownConnection) \<and>
         \<not> fst (unregister c t (drop_connection c r))"
  using reg.forgotten_stays_out [OF assms, of c t] by (simp add: subscriptions_drop book_of_def)

lemma member_iff_subscription:
  assumes "registry_inv r" and "map_of (topics (state r)) t = Some e"
  shows "bij_betw (\<lambda>c. the (map_of (conn_topics (the (map_of (connections (state r)) c))) t))
           {c. (c, t) \<in> subscriptions r} (set (members e))"
proof -
  have topics: "\<And>i. i \<in> set (members e) \<longleftrightarrow> (\<exists>s. map_of (subscribers (state r)) i = Some s \<and> sub_topic s = t)"
    using assms unfolding registry_inv_def topics_inv_def by (metis option.inject)
  have conns: "\<And>c i. (\<exists>cs. map_of (connections (state r)) c = Some cs \<and> map_of (conn_topics cs) t = Some i) \<longleftrightarrow>
      (\<exists>s. map_of (subscribers (state r)) i = Some s \<and> sub_topic s = t \<and> sub_connection s = c)"
    using assms(1) by (auto simp: registry_inv_def connections_inv_def)
  let ?id = "\<lambda>c. the (map_of (conn_topics (the (map_of (connections (state r)) c))) t)"
  have id_of: "(\<exists>s. map_of (subscribers (state r)) (?id c) = Some s \<and> sub_topic s = t \<and> sub_connection s = c)"
    if "(c, t) \<in> subscriptions r" for c
  proof -
    from that obtain cs i where "map_of (connections (state r)) c = Some cs" "map_of (conn_topics cs) t = Some i"
      by (auto simp: subscriptions_iff)
    then show ?thesis using conns [of c i] by auto
  qed
  have member: "\<exists>c. (c, t) \<in> subscriptions r \<and> i = ?id c" if "i \<in> set (members e)" for i
  proof -
    from that topics obtain s where "map_of (subscribers (state r)) i = Some s" "sub_topic s = t" by blast
    then obtain cs where "map_of (connections (state r)) (sub_connection s) = Some cs" "map_of (conn_topics cs) t = Some i"
      using conns [of "sub_connection s" i] by blast
    then show ?thesis by (intro exI [of _ "sub_connection s"]) (auto simp: subscriptions_iff)
  qed
  show ?thesis
    unfolding bij_betw_def
  proof
    show "inj_on ?id {c. (c, t) \<in> subscriptions r}"
      by (rule inj_onI) (metis id_of mem_Collect_eq option.inject)
    show "?id ` {c. (c, t) \<in> subscriptions r} = set (members e)"
      using id_of topics member by blast
  qed
qed

lemma no_subscription:
  assumes "registry_inv r" and "map_of (topics (state r)) t = None"
  shows "(c, t) \<notin> subscriptions r"
proof
  assume "(c, t) \<in> subscriptions r"
  then obtain cs i where "map_of (connections (state r)) c = Some cs" "map_of (conn_topics cs) t = Some i"
    by (auto simp: subscriptions_iff)
  then obtain s where "map_of (subscribers (state r)) i = Some s" "sub_topic s = t"
    using assms(1) unfolding registry_inv_def connections_inv_def by blast
  then obtain e where "map_of (topics (state r)) t = Some e"
    using assms(1) unfolding registry_inv_def topics_inv_def by blast
  with assms(2) show False by simp
qed

text \<open>
  \<^verbatim>\<open>subscriber_count\<close> is the number of connections subscribed to the topic.
\<close>

lemma subscriber_count_is_card:
  assumes "registry_inv r"
  shows "subscriber_count t r = card {c. (c, t) \<in> subscriptions r}"
proof (cases "map_of (topics (state r)) t")
  case None
  then have "{c. (c, t) \<in> subscriptions r} = {}"
    using no_subscription [OF assms] by blast
  with None show ?thesis by (simp add: subscriber_count_def)
next
  case (Some e)
  then have "distinct (members e)" using assms by (simp add: inv_defs)
  then show ?thesis
    using bij_betw_same_card [OF member_iff_subscription [OF assms Some]] Some
    by (simp add: subscriber_count_def distinct_card)
qed

end
