(* ===== verification/Registry_Delivery.thy ===== *)
theory Registry_Delivery
  imports Registry_Properties
begin

text \<open>
  What publishing and completing do to the subscribers of one registry: fan-out with the
  connections the policy votes off, quiesce, and what can still happen after it.
\<close>

section \<open>Fan-out\<close>

lemma drop_connection_subscribers:
  assumes "registry_inv r"
  shows "map_of (subscribers (state (drop_connection c r))) i =
    (case map_of (subscribers (state r)) i of None \<Rightarrow> None
     | Some s \<Rightarrow> if sub_connection s = c then None else Some s)"
proof -
  have link: "\<And>t i. (\<exists>cs. map_of (connections (state r)) c = Some cs \<and> map_of (conn_topics cs) t = Some i) \<longleftrightarrow>
      (\<exists>s. map_of (subscribers (state r)) i = Some s \<and> sub_topic s = t \<and> sub_connection s = c)"
    using assms by (auto simp: registry_inv_def connections_inv_def)
  show ?thesis
  proof (cases "map_of (connections (state r)) c")
    case None
    then have "sub_connection s \<noteq> c" if "map_of (subscribers (state r)) i = Some s" for s
      using link [of "sub_topic s" i] that by auto
    with None show ?thesis by (simp add: drop_connection_def split: option.split)
  next
    case (Some cs)
    have keys: "distinct_keys (conn_topics cs)" using assms Some by (simp add: inv_defs)
    have "i \<in> snd ` set (conn_topics cs) \<longleftrightarrow>
        (\<exists>s. map_of (subscribers (state r)) i = Some s \<and> sub_connection s = c)"
      using link [of _ i] Some keys by (force simp: map_of_in_set image_iff)
    with Some show ?thesis by (auto simp: drop_connection_def split: option.split)
  qed
qed

lemma disconnect_keeps [simp]:
  "state (disconnect c r) = state (drop_connection c r)" "draining (disconnect c r) = draining r"
  "connected (disconnect c r) = connected r - {c}"
  by (simp_all add: disconnect_def Let_def subscriptions_drop connected_def split: option.split)
     (simp_all add: subscriptions_drop flip: connected_def)

lemma fold_disconnect_subscribers:
  "registry_inv r \<Longrightarrow> map_of (subscribers (state (fold disconnect cs r))) i =
    (case map_of (subscribers (state r)) i of None \<Rightarrow> None
     | Some s \<Rightarrow> if sub_connection s \<in> set cs then None else Some s)"
proof (induction cs arbitrary: r)
  case (Cons c cs)
  from Cons.IH [OF registry_inv_disconnect [OF Cons.prems, of c]] show ?case
    by (auto simp: drop_connection_subscribers [OF Cons.prems] split: option.split)
qed (simp split: option.split)

lemma fold_disconnect_connected: "connected (fold disconnect cs r) = connected r - set cs"
  by (induction cs arbitrary: r) auto

lemma fold_disconnect_draining [simp]: "draining (fold disconnect cs r) = draining r"
  by (induction cs arbitrary: r) auto

lemma drop_connection_others:
  "d \<noteq> c \<Longrightarrow> map_of (connections (state (drop_connection c r))) d = map_of (connections (state r)) d"
  by (simp add: drop_connection_def split: option.split)

lemma spawned_fold_disconnect: "set (spawned r) \<subseteq> set (spawned (fold disconnect cs r))"
proof (induction cs arbitrary: r)
  case (Cons c cs)
  have "set (spawned r) \<subseteq> set (spawned (disconnect c r))"
    by (auto simp: disconnect_def Let_def split: option.split)
  with Cons.IH [of "disconnect c r"] show ?case by auto
qed simp

lemma fold_disconnect_shuts_down:
  "c \<in> set cs \<Longrightarrow> map_of (connections (state r)) c = Some k \<Longrightarrow>
     ShutdownTask (handle k) EnhanceYourCalm \<in> set (spawned (fold disconnect cs r))"
proof (induction cs arbitrary: r)
  case (Cons d cs)
  show ?case
  proof (cases "d = c")
    case True
    then have "ShutdownTask (handle k) EnhanceYourCalm \<in> set (spawned (disconnect d r))"
      using Cons.prems(2) by (simp add: disconnect_def)
    then show ?thesis using spawned_fold_disconnect by fastforce
  next
    case False
    then show ?thesis using Cons by (simp add: drop_connection_others)
  qed
qed simp

text \<open>The connections the policy votes off when \<open>u\<close> is fanned out to \<open>t\<close>.\<close>

definition voted_off :: "topic \<Rightarrow> 'f \<Rightarrow> ('h, 'f) inner \<Rightarrow> connection_id set" where
  "voted_off t u r =
     {sub_connection s | i s. map_of (subscribers (state r)) i = Some s \<and> sub_topic s = t \<and>
        fst (push (queue_capacity (options r)) (delivery (options r)) u s) = Disconnect}"

lemma deliver_accepted:
  assumes inv: "registry_inv r" and live: "\<not> draining r" and u: "update_frame api t n p = Inr u"
  obtains ts subs doomed where
    "deliver api t n p r =
       (Inr (), fold disconnect doomed (r\<lparr>state := (state r)\<lparr>topics := ts, subscribers := subs\<rparr>\<rparr>))"
    and "registry_inv (r\<lparr>state := (state r)\<lparr>topics := ts, subscribers := subs\<rparr>\<rparr>)"
    and "\<forall>i. map_of subs i =
      map_option (\<lambda>s. if sub_topic s = t
        then snd (push (queue_capacity (options r)) (delivery (options r)) u s) else s)
        (map_of (subscribers (state r)) i)"
    and "set doomed = voted_off t u r"
proof (cases "map_of (topics (state r)) t")
  case None
  then have none: "sub_topic s \<noteq> t" if "map_of (subscribers (state r)) i = Some s" for i s
    using inv that unfolding registry_inv_def topics_inv_def by (metis option.distinct(1))
  show thesis
  proof (rule that [of "[]" "subscribers (state r)" "topics (state r)"])
    show "set [] = voted_off t u r" using none by (auto simp: voted_off_def)
  qed (use None none inv live u in \<open>auto simp: deliver_def fan_out_def map_option_case split: option.split\<close>)
next
  case (Some e)
  let ?ts = "AList.update t (e\<lparr>last_order := max (last_order e) n\<rparr>) (topics (state r))"
  let ?r = "r\<lparr>state := (state r)\<lparr>topics := ?ts\<rparr>\<rparr>"
  have distinct: "distinct (members e)" using inv Some by (simp add: inv_defs)
  have member: "i \<in> set (members e) \<longleftrightarrow> (\<exists>s. map_of (subscribers (state r)) i = Some s \<and> sub_topic s = t)" for i
    using inv Some unfolding registry_inv_def topics_inv_def by (metis option.inject)
  obtain subs doomed where f: "fan_out_members (options r) u (members e) (subscribers (state r)) [] = (subs, doomed)"
    by fastforce
  note lookup = fan_out_members_lookup [OF f distinct]
  show thesis
  proof (rule that [of doomed subs ?ts])
    show "registry_inv (r\<lparr>state := (state r)\<lparr>topics := ?ts, subscribers := subs\<rparr>\<rparr>)"
      using registry_inv_same_lanes [OF registry_inv_stamp [OF inv Some, of "max (last_order e) n"], of subs] fan_out_members_same_lanes [OF f]
      by simp
    show "\<forall>i. map_of subs i = map_option (\<lambda>s. if sub_topic s = t
        then snd (push (queue_capacity (options r)) (delivery (options r)) u s) else s)
        (map_of (subscribers (state r)) i)"
      using lookup(1) member by (auto simp: map_option_case split: option.split)
    have "i \<in> set (members e) \<and> map_of (subscribers (state r)) i = Some s \<and> q \<longleftrightarrow>
        map_of (subscribers (state r)) i = Some s \<and> sub_topic s = t \<and> q" for i s q
      using member [of i] by auto
    then show "set doomed = voted_off t u r" by (simp add: lookup(2) voted_off_def)
  qed (use live u Some f in \<open>simp add: deliver_def fan_out_def Let_def\<close>)
qed

lemma deliver_members:
  assumes "registry_inv r" and "\<not> draining r" and "update_frame api t n p = Inr u"
    and "deliver api t n p r = (res, r')"
  shows "res = Inr () \<and> connected r' = connected r - voted_off t u r \<and>
    (\<forall>i. map_of (subscribers (state r')) i =
      (case map_of (subscribers (state r)) i of None \<Rightarrow> None
       | Some s \<Rightarrow>
           if sub_connection s \<in> voted_off t u r then None
           else Some (if sub_topic s = t
             then snd (push (queue_capacity (options r)) (delivery (options r)) u s) else s))) \<and>
    (\<forall>c k. c \<in> voted_off t u r \<and> map_of (connections (state r)) c = Some k \<longrightarrow>
       ShutdownTask (handle k) EnhanceYourCalm \<in> set (spawned r'))"
proof -
  obtain ts subs doomed where d:
    "deliver api t n p r =
       (Inr (), fold disconnect doomed (r\<lparr>state := (state r)\<lparr>topics := ts, subscribers := subs\<rparr>\<rparr>))"
    and inv: "registry_inv (r\<lparr>state := (state r)\<lparr>topics := ts, subscribers := subs\<rparr>\<rparr>)"
    and subs: "\<forall>i. map_of subs i = map_option (\<lambda>s. if sub_topic s = t
        then snd (push (queue_capacity (options r)) (delivery (options r)) u s) else s)
        (map_of (subscribers (state r)) i)"
    and doomed: "set doomed = voted_off t u r"
    by (rule deliver_accepted [OF assms(1-3)])
  have r': "res = Inr ()" "r' = fold disconnect doomed (r\<lparr>state := (state r)\<lparr>topics := ts, subscribers := subs\<rparr>\<rparr>)"
    using d assms(4) by auto
  have conns: "connected r' = connected r - voted_off t u r"
    by (simp add: r' fold_disconnect_connected doomed) (simp add: connected_def)
  have shut: "ShutdownTask (handle k) EnhanceYourCalm \<in> set (spawned r')"
    if "c \<in> voted_off t u r" "map_of (connections (state r)) c = Some k" for c k
    unfolding r' using that by (intro fold_disconnect_shuts_down) (simp_all add: doomed)
  have "map_of (subscribers (state r')) i =
      (case map_of (subscribers (state r)) i of None \<Rightarrow> None
       | Some s \<Rightarrow>
           if sub_connection s \<in> voted_off t u r then None
           else Some (if sub_topic s = t
             then snd (push (queue_capacity (options r)) (delivery (options r)) u s) else s))" for i
    unfolding r' fold_disconnect_subscribers [OF inv]
    by (cases "map_of (subscribers (state r)) i") (simp_all add: subs doomed)
  with r'(1) conns shut show ?thesis by blast
qed

text \<open>
  C3. Fan-out is exact: an update that lands on a live node is pushed to every subscriber of its
  topic and to no other, whatever order the member set is iterated in. The subscribers whose
  queue the policy gave up on lose their whole connection, which leaves the registry and is told
  \<^verbatim>\<open>EnhanceYourCalm\<close>; every other connection stays.
\<close>

theorem deliver_reaches_exactly_the_members:
  assumes "registry_inv r" and "\<not> draining r" and "update_frame api t n p = Inr u"
    and "deliver api t n p r = (res, r')"
  shows "res = Inr () \<and> connected r' = connected r - voted_off t u r \<and>
    (\<forall>i. map_of (subscribers (state r')) i =
      (case map_of (subscribers (state r)) i of None \<Rightarrow> None
       | Some s \<Rightarrow>
           if sub_connection s \<in> voted_off t u r then None
           else Some (if sub_topic s = t
             then snd (push (queue_capacity (options r)) (delivery (options r)) u s) else s))) \<and>
    (\<forall>c k. c \<in> voted_off t u r \<and> map_of (connections (state r)) c = Some k \<longrightarrow>
       ShutdownTask (handle k) EnhanceYourCalm \<in> set (spawned r'))"
  using deliver_members [OF assms] .

theorem deliver_reaches_exactly_the_members_witness:
  "let r' = snd (deliver plain_api (Topic ''prices'') 1 [5] example_registry)
   in map_option (\<lambda>s. queue (lane s)) (map_of (subscribers (state r')) (SubscriberId 1)) =
        Some [(as_bytes ''prices'', 1, [5])] \<and>
      map_option (\<lambda>s. queue (lane s)) (map_of (subscribers (state r')) (SubscriberId 2)) = Some []"
proof -
  let ?u = "(as_bytes ''prices'', 1, [5]) :: bytes \<times> u64 \<times> bytes"
  let ?out = "deliver plain_api (Topic ''prices'') 1 [5] example_registry"
  have u: "update_frame plain_api (Topic ''prices'') 1 [5] = Inr ?u"
    by (simp add: update_frame_def build_def plain_api_def)
  have live: "\<not> draining example_registry" by (simp add: registry_eval)
  have off: "voted_off (Topic ''prices'') ?u example_registry = {}"
    by (auto simp: voted_off_def registry_eval push_def drop_oldest_on_full_def)
  from deliver_reaches_exactly_the_members [OF example_registry_inv live u, of "fst ?out" "snd ?out"]
  have "map_of (subscribers (state (snd ?out))) i =
      map_option (\<lambda>s. if sub_topic s = Topic ''prices''
        then snd (push (queue_capacity (options example_registry)) (delivery (options example_registry)) ?u s) else s)
        (map_of (subscribers (state example_registry)) i)" for i
    by (simp add: off map_option_case split: option.split)
  moreover have "map_of (subscribers (state example_registry)) (SubscriberId 1) =
        Some (subscriber_new (Topic ''prices'') (ConnectionId 1))"
    and "map_of (subscribers (state example_registry)) (SubscriberId 2) =
        Some (subscriber_new (Topic ''chat'') (ConnectionId 1))"
    and "options example_registry = default_options"
    by (simp_all add: registry_eval)
  ultimately show ?thesis
    unfolding Let_def
    by (simp add: push_def push_back_def subscriber_new_def default_options_def DEFAULT_QUEUE_CAPACITY_def)
qed

section \<open>Quiesce\<close>

text \<open>A completion takes its topic's next stamp from any backplane that keeps the order contract.\<close>

context backplane
begin

lemma quiesce_reserve_next:
  "quiesce_reserve api reserve snap b = (Inr ends, b') \<Longrightarrow> distinct (map fst snap) \<Longrightarrow>
     (t, n, ids, e) \<in> set ends \<Longrightarrow> n = saturating_add (last_order b t) 1"
proof (induction snap arbitrary: b ends)
  case (Cons q snap)
  obtain u us where q: "q = (u, us)" by fastforce
  obtain m b1 where r: "reserve u b = (m, b1)" by fastforce
  obtain f ends' where f: "end_frame api u m = Inr f" and ends: "ends = (u, m, us, f) # ends'"
    and rest: "quiesce_reserve api reserve snap b1 = (Inr ends', b')"
    using Cons.prems(1) by (auto simp: q r Let_def result_simps split: sum.splits prod.splits)
  have next': "m = saturating_add (last_order b u) 1"
    "last_order b1 t = (if t = u then m else last_order b t)"
    using reserve_next [OF r, of t] by auto
  show ?case
  proof (cases "(t, n, ids, e) \<in> set ends'")
    case True
    have "(t, ids) \<in> set (map (\<lambda>(t, n, ids, e). (t, ids)) ends')" using True by force
    then have "(t, ids) \<in> set snap" using quiesce_reserve_ends [OF rest] by simp
    then have "t \<noteq> u" using Cons.prems(2) by (force simp: q)
    with Cons.IH [OF rest _ True] Cons.prems(2) next' show ?thesis by simp
  next
    case False
    with Cons.prems(3) next' show ?thesis by (auto simp: ends)
  qed
qed simp

end

lemma end_pairs_lookup:
  assumes "distinct (map fst (end_pairs ends))"
  shows "map_of (end_pairs ends) i = Some e \<longleftrightarrow> (\<exists>t n ids. (t, n, ids, e) \<in> set ends \<and> i \<in> set ids)"
  using assms by (force simp: end_pairs_def)

lemma end_pairs_fst: "map fst (end_pairs ends) = concat (map (\<lambda>(t, n, ids, e). ids) ends)"
  by (induction ends) (auto simp: end_pairs_def comp_def)

lemma snapshot_ids:
  assumes "registry_inv r"
  shows "distinct (concat (map snd (quiesce_snapshot r)))"
    and "set (concat (map snd (quiesce_snapshot r))) = dom (map_of (subscribers (state r)))"
    and "distinct (map fst (quiesce_snapshot r))"
    and "(t, ids) \<in> set (quiesce_snapshot r) \<Longrightarrow> i \<in> set ids \<Longrightarrow>
      \<exists>s. map_of (subscribers (state r)) i = Some s \<and> sub_topic s = t"
proof -
  let ?ts = "topics (state r)"
  have tk: "distinct_keys ?ts"
    and "\<forall>t e. map_of ?ts t = Some e \<longrightarrow> distinct (members e) \<and> members e \<noteq> []"
    and "\<forall>t i. (\<exists>e. map_of ?ts t = Some e \<and> i \<in> set (members e)) \<longleftrightarrow>
            (\<exists>s. map_of (subscribers (state r)) i = Some s \<and> sub_topic s = t)"
    using assms unfolding registry_inv_def topics_inv_def by blast+
  then have keys: "distinct (map fst ?ts)"
    and entries: "\<And>t e. (t, e) \<in> set ?ts \<Longrightarrow> distinct (members e) \<and> members e \<noteq> []"
    and link: "\<And>t i. (\<exists>e. (t, e) \<in> set ?ts \<and> i \<in> set (members e)) \<longleftrightarrow>
            (\<exists>s. map_of (subscribers (state r)) i = Some s \<and> sub_topic s = t)"
    unfolding map_of_in_set [OF tk] distinct_keys_def by blast+
  have snd_snap: "map snd (quiesce_snapshot r) = map (\<lambda>(t, e). members e) ?ts"
    by (simp add: quiesce_snapshot_def case_prod_beta)
  have fst_snap: "map fst (quiesce_snapshot r) = map fst ?ts"
    by (simp add: quiesce_snapshot_def case_prod_beta)
  then show "distinct (map fst (quiesce_snapshot r))" using keys by simp
  show "\<exists>s. map_of (subscribers (state r)) i = Some s \<and> sub_topic s = t"
    if "(t, ids) \<in> set (quiesce_snapshot r)" "i \<in> set ids" for t ids i
    using that link [of t i] by (auto simp: quiesce_snapshot_def)
  show "set (concat (map snd (quiesce_snapshot r))) = dom (map_of (subscribers (state r)))"
    using link by (fastforce simp: snd_snap)
  have other: "set (members e) \<inter> set (members f) = {}"
    if "(t, e) \<in> set ?ts" "(u, f) \<in> set ?ts" "t \<noteq> u" for t u e f
  proof (rule ccontr)
    assume "set (members e) \<inter> set (members f) \<noteq> {}"
    then obtain i where "i \<in> set (members e)" "i \<in> set (members f)" by blast
    then show False using that link [of t i] link [of u i] by (metis option.inject)
  qed
  have "distinct (concat (map (\<lambda>(t, e). members e) ts))" if "set ts \<subseteq> set ?ts" "distinct (map fst ts)" for ts
    using that
  proof (induction ts)
    case (Cons q ts)
    obtain t e where q: "q = (t, e)" by fastforce
    have "set (members e) \<inter> set (concat (map (\<lambda>(t, e). members e) ts)) = {}"
    proof (rule ccontr)
      assume "\<not> ?thesis"
      then obtain u f where "(u, f) \<in> set ts" "set (members e) \<inter> set (members f) \<noteq> {}" by fastforce
      moreover have "t \<noteq> u" using Cons.prems(2) calculation(1) by (force simp: q)
      ultimately show False using other [of t e u f] Cons.prems(1) by (auto simp: q)
    qed
    then show ?case using Cons entries [of t e] by (simp add: q)
  qed simp
  then show "distinct (concat (map snd (quiesce_snapshot r)))" using keys by (simp add: snd_snap)
qed

lemma quiesce_finish_keeps:
  "quiesce_finish ends (st, n) = (st', n') \<Longrightarrow> connections st' = connections st"
proof (induction ends arbitrary: st n)
  case (Cons e ends)
  obtain t k ids fin where e: "e = (t, k, ids, fin)" by (metis prod_cases4)
  show ?case
    using Cons.prems Cons.IH by (auto simp: e Let_def split: prod.splits option.splits)
qed simp

lemma step_draining: "registry_step api r r' \<Longrightarrow> draining r \<Longrightarrow> draining r'"
  by (erule registry_step.cases)
     (auto simp: admit_connection_def register_def unregister_def deliver_def quiesce_def Let_def
       split: option.split)

lemma unregister_subscribers:
  "map_of (subscribers (state (snd (unregister c t r)))) i = Some s \<Longrightarrow>
     map_of (subscribers (state r)) i = Some s"
  by (auto simp: unregister_def Let_def split: option.splits if_splits)

lemma drop_connection_subset:
  "map_of (subscribers (state (drop_connection c r))) i = Some s \<Longrightarrow>
     map_of (subscribers (state r)) i = Some s"
  by (auto simp: drop_connection_def split: option.splits if_splits)

lemma step_lanes_shrink:
  assumes "registry_step api r r'" and "draining r" and "map_of (subscribers (state r')) i = Some s'"
  shows "\<exists>s. map_of (subscribers (state r)) i = Some s \<and> sub_topic s' = sub_topic s \<and> suffix (queue (lane s')) (queue (lane s))"
  using assms(1)
proof cases
  case (step_lane j s t)
  have "sub_topic t = sub_topic s \<and> suffix (queue (lane t)) (queue (lane s))"
    using step_lane(3)
    by (auto simp: drain_pop_def pop_front_def drain_settle_def close_def Let_def suffix_def split: list.splits)
  with step_lane(1,2) assms(3) show ?thesis by (auto split: if_splits)
next
  case step_unregister
  then show ?thesis using assms(3) unregister_subscribers by fastforce
next
  case step_drop
  then show ?thesis using assms(3) drop_connection_subset by fastforce
next
  case step_disconnect
  then show ?thesis using assms(3) drop_connection_subset by fastforce
qed (use assms in \<open>auto simp: admit_connection_def register_def deliver_def quiesce_def Let_def\<close>)

lemma steps_lanes_shrink:
  assumes "(registry_step api)\<^sup>*\<^sup>* r r'" and "draining r"
  shows "draining r' \<and> (\<forall>i s'. map_of (subscribers (state r')) i = Some s' \<longrightarrow>
    (\<exists>s. map_of (subscribers (state r)) i = Some s \<and> sub_topic s' = sub_topic s \<and> suffix (queue (lane s')) (queue (lane s))))"
  using assms
proof (induction rule: rtranclp_induct)
  case (step r' r'')
  show ?case
  proof (intro conjI allI impI)
    show "draining r''" using step step_draining by blast
    fix i s'' assume "map_of (subscribers (state r'')) i = Some s''"
    then obtain s' where "map_of (subscribers (state r')) i = Some s'" "sub_topic s'' = sub_topic s'"
      "suffix (queue (lane s'')) (queue (lane s'))"
      using step_lanes_shrink [OF step.hyps(2)] step.IH step.prems by blast
    moreover from this step.IH step.prems obtain s where "map_of (subscribers (state r)) i = Some s"
      "sub_topic s' = sub_topic s" "suffix (queue (lane s')) (queue (lane s))" by blast
    ultimately show "\<exists>s. map_of (subscribers (state r)) i = Some s \<and> sub_topic s'' = sub_topic s \<and>
        suffix (queue (lane s'')) (queue (lane s))"
      using suffix_order.trans by (metis (no_types))
  qed
qed auto

text \<open>
  The three phases of \<^verbatim>\<open>quiesce\<close> with whatever other calls and delivery tasks do between the snapshot
  and the completion, when no lock is held.
\<close>

lemma quiesce_interleaved:
  assumes inv: "registry_inv r"
    and reserved: "quiesce_reserve api reserve_order (quiesce_snapshot r) (bp :: nat local_state) = (Inr ends, bp')"
    and steps: "(registry_step api)\<^sup>*\<^sup>* (r\<lparr>draining := True\<rparr>) q"
    and fin: "quiesce_finish ends (state q, 0) = (st, n)"
  shows "draining q" and "connections st = connections (state q)"
    and "n = card (dom (map_of (subscribers (state q))))"
    and "dom (map_of (subscribers st)) = dom (map_of (subscribers (state q)))"
    and "map_of (subscribers (state q)) i = Some s \<Longrightarrow>
      \<exists>e. end_frame api (sub_topic s) (saturating_add (last_order_of bp (sub_topic s)) 1) = Inr e \<and>
          map_of (subscribers st) i = Some (finish e s)"
proof -
  have later: "draining q" "\<And>i s'. map_of (subscribers (state q)) i = Some s' \<Longrightarrow>
      \<exists>s. map_of (subscribers (state r)) i = Some s \<and> sub_topic s' = sub_topic s"
    using steps_lanes_shrink [OF steps] by auto
  note ids = snapshot_ids [OF inv]
  have ends: "map (\<lambda>(t, n, ids, e). (t, ids)) ends = quiesce_snapshot r"
    and frames: "\<And>t k ids e. (t, k, ids, e) \<in> set ends \<Longrightarrow> end_frame api t k = Inr e"
    using quiesce_reserve_ends [OF reserved] by fastforce+
  have orders: "\<And>t k ids e. (t, k, ids, e) \<in> set ends \<Longrightarrow> k = saturating_add (last_order_of bp t) 1"
    using local_bp.quiesce_reserve_next [OF reserved ids(3)] .
  have "map fst (end_pairs ends) = concat (map snd (map (\<lambda>(t, n, ids, e). (t, ids)) ends))"
    by (induction ends) (auto simp: end_pairs_fst)
  then have firsts: "map fst (end_pairs ends) = concat (map snd (quiesce_snapshot r))" by (simp only: ends)
  then have distinct: "distinct (map fst (end_pairs ends))" using ids(1) by simp
  have left: "dom (map_of (subscribers (state q))) \<subseteq> set (map fst (end_pairs ends))"
    using later(2) ids(2) unfolding firsts by fastforce
  note finished = finish_pairs_run [OF quiesce_finish_pairs [OF fin, symmetric] distinct]
  show "draining q" by (rule later(1))
  show "connections st = connections (state q)" by (rule quiesce_finish_keeps [OF fin])
  have "n = length (filter (\<lambda>i. map_of (subscribers (state q)) i \<noteq> None) (map fst (end_pairs ends)))"
    using finished by simp
  also have "\<dots> = card ({i. map_of (subscribers (state q)) i \<noteq> None} \<inter> set (map fst (end_pairs ends)))"
    by (rule distinct_length_filter [OF distinct])
  also have "{i. map_of (subscribers (state q)) i \<noteq> None} \<inter> set (map fst (end_pairs ends)) = dom (map_of (subscribers (state q)))"
    using left by (auto simp: dom_def)
  finally show "n = card (dom (map_of (subscribers (state q))))" .
  show "dom (map_of (subscribers st)) = dom (map_of (subscribers (state q)))"
    using finished by (fastforce simp: dom_def split: option.splits)
  assume s: "map_of (subscribers (state q)) i = Some s"
  then have "i \<in> set (concat (map snd (quiesce_snapshot r)))" using left firsts by fastforce
  then obtain t k us e where e: "(t, k, us, e) \<in> set ends" "i \<in> set us"
    unfolding ends [symmetric] by fastforce
  have "(t, us) \<in> set (quiesce_snapshot r)" using e(1) unfolding ends [symmetric] by force
  then have "sub_topic s = t" using ids(4) [OF _ e(2)] later(2) [OF s] by fastforce
  moreover have "map_of (end_pairs ends) i = Some e" using e end_pairs_lookup [OF distinct] by blast
  moreover have "k = saturating_add (last_order_of bp t) 1" by (rule orders [OF e(1)])
  ultimately show "\<exists>e. end_frame api (sub_topic s) (saturating_add (last_order_of bp (sub_topic s)) 1) = Inr e \<and>
          map_of (subscribers st) i = Some (finish e s)"
    using finished s frames [OF e(1)] by auto
qed

text \<open>A quiesce that nothing interleaves with is its phases in one step.\<close>

lemma quiesce_phases:
  assumes "\<not> draining r"
  shows "quiesce api reserve bp r = (Inr n, bp', r') \<longleftrightarrow>
    (\<exists>ends st. quiesce_reserve api reserve (quiesce_snapshot r) bp = (Inr ends, bp') \<and>
       quiesce_finish ends (state r, 0) = (st, n) \<and> r' = r\<lparr>draining := True, state := st\<rparr>)"
proof -
  have snap: "quiesce_snapshot (r\<lparr>draining := True\<rparr>) = quiesce_snapshot r" by (simp add: quiesce_snapshot_def)
  show ?thesis
    using assms by (auto simp: quiesce_def snap Let_def split: prod.splits sum.splits)
qed

lemma quiesce_completes:
  assumes inv: "registry_inv r" and live: "\<not> draining r"
    and run: "quiesce api reserve_order (bp :: nat local_state) r = (Inr n, bp', r')"
  shows "draining r'" and "dom (map_of (subscribers (state r'))) = dom (map_of (subscribers (state r)))"
    and "map_of (subscribers (state r)) i = Some s \<Longrightarrow>
      \<exists>e. end_frame api (sub_topic s) (saturating_add (last_order_of bp (sub_topic s)) 1) = Inr e \<and>
          map_of (subscribers (state r')) i = Some (finish e s)"
proof -
  obtain ends st where phases: "quiesce_reserve api reserve_order (quiesce_snapshot r) bp = (Inr ends, bp')"
    "quiesce_finish ends (state (r\<lparr>draining := True\<rparr>), 0) = (st, n)" "r' = r\<lparr>draining := True, state := st\<rparr>"
    using run unfolding quiesce_phases [OF live] by auto
  note done' = quiesce_interleaved [OF inv phases(1) rtranclp.rtrancl_refl phases(2)]
  show "draining r'" by (simp add: phases(3))
  show "dom (map_of (subscribers (state r'))) = dom (map_of (subscribers (state r)))"
    using done'(4) by (simp add: phases(3))
  show "map_of (subscribers (state r)) i = Some s \<Longrightarrow>
      \<exists>e. end_frame api (sub_topic s) (saturating_add (last_order_of bp (sub_topic s)) 1) = Inr e \<and>
          map_of (subscribers (state r')) i = Some (finish e s)"
    using done'(5) by (simp add: phases(3))
qed

text \<open>
  C4. Quiesce completes every subscriber, whatever runs between its phases: no lock is held between
  the snapshot of the topics and the completion, so subscribers may leave and lanes drain meanwhile.
  Each subscriber still there gets, behind everything queued, the end frame of its own topic stamped
  with that topic's next order, and is marked finished; the count is the number of those; connections
  stay and the registry is draining from then on. Without interference this is the \<^verbatim>\<open>quiesce\<close> call itself.
\<close>

theorem quiesce_completes_every_subscriber:
  assumes "registry_inv r" and "\<not> draining r"
    and "quiesce_reserve api reserve_order (quiesce_snapshot r) (bp :: nat local_state) = (Inr ends, bp')"
    and "(registry_step api)\<^sup>*\<^sup>* (r\<lparr>draining := True\<rparr>) q" and "quiesce_finish ends (state q, 0) = (st, n)"
  shows "draining q \<and> connections st = connections (state q) \<and>
    n = card (dom (map_of (subscribers (state q)))) \<and> dom (map_of (subscribers st)) = dom (map_of (subscribers (state q))) \<and>
    (\<forall>i s. map_of (subscribers (state q)) i = Some s \<longrightarrow>
      (\<exists>e. end_frame api (sub_topic s) (saturating_add (last_order_of bp (sub_topic s)) 1) = Inr e \<and>
           map_of (subscribers st) i = Some (finish e s))) \<and>
    (q = r\<lparr>draining := True\<rparr> \<longrightarrow> quiesce api reserve_order bp r = (Inr n, bp', q\<lparr>state := st\<rparr>))"
  using quiesce_interleaved [OF assms(1,3,4,5)] quiesce_phases [OF assms(2), of api reserve_order bp n bp'] assms(3,5)
  by auto

definition quiesced_registry :: "(nat, bytes \<times> u64 \<times> bytes) inner" where
  "quiesced_registry = snd (snd (quiesce plain_api reserve_order (local_default :: nat local_state) example_registry))"

lemma quiesced_registry_run:
  "quiesce plain_api reserve_order (local_default :: nat local_state) example_registry =
     (Inr 2, snd (reserve_order (Topic ''chat'') (snd (reserve_order (Topic ''prices'') local_default))),
      quiesced_registry)"
  by (simp add: quiesced_registry_def quiesce_def quiesce_snapshot_def registry_eval reserve_order_def
      last_order_of_def local_default_def saturating_add_def end_frame_def build_def plain_api_def)

theorem quiesce_completes_every_subscriber_witness:
  "\<exists>st. quiesce_finish
      [(Topic ''prices'', 1, [SubscriberId 1], (as_bytes ''end/prices'', 1, [])), (Topic ''chat'', 1, [SubscriberId 2], (as_bytes ''end/chat'', 1, []))]
      (state (snd (unregister (ConnectionId 1) (Topic ''prices'') (example_registry\<lparr>draining := True\<rparr>))), 0) = (st, 1) \<and>
    map_option (\<lambda>s. queue (lane s)) (map_of (subscribers st) (SubscriberId 2)) = Some [(as_bytes ''end/chat'', 1, [])]"
proof -
  let ?q = "snd (unregister (ConnectionId 1) (Topic ''prices'') (example_registry\<lparr>draining := True\<rparr>))"
  let ?ends = "[(Topic ''prices'', 1, [SubscriberId 1], (as_bytes ''end/prices'', 1, [])), (Topic ''chat'', 1, [SubscriberId 2], (as_bytes ''end/chat'', 1, []))]
    :: (topic \<times> u64 \<times> subscriber_id list \<times> (bytes \<times> u64 \<times> bytes)) list"
  let ?bp = "local_default :: nat local_state"
  have live: "\<not> draining example_registry" by (simp add: registry_eval)
  have reserved: "quiesce_reserve plain_api reserve_order (quiesce_snapshot example_registry) ?bp =
      (Inr ?ends, snd (reserve_order (Topic ''chat'') (snd (reserve_order (Topic ''prices'') ?bp))))"
    by (simp add: quiesce_snapshot_def registry_eval reserve_order_def last_order_of_def local_default_def
        saturating_add_def end_frame_def build_def plain_api_def END_PREFIX_def)
  have step: "(registry_step plain_api)\<^sup>*\<^sup>* (example_registry\<lparr>draining := True\<rparr>) ?q"
    by (rule r_into_rtranclp) (rule step_unregister)
  have sub: "map_of (subscribers (state ?q)) i =
      (if i = SubscriberId 2 then Some (subscriber_new (Topic ''chat'') (ConnectionId 1)) else None)" for i
    by (simp add: unregister_def remove_subscriber_def registry_eval)
  obtain st n where fin: "quiesce_finish ?ends (state ?q, 0) = (st, n)" by fastforce
  note all = quiesce_completes_every_subscriber [OF example_registry_inv live reserved step fin]
  have "dom (map_of (subscribers (state ?q))) = {SubscriberId 2}" by (auto simp: sub split: if_splits)
  then have n: "n = 1" using all by simp
  have sub2: "map_of (subscribers (state ?q)) (SubscriberId 2) = Some (subscriber_new (Topic ''chat'') (ConnectionId 1))"
    by (simp add: sub)
  from all sub2 obtain e where e: "end_frame plain_api (Topic ''chat'') (saturating_add (last_order_of ?bp (Topic ''chat'')) 1) = Inr e"
    and "map_of (subscribers st) (SubscriberId 2) = Some (finish e (subscriber_new (Topic ''chat'') (ConnectionId 1)))"
    by (fastforce simp: subscriber_new_def)
  then have "map_option (\<lambda>s. queue (lane s)) (map_of (subscribers st) (SubscriberId 2)) = Some [(as_bytes ''end/chat'', 1, [])]"
    by (auto simp: end_frame_def build_def plain_api_def last_order_of_def local_default_def
        saturating_add_def END_PREFIX_def subscriber_new_def finish_def)
  with fin n show ?thesis by blast
qed

section \<open>After quiesce\<close>

text \<open>
  C5. The completion is the last word: after a quiesce, through any further calls and any progress
  of the delivery tasks, the registry keeps refusing registrations and updates, a repeated quiesce
  signals nobody, and a subscriber's queue is empty or still ends with its topic's end frame.
\<close>

theorem completion_is_last:
  assumes "registry_inv r" and "\<not> draining r"
    and "quiesce api reserve_order (bp :: nat local_state) r = (Inr n, bp', r')"
    and "(registry_step api)\<^sup>*\<^sup>* r' r''"
  shows "fst (register c t r'') = Inl RegisterDraining \<and>
    fst (deliver api t m p r'') = Inl Draining \<and>
    quiesce api reserve_order (bp2 :: nat local_state) r'' = (Inr 0, bp2, r'') \<and>
    (\<forall>i s''. map_of (subscribers (state r'')) i = Some s'' \<longrightarrow>
      queue (lane s'') = [] \<or>
      Inr (last (queue (lane s''))) =
        end_frame api (sub_topic (the (map_of (subscribers (state r)) i)))
          (saturating_add (last_order_of bp (sub_topic (the (map_of (subscribers (state r)) i)))) 1))"
proof -
  note fin = quiesce_completes [OF assms(1-3)]
  note later = steps_lanes_shrink [OF assms(4) fin(1)]
  have "queue (lane s'') = [] \<or> Inr (last (queue (lane s''))) =
        end_frame api (sub_topic (the (map_of (subscribers (state r)) i)))
          (saturating_add (last_order_of bp (sub_topic (the (map_of (subscribers (state r)) i)))) 1)"
    if here: "map_of (subscribers (state r'')) i = Some s''" for i s''
  proof -
    obtain s' where s': "map_of (subscribers (state r')) i = Some s'" "suffix (queue (lane s'')) (queue (lane s'))"
      using later here by blast
    obtain s where s: "map_of (subscribers (state r)) i = Some s" using s'(1) fin(2) by blast
    obtain e where e: "end_frame api (sub_topic s) (saturating_add (last_order_of bp (sub_topic s)) 1) = Inr e"
      "s' = finish e s"
      using fin(3) [OF s] s'(1) by auto
    have "queue (lane s'') = [] \<or> last (queue (lane s'')) = e"
      using s'(2) e(2) by (auto simp: suffix_def) (metis last_appendR last_snoc)
    then show ?thesis using e(1) s by auto
  qed
  then show ?thesis using later by (simp add: register_def deliver_def quiesce_def)
qed

theorem completion_is_last_witness:
  "fst (register (ConnectionId 1) (Topic ''news'') (drop_connection (ConnectionId 9) quiesced_registry)) =
     Inl RegisterDraining"
proof -
  have live: "\<not> draining example_registry" by (simp add: registry_eval)
  have "(registry_step plain_api)\<^sup>*\<^sup>* quiesced_registry (drop_connection (ConnectionId 9) quiesced_registry)"
    by (rule r_into_rtranclp) (rule step_drop)
  from completion_is_last [OF example_registry_inv live quiesced_registry_run this] show ?thesis by blast
qed

section \<open>Identities\<close>

lemma drop_connection_lookup:
  "map_of (connections (state (drop_connection c r))) d =
     (if d = c then None else map_of (connections (state r)) d)"
  by (simp add: drop_connection_def split: option.split)

lemma fold_disconnect_lookup:
  "map_of (connections (state (fold disconnect cs r))) d =
     (if d \<in> set cs then None else map_of (connections (state r)) d)"
  by (induction cs arbitrary: r) (auto simp: drop_connection_lookup)

lemma drop_connection_next [simp]: "next_connection (drop_connection c r) = next_connection r"
  by (simp add: drop_connection_def split: option.split)

lemma disconnect_next [simp]: "next_connection (disconnect c r) = next_connection r"
  by (simp add: disconnect_def Let_def split: option.split)

lemma fold_disconnect_next [simp]: "next_connection (fold disconnect cs r) = next_connection r"
  by (induction cs arbitrary: r) simp_all

lemma step_identity:
  assumes step: "registry_step api r r'" and below: "c < ConnectionId (next_connection r)"
  shows "c < ConnectionId (next_connection r') \<and>
    (member_identity c r' = member_identity c r \<or> member_identity c r' = None)"
  using step
proof cases
  case (step_admit h ident)
  then show ?thesis
    using below by (auto simp: admit_connection_def Let_def member_identity_def connection_below_next)
next
  case (step_deliver t n p)
  then show ?thesis
    using below
    by (auto simp: deliver_def fan_out_def member_identity_def Let_def fold_disconnect_lookup
        split: sum.split option.split prod.split)
next
  case (step_quiesce bp)
  then show ?thesis
    using below by (auto simp: quiesce_def member_identity_def Let_def split: sum.split prod.split
        dest: quiesce_finish_keeps)
next
  case (step_register d t)
  then show ?thesis
    using below by (cases rule: register_cases [of r d t]) (auto simp: registered_def Let_def member_identity_def)
next
  case (step_unregister d t)
  then show ?thesis
    using below by (auto simp: unregister_def Let_def member_identity_def split: option.splits)
next
  case (step_disconnect d)
  then show ?thesis
    using below by (auto simp: member_identity_def drop_connection_lookup)
qed (use below in \<open>auto simp: member_identity_def drop_connection_lookup\<close>)

lemma steps_identity:
  assumes "(registry_step api)\<^sup>*\<^sup>* r r'" and "c < ConnectionId (next_connection r)"
  shows "c < ConnectionId (next_connection r') \<and>
    (member_identity c r' = member_identity c r \<or> member_identity c r' = None)"
  using assms
proof (induction rule: rtranclp_induct)
  case (step r' r'')
  then show ?case using step_identity [OF step.hyps(2)] by metis
qed simp

text \<open>
  C17. A revoked caller never comes back: once a connection id has been allocated, no run of the
  registry ever shows another identity under it than the one it was admitted with. The identity
  stays as it is or becomes \<^verbatim>\<open>None\<close> for good, so a dropped caller is never mistaken for an
  anonymous one.
\<close>

theorem revoked_identity_never_returns:
  assumes "(registry_step api)\<^sup>*\<^sup>* r r'" and "c < ConnectionId (next_connection r)"
  shows "(member_identity c r' = member_identity c r \<or> member_identity c r' = None) \<and>
         (member_identity c r = None \<longrightarrow> member_identity c r' = None)"
  using steps_identity [OF assms] by auto

theorem revoked_identity_never_returns_witness:
  "member_identity (ConnectionId 1) example_registry = Some None \<and>
   member_identity (ConnectionId 1)
     (snd (register_connection_as 8 [1] (drop_connection (ConnectionId 1) example_registry))) = None"
proof -
  let ?d = "drop_connection (ConnectionId 1) example_registry"
  have none: "member_identity (ConnectionId 1) ?d = None"
    by (simp add: member_identity_def drop_connection_lookup)
  have "registry_step plain_api ?d (snd (register_connection_as 8 [1] ?d))"
    unfolding register_connection_as_def by (rule step_admit) (simp add: registry_eval)
  then have "(registry_step plain_api)\<^sup>*\<^sup>* ?d (snd (register_connection_as 8 [1] ?d))" by (rule r_into_rtranclp)
  moreover have "ConnectionId 1 < ConnectionId (next_connection ?d)"
    by (simp add: registry_eval less_ConnectionId)
  ultimately have "member_identity (ConnectionId 1) (snd (register_connection_as 8 [1] ?d)) = None"
    using revoked_identity_never_returns none by blast
  then show ?thesis by (intro conjI) (simp add: registry_eval member_identity_def)
qed

section \<open>Publishing over several nodes\<close>

lemma distribute_nodes:
  assumes "distribute node_upgrade (node_deliver api) t n p ns a w = (kept, a', w')" and "distinct ns"
  shows "w' m = (if m \<in> set ns then map_option (\<lambda>r. snd (deliver api t n p r)) (w m) else w m)"
  using assms
proof (induction ns arbitrary: a w kept)
  case (Cons k ns)
  show ?case
  proof (cases "w k")
    case None
    with Cons show ?thesis by (auto simp: node_upgrade_def)
  next
    case (Some r)
    obtain x r' where d: "deliver api t n p r = (x, r')" by fastforce
    have "node_upgrade w k" "node_deliver api k t n p w = (x, w(k \<mapsto> r'))"
      using Some d by (simp_all add: node_upgrade_def node_deliver_def)
    then obtain kept' where "distribute node_upgrade (node_deliver api) t n p ns (tally_result x a) (w(k \<mapsto> r')) = (kept', a', w')"
      using Cons.prems(1) by (auto split: prod.splits)
    from Cons.IH [OF this] Cons.prems(2) Some d show ?thesis by auto
  qed
qed simp

lemma local_publish_nodes:
  assumes "local_publish node_upgrade (node_deliver api) t p bp w = (res, bp', w')" and "distinct (sinks bp)"
  shows "w' m = (if m \<in> set (sinks bp)
    then map_option (\<lambda>r. snd (deliver api t (saturating_add (last_order_of bp t) 1) p r)) (w m) else w m)"
proof -
  obtain kept a where "distribute node_upgrade (node_deliver api) t (saturating_add (last_order_of bp t) 1) p
      (sinks bp) tally_start w = (kept, a, w')"
    using assms(1) by (auto simp: local_publish_def Let_def split: prod.splits if_splits option.splits)
  from distribute_nodes [OF this assms(2)] show ?thesis .
qed

text \<open>
  Every node sees a publish under the same stamp: a publish from a live node is delivered
  once to every attached live node, each time with the topic's next order, and touches no other
  node, whatever the individual nodes answer; a publish from a draining node touches nothing.
\<close>

lemma publish_reaches_every_node:
  assumes "w n = Some r" and "distinct (sinks bp)" and "publish api n t p bp w = (res, bp', w')"
  shows "if draining r then res = Inl PublishDraining \<and> bp' = bp \<and> w' = w
    else (\<forall>m. w' m = (if m \<in> set (sinks bp)
      then map_option (\<lambda>r. snd (deliver api t (saturating_add (last_order_of bp t) 1) p r)) (w m) else w m))"
proof (cases "draining r")
  case True
  with assms show ?thesis by (simp add: publish_def)
next
  case False
  obtain res' where "local_publish node_upgrade (node_deliver api) t p bp w = (res', bp', w')"
    using assms False by (auto simp: publish_def Let_def split: prod.splits)
  from local_publish_nodes [OF this assms(2)] False show ?thesis by simp
qed

text \<open>
  Frame in frame: a published frame reaches every node as the payload whose octets are its encoding,
  so a subscriber that lifts the payload of its update holds the inner frame's bytes.
\<close>

lemma publish_frame_is_publish_of_encoding:
  assumes "frame_api_laws api" and "frame_to_der api inner_frame = Inr payload" and "update_frame api t order payload = Inr update"
  shows "publish_frame api n t inner_frame bp w = publish api n t payload bp w \<and> opaque_payload api update = Inr payload"
  using assms build_carries(3) [OF assms(1)] by (simp add: publish_frame_def update_frame_def)

lemma publish_frame_unencodable:
  "frame_to_der api inner_frame = Inl cause \<Longrightarrow> publish_frame api n t inner_frame bp w = (Inl (PublishBuild cause), bp, w)"
  by (simp add: publish_frame_def)

text \<open>A registry is flushed exactly when no open subscriber has an update queued or in flight.\<close>

lemma is_flushed_iff:
  "is_flushed r \<longleftrightarrow> (\<forall>(id', s) \<in> set (subscribers (state r)). \<not> closed s \<longrightarrow> queue (lane s) = [] \<and> \<not> in_flight (lane s))"
  by (auto simp: is_flushed_def pending_def list_all_iff)

end
