(* ===== verification/Dispatch.thy ===== *)
theory Dispatch
  imports Registry_Delivery
begin

text \<open>
  Serve-side command dispatch (\<^verbatim>\<open>pubsub/tightbeam-pubsub/src/dispatch.rs\<close>): the \<^verbatim>\<open>sub/\<close>,
  \<^verbatim>\<open>unsub/\<close> and opt-in \<^verbatim>\<open>pub/\<close> commands. A dispatcher names its registry by the node's number;
  it holds a strong reference, so the node exists whenever a command is answered.
\<close>

text \<open>The upstream \<^verbatim>\<open>TransitStatus\<close> and \<^verbatim>\<open>ResponsePackage\<close>, with the statuses this crate names.\<close>

datatype transit_status =
    StatusOk
  | InvalidArgument
  | PermissionDenied
  | ResourceExhausted
  | Unimplemented
  | Internal
  | StatusUnavailable

record 'f response_package =
  status :: transit_status
  message :: "'f option"

record pubsub_commands =
  registry :: nat
  subscribe_policy :: subscribe_policy
  publish_policy :: "publish_policy option"

definition commands_new :: "nat \<Rightarrow> subscribe_policy \<Rightarrow> pubsub_commands" where
  "commands_new node policy =
     \<lparr>registry = node, subscribe_policy = policy, publish_policy = None\<rparr>"

definition with_publish :: "publish_policy \<Rightarrow> pubsub_commands \<Rightarrow> pubsub_commands" where
  "with_publish policy commands = commands\<lparr>publish_policy := Some policy\<rparr>"

definition accepted :: "'f response_package" where
  "accepted = \<lparr>status = StatusOk, message = None\<rparr>"

definition refusal :: "transit_status \<Rightarrow> 'f response_package" where
  "refusal s = \<lparr>status = s, message = None\<rparr>"

definition authorized_topic ::
  "connection_id \<Rightarrow> bytes \<Rightarrow> (bytes option \<Rightarrow> topic \<Rightarrow> access_verdict) \<Rightarrow> ('h, 'f) inner \<Rightarrow>
   'f response_package + topic" where
  "authorized_topic connection name authorize r =
     (case topic_try_from name of
        Inl _ \<Rightarrow> Inl (refusal InvalidArgument)
      | Inr topic \<Rightarrow>
          (case member_identity connection r of
             None \<Rightarrow> Inl (refusal PermissionDenied)
           | Some ident \<Rightarrow>
               if authorize ident topic = Forbid then Inl (refusal PermissionDenied) else Inr topic))"

definition subscribe_command ::
  "subscribe_policy \<Rightarrow> connection_id \<Rightarrow> bytes \<Rightarrow> ('h, 'f) inner \<Rightarrow> 'f response_package \<times> ('h, 'f) inner" where
  "subscribe_command policy connection name r =
     (case authorized_topic connection name policy r of
        Inl refused \<Rightarrow> (refused, r)
      | Inr topic \<Rightarrow>
          (case register connection topic r of
             (Inr _, r') \<Rightarrow> (accepted, r')
           | (Inl RegisterDraining, r') \<Rightarrow> (refusal StatusUnavailable, r')
           | (Inl LimitReached, r') \<Rightarrow> (refusal ResourceExhausted, r')
           | (Inl UnknownConnection, r') \<Rightarrow> (refusal PermissionDenied, r')))"

definition unsubscribe_command ::
  "connection_id \<Rightarrow> bytes \<Rightarrow> ('h, 'f) inner \<Rightarrow> 'f response_package \<times> ('h, 'f) inner" where
  "unsubscribe_command connection name r =
     (case topic_try_from name of
        Inl _ \<Rightarrow> (refusal InvalidArgument, r)
      | Inr topic \<Rightarrow> (accepted, snd (unregister connection topic r)))"

text \<open>The sequencer and all nodes, which a publish changes.\<close>

type_synonym ('h, 'f) world = "nat local_state \<times> ('h, 'f) nodes"

definition publish_command ::
  "'f frame_api \<Rightarrow> nat \<Rightarrow> publish_policy \<Rightarrow> connection_id \<Rightarrow> bytes \<Rightarrow> 'f \<Rightarrow> ('h, 'f) inner \<Rightarrow>
   ('h, 'f) world \<Rightarrow> 'f response_package \<times> ('h, 'f) world" where
  "publish_command api node policy connection name frame r world =
     (case authorized_topic connection name policy r of
        Inl refused \<Rightarrow> (refused, world)
      | Inr topic \<Rightarrow>
          (case opaque_payload api frame of
             Inl _ \<Rightarrow> (refusal InvalidArgument, world)
           | Inr payload \<Rightarrow>
               (case publish api node topic payload (fst world) (snd world) of
                  (Inr _, world') \<Rightarrow> (accepted, world')
                | (Inl PublishDraining, world') \<Rightarrow> (refusal StatusUnavailable, world')
                | (Inl (PublishBuild _), world') \<Rightarrow> (refusal Internal, world')
                | (Inl (PublishBackplane _), world') \<Rightarrow> (refusal StatusUnavailable, world'))))"

definition answer ::
  "'f frame_api \<Rightarrow> pubsub_commands \<Rightarrow> connection_id \<Rightarrow> 'f \<Rightarrow> ('h, 'f) world \<Rightarrow>
   'f response_package option \<times> ('h, 'f) world" where
  "answer api commands connection frame world =
     (let ident = metadata_id api frame; node = registry commands
      in case snd world node of
           None \<Rightarrow> (None, world)
         | Some r \<Rightarrow>
             (case strip_prefix (as_bytes SUB_PREFIX) ident of
                Some name \<Rightarrow>
                  let (response, r') = subscribe_command (subscribe_policy commands) connection name r
                  in (Some response, fst world, (snd world)(node \<mapsto> r'))
              | None \<Rightarrow>
             (case strip_prefix (as_bytes UNSUB_PREFIX) ident of
                Some name \<Rightarrow>
                  let (response, r') = unsubscribe_command connection name r
                  in (Some response, fst world, (snd world)(node \<mapsto> r'))
              | None \<Rightarrow>
             (case strip_prefix (as_bytes PUB_PREFIX) ident of
                Some name \<Rightarrow>
                  (case publish_policy commands of
                     None \<Rightarrow> (None, world)
                   | Some policy \<Rightarrow>
                       let (response, world') = publish_command api node policy connection name frame r world
                       in (Some response, world'))
              | None \<Rightarrow> (None, world)))))"

section \<open>Lemmas\<close>

lemma response_simps [simp]:
  "status accepted = StatusOk" "status (refusal s) = s"
  by (simp_all add: accepted_def refusal_def)

lemma authorized_topic_iff:
  "authorized_topic c name authorize r = Inr t \<longleftrightarrow>
     topic_try_from name = Inr t \<and> (\<exists>ident. member_identity c r = Some ident \<and> authorize ident t = Allow)"
  by (auto simp: authorized_topic_def split: sum.splits option.splits access_verdict.splits if_splits)
     (metis access_verdict.exhaust)+

lemma authorized_topic_refused:
  "authorized_topic c name authorize r = Inl resp \<Longrightarrow>
     status resp = (case topic_try_from name of Inl _ \<Rightarrow> InvalidArgument | Inr _ \<Rightarrow> PermissionDenied)"
  by (auto simp: authorized_topic_def split: sum.splits option.splits if_splits)

lemma member_identity_connected: "member_identity c r = None \<longleftrightarrow> c \<notin> connected r"
  by (auto simp: member_identity_def connected_def)

lemma prefixes_apart:
  "strip_prefix (as_bytes SUB_PREFIX) b = Some x \<Longrightarrow> strip_prefix (as_bytes UNSUB_PREFIX) b = None"
  "strip_prefix (as_bytes SUB_PREFIX) b = Some x \<Longrightarrow> strip_prefix (as_bytes PUB_PREFIX) b = None"
  "strip_prefix (as_bytes UNSUB_PREFIX) b = Some x \<Longrightarrow> strip_prefix (as_bytes PUB_PREFIX) b = None"
  by (auto simp: SUB_PREFIX_def UNSUB_PREFIX_def PUB_PREFIX_def as_bytes_def)

lemma subscribe_command_cases:
  assumes "registry_inv r" and "subscribe_command policy c name r = (resp, r')"
  obtains (refused) "status resp = (case topic_try_from name of Inl _ \<Rightarrow> InvalidArgument | Inr _ \<Rightarrow> PermissionDenied)"
      "\<nexists>t. authorized_topic c name policy r = Inr t" "r' = r"
  | (registered) t where "authorized_topic c name policy r = Inr t" "status resp = StatusOk"
      "book_subscribe (max_subscriptions_per_connection (options r)) c t (book_of r) = (None, book_of r')"
  | (failed) t e where "authorized_topic c name policy r = Inr t" "status resp \<noteq> StatusOk" "r' = r"
      "fst (book_subscribe (max_subscriptions_per_connection (options r)) c t (book_of r)) = Some e"
      "status resp = (case e of RegisterDraining \<Rightarrow> StatusUnavailable | LimitReached \<Rightarrow> ResourceExhausted
         | UnknownConnection \<Rightarrow> PermissionDenied)"
proof (cases "authorized_topic c name policy r")
  case (Inl x)
  then have "resp = x" "r' = r" using assms(2) by (simp_all add: subscribe_command_def)
  then show thesis using Inl authorized_topic_refused [OF Inl] by (intro refused) simp_all
next
  case (Inr t)
  obtain res q where q: "register c t r = (res, q)" by fastforce
  note book = reg.subscribe_book [OF assms(1), of c t, unfolded q fst_conv snd_conv]
  show thesis
  proof (cases res)
    case (Inr i)
    have "resp = accepted" "r' = q" using assms(2) q \<open>authorized_topic c name policy r = Inr t\<close> Inr
      by (simp_all add: subscribe_command_def)
    then show thesis
      using \<open>authorized_topic c name policy r = Inr t\<close> book Inr
      by (intro registered [of t]) (simp_all add: register_failure_def)
  next
    case (Inl e)
    have "q = r" using q Inl by (cases rule: register_cases [of r c t]) auto
    have st: "resp = refusal (case e of RegisterDraining \<Rightarrow> StatusUnavailable | LimitReached \<Rightarrow> ResourceExhausted
         | UnknownConnection \<Rightarrow> PermissionDenied)" "r' = r"
      using assms(2) q \<open>authorized_topic c name policy r = Inr t\<close> Inl \<open>q = r\<close>
      by (cases e; simp add: subscribe_command_def)+
    have "fst (book_subscribe (max_subscriptions_per_connection (options r)) c t (book_of r)) = Some e"
      using book Inl by (simp add: register_failure_def flip: book)
    then show thesis
      using \<open>authorized_topic c name policy r = Inr t\<close> st by (intro failed [of t e]) (cases e; simp)+
  qed
qed

section \<open>Properties\<close>

text \<open>
  C16. A \<^verbatim>\<open>sub/\<close> command is accepted exactly when the topic name is valid, the caller is a
  registered connection whose identity the policy allows, the node is not draining, and the
  caller already holds the subscription or is below its cap. An accepted command adds exactly
  that subscription; a refused one changes nothing, and its status tells the reason.
\<close>

theorem subscribe_command_decides:
  assumes "registry_inv r" and "subscribe_command policy c name r = (resp, r')"
  shows "(status resp = StatusOk \<longleftrightarrow>
      (\<exists>t ident. topic_try_from name = Inr t \<and> member_identity c r = Some ident \<and>
        policy ident t = Allow \<and> \<not> draining r \<and>
        ((c, t) \<in> subscriptions r \<or>
         card {u. (c, u) \<in> subscriptions r} < max_subscriptions_per_connection (options r)))) \<and>
    (if status resp = StatusOk
     then \<exists>t. topic_try_from name = Inr t \<and> subscriptions r' = insert (c, t) (subscriptions r)
     else r' = r)"
  using assms
proof (cases rule: subscribe_command_cases)
  case refused
  then have "status resp \<noteq> StatusOk" by (auto split: sum.splits)
  with refused show ?thesis by (auto simp: authorized_topic_iff)
next
  case (registered t)
  then show ?thesis
    by (auto simp: authorized_topic_iff book_subscribe_def book_of_def insert_absorb not_le split: if_splits)
next
  case (failed t e)
  have "c \<in> connected r"
    using failed(1) member_identity_connected [of c r] by (auto simp: authorized_topic_iff)
  with failed show ?thesis
    by (auto simp: authorized_topic_iff book_subscribe_def book_of_def split: if_splits)
qed

theorem subscribe_command_decides_witness:
  "status (fst (subscribe_command allow_all_subscribe (ConnectionId 1) (as_bytes ''news'') example_registry)) = StatusOk \<and>
   status (fst (subscribe_command allow_all_subscribe (ConnectionId 2) (as_bytes ''news'') example_registry)) \<noteq> StatusOk"
proof -
  let ?out = "\<lambda>n. subscribe_command allow_all_subscribe (ConnectionId n) (as_bytes ''news'') example_registry"
  have name: "topic_try_from (as_bytes ''news'') = Inr (Topic ''news'')" by code_simp
  have member: "member_identity (ConnectionId 1) example_registry = Some None"
      "member_identity (ConnectionId 2) example_registry = None" "\<not> draining example_registry"
    by (simp_all add: member_identity_def registry_eval)
  have "{u. (ConnectionId 1, u) \<in> subscriptions example_registry} = {Topic ''prices'', Topic ''chat''}"
    by (auto simp: subscriptions_def registry_eval split: if_splits)
  then have "card {u. (ConnectionId 1, u) \<in> subscriptions example_registry}
      < max_subscriptions_per_connection (options example_registry)"
    by (simp add: registry_eval)
  then show ?thesis
    using subscribe_command_decides [OF example_registry_inv, of allow_all_subscribe "ConnectionId 1" "as_bytes ''news''" "fst (?out 1)" "snd (?out 1)"]
      subscribe_command_decides [OF example_registry_inv, of allow_all_subscribe "ConnectionId 2" "as_bytes ''news''" "fst (?out 2)" "snd (?out 2)"]
      name member by (auto simp: allow_all_subscribe_def)
qed

text \<open>
  Frames are routed by their prefix: on a live node the dispatcher claims exactly the
  \<^verbatim>\<open>sub/\<close> and \<^verbatim>\<open>unsub/\<close> frames, and the \<^verbatim>\<open>pub/\<close> frames once client publish is installed.
  Every other frame is left to the application with nothing changed.
\<close>

lemma answer_claims_exactly_commands:
  assumes "snd world (registry commands) = Some r" and "answer api commands c frame world = (response, world')"
  shows "(response \<noteq> None \<longleftrightarrow>
      starts_with (metadata_id api frame) (as_bytes SUB_PREFIX) \<or>
      starts_with (metadata_id api frame) (as_bytes UNSUB_PREFIX) \<or>
      (starts_with (metadata_id api frame) (as_bytes PUB_PREFIX) \<and> publish_policy commands \<noteq> None)) \<and>
    (response = None \<longrightarrow> world' = world)"
  using assms
  by (auto simp: answer_def Let_def starts_with_def split: option.splits prod.splits simp del: strip_prefix_Some)

text \<open>
  Nothing is published without authorization: a \<^verbatim>\<open>pub/\<close> command reaches the sequencer only
  for a valid topic, from a registered connection the publish policy allows, with a decodable
  body, and then publishes exactly that payload to that topic; in every other case the sequencer
  and all nodes are untouched and the caller is refused.
\<close>

lemma publish_command_guarded:
  "case publish_command api node policy c name frame r world of
     (resp, world') \<Rightarrow>
       (\<exists>t ident payload. topic_try_from name = Inr t \<and> member_identity c r = Some ident \<and>
          policy ident t = Allow \<and> opaque_payload api frame = Inr payload \<and>
          world' = snd (publish api node t payload (fst world) (snd world)) \<and>
          (status resp = StatusOk \<longleftrightarrow> fst (publish api node t payload (fst world) (snd world)) = Inr ())) \<or>
       (world' = world \<and> status resp \<in> {InvalidArgument, PermissionDenied} \<and>
        (\<nexists>t ident payload. topic_try_from name = Inr t \<and> member_identity c r = Some ident \<and>
           policy ident t = Allow \<and> opaque_payload api frame = Inr payload))"
proof (cases "authorized_topic c name policy r")
  case (Inl resp)
  then show ?thesis
    using authorized_topic_refused [OF Inl] authorized_topic_iff [of c name policy r]
    by (auto simp: publish_command_def split: sum.splits)
next
  case (Inr t)
  show ?thesis
  proof (cases "opaque_payload api frame")
    case (Inl e)
    with Inr show ?thesis by (simp add: publish_command_def)
  next
    case payload: (Inr p)
    obtain res world' where q: "publish api node t p (fst world) (snd world) = (res, world')" by (rule prod.exhaust)
    have out: "\<exists>resp. publish_command api node policy c name frame r world = (resp, world') \<and>
        (status resp = StatusOk \<longleftrightarrow> res = Inr ())"
      using Inr payload q by (cases res) (simp_all add: publish_command_def split: publish_error.split)
    show ?thesis
      using out Inr [unfolded authorized_topic_iff] payload q by auto
  qed
qed

text \<open>
  Revocation is final: once a connection has been dropped, no \<^verbatim>\<open>sub/\<close> or \<^verbatim>\<open>pub/\<close> command under
  its id is ever accepted again, whatever the registry did in between and whatever the policies
  say, and such a command changes nothing.
\<close>

lemma dropped_caller_is_refused:
  assumes "(registry_step api)\<^sup>*\<^sup>* (drop_connection c r) r'" and "c < ConnectionId (next_connection r)"
  shows "status (fst (subscribe_command policy c name r')) \<in> {InvalidArgument, PermissionDenied} \<and>
    snd (subscribe_command policy c name r') = r' \<and>
    status (fst (publish_command api node publishing c name frame r' world)) \<in> {InvalidArgument, PermissionDenied} \<and>
    snd (publish_command api node publishing c name frame r' world) = world"
proof -
  have below: "c < ConnectionId (next_connection (drop_connection c r))" using assms(2) by simp
  have "member_identity c (drop_connection c r) = None"
    by (simp add: member_identity_def drop_connection_lookup)
  then have none: "member_identity c r' = None" using steps_identity [OF assms(1) below] by auto
  have refused: "\<exists>resp. authorized_topic c name a r' = Inl resp \<and> status resp \<in> {InvalidArgument, PermissionDenied}" for a
    using none by (auto simp: authorized_topic_def split: sum.split)
  obtain x y where "authorized_topic c name policy r' = Inl x" "status x \<in> {InvalidArgument, PermissionDenied}"
    and "authorized_topic c name publishing r' = Inl y" "status y \<in> {InvalidArgument, PermissionDenied}"
    using refused [of policy] refused [of publishing] by auto
  then show ?thesis by (simp add: subscribe_command_def publish_command_def)
qed

end
