(* ===== verification/Serve.thy ===== *)
theory Serve
  imports Dispatch
begin

text \<open>
  Serving one multiplexed connection (\<^verbatim>\<open>pubsub/tightbeam-pubsub/src/serve.rs\<close>) and the
  \<^verbatim>\<open>command_frame\<close> fixture of \<^verbatim>\<open>testing.rs\<close>. The upstream responder hands the handler one frame
  after another and ends with a transport result; between two frames the rest of the process
  runs, which is an arbitrary function of the world per frame. The application handler is a
  parameter and may use the world as well.
\<close>

text \<open>\<^verbatim>\<open>KEEPALIVE_INTERVAL\<close> in whole seconds, from the upstream default deadline.\<close>

definition KEEPALIVE_INTERVAL :: "nat \<Rightarrow> nat" where
  "KEEPALIVE_INTERVAL default_operation_timeout = default_operation_timeout div 3"

text \<open>
  \<^verbatim>\<open>keep_alive\<close>: the first tick is skipped, then one ping per tick until a ping fails. The result
  is the tick number of every ping sent and whether the task has ended.
\<close>

fun keep_alive_from :: "nat \<Rightarrow> answer list \<Rightarrow> nat list \<times> bool" where
  "keep_alive_from tick [] = ([], False)"
| "keep_alive_from tick (Inl _ # pings) = ([tick], True)"
| "keep_alive_from tick (Inr _ # pings) =
     (let (sent, ended) = keep_alive_from (tick + 1) pings in (tick # sent, ended))"

definition keep_alive :: "answer list \<Rightarrow> nat list \<times> bool" where
  "keep_alive pings = keep_alive_from 1 pings"

record 'h connection_context =
  connection :: connection_id
  context_handle :: 'h

type_synonym ('h, 'f) app_routes =
  "'h connection_context \<Rightarrow> 'f \<Rightarrow> ('h, 'f) world \<Rightarrow> 'f response_package \<times> ('h, 'f) world"

definition unrouted :: "('h, 'f) app_routes" where
  "unrouted ctx frame world = (\<lparr>status = Unimplemented, message = None\<rparr>, world)"

definition command_frame :: "'f frame_api \<Rightarrow> string \<Rightarrow> u64 \<Rightarrow> bytes \<Rightarrow> tightbeam_error + 'f" where
  "command_frame api ident order payload = build api ident order payload"

text \<open>The tasks of one served connection, and which of them were aborted.\<close>

datatype serve_task = ReaderTask | WriterTask | KeepAliveTask

text \<open>The handler closure: commands first, then the application.\<close>

definition serve_handler ::
  "'f frame_api \<Rightarrow> pubsub_commands \<Rightarrow> ('h, 'f) app_routes \<Rightarrow> 'h connection_context \<Rightarrow> 'f \<Rightarrow>
   ('h, 'f) world \<Rightarrow> 'f response_package \<times> ('h, 'f) world" where
  "serve_handler api commands app ctx frame world =
     (case answer api commands (connection ctx) frame world of
        (Some response, world') \<Rightarrow> (response, world')
      | (None, world') \<Rightarrow> app ctx frame world')"

text \<open>The responder's loop over the frames of the connection.\<close>

fun serve_frames ::
  "(('h, 'f) world \<Rightarrow> 'f \<Rightarrow> 'f response_package \<times> ('h, 'f) world) \<Rightarrow>
   ((('h, 'f) world \<Rightarrow> ('h, 'f) world) \<times> 'f) list \<Rightarrow> ('h, 'f) world \<Rightarrow>
   'f response_package list \<times> ('h, 'f) world" where
  "serve_frames handler [] world = ([], world)"
| "serve_frames handler ((others, frame) # events) world =
     (let (response, world') = handler (others world) frame;
          (responses, world'') = serve_frames handler events world'
      in (response # responses, world''))"

definition serve ::
  "'f frame_api \<Rightarrow> pubsub_commands \<Rightarrow> 'h \<Rightarrow> bytes option \<Rightarrow> ('h, 'f) app_routes \<Rightarrow>
   ((('h, 'f) world \<Rightarrow> ('h, 'f) world) \<times> 'f) list \<Rightarrow> (('h, 'f) world \<Rightarrow> ('h, 'f) world) \<Rightarrow>
   transport_error + unit \<Rightarrow> ('h, 'f) world \<Rightarrow>
   (transport_error + unit) \<times> 'f response_package list \<times> serve_task list \<times> ('h, 'f) world" where
  "serve api commands h ident app events rest outcome world =
     (case snd world (registry commands) of
        None \<Rightarrow> (outcome, [], [], world)
      | Some r \<Rightarrow>
          let running = [ReaderTask, WriterTask, KeepAliveTask];
              (c, r') = (case ident of
                           Some named \<Rightarrow> register_connection_as h named r
                         | None \<Rightarrow> register_connection h r);
              ctx = \<lparr>connection = c, context_handle = h\<rparr>;
              (responses, world') =
                serve_frames (\<lambda>w frame. serve_handler api commands app ctx frame w) events
                  (fst world, (snd world)(registry commands \<mapsto> r'));
              world'' = rest world';
              dropped = (case snd world'' (registry commands) of
                           None \<Rightarrow> world''
                         | Some q \<Rightarrow> (fst world'', (snd world'')(registry commands \<mapsto> drop_connection c q)));
              running = filter (\<lambda>t. t \<notin> {KeepAliveTask, ReaderTask, WriterTask}) running
          in (outcome, responses, running, dropped))"

definition serve_connection where
  "serve_connection api commands h app = serve api commands h None app"

definition serve_connection_as where
  "serve_connection_as api commands h named app = serve api commands h (Some named) app"

section \<open>Properties\<close>

lemma register_connection_id:
  "fst (case ident of Some named \<Rightarrow> register_connection_as h named r | None \<Rightarrow> register_connection h r) =
     ConnectionId (next_connection r)"
  by (simp add: register_connection_as_def register_connection_def admit_connection_def Let_def split: option.split)

lemma serve_frames_length: "length (fst (serve_frames f es w)) = length es"
proof (induction es arbitrary: w)
  case (Cons e es)
  obtain others frame where e: "e = (others, frame)" by (rule prod.exhaust)
  show ?case
    using Cons.IH [of "snd (f (others w) frame)"] by (simp add: e case_prod_beta Let_def)
qed simp

lemma serve_handler_node:
  "snd w 0 \<noteq> None \<Longrightarrow>
     snd (snd (serve_handler api (commands_new 0 policy) unrouted ctx frame w)) 0 \<noteq> None"
  by (auto simp: serve_handler_def answer_def commands_new_def unrouted_def Let_def
      split: option.splits prod.splits)

text \<open>
  C18. A served connection leaves nothing behind: whatever frames it sent, whatever the
  application and the rest of the process did meanwhile, and whether serving ended well or with
  a transport error, its connection is gone from the registry afterwards with every subscription
  it held, its tasks are stopped, and the outcome is passed on.
\<close>

theorem serve_cleans_up:
  assumes "snd world (registry commands) = Some r"
    and "serve api commands h ident app events rest outcome world = (result, responses, running, world')"
    and "snd world' (registry commands) = Some r'"
  shows "result = outcome \<and> running = [] \<and> length responses = length events \<and>
         ConnectionId (next_connection r) \<notin> connected r' \<and>
         (\<nexists>t. (ConnectionId (next_connection r), t) \<in> subscriptions r')"
proof -
  obtain c q where c: "(case ident of Some named \<Rightarrow> register_connection_as h named r
      | None \<Rightarrow> register_connection h r) = (c, q)" by fastforce
  with register_connection_id [where ident = ident and h = h and r = r] have id_c: "c = ConnectionId (next_connection r)" by simp
  let ?handler = "\<lambda>w frame. serve_handler api commands app \<lparr>connection = c, context_handle = h\<rparr> frame w"
  obtain rs w where rs: "serve_frames ?handler events (fst world, (snd world)(registry commands \<mapsto> q)) = (rs, w)"
    by (rule prod.exhaust)
  have "length rs = length events"
    using serve_frames_length [of ?handler events] rs by (metis fst_conv)
  moreover from assms(2) have out: "result = outcome" "responses = rs" "running = []"
    "world' = (case snd (rest w) (registry commands) of None \<Rightarrow> rest w
       | Some q \<Rightarrow> (fst (rest w), (snd (rest w))(registry commands \<mapsto> drop_connection c q)))"
    by (simp_all add: serve_def assms(1) c rs Let_def)
  moreover have "\<exists>q. r' = drop_connection c q"
    using assms(3) unfolding out(4) by (auto split: option.splits)
  ultimately show ?thesis by (auto simp: id_c subscriptions_drop)
qed

theorem serve_cleans_up_witness:
  "let commands = commands_new 0 allow_all_subscribe;
       world = (local_default, (\<lambda>n. if n = 0 then Some example_registry else None));
       frame = (as_bytes ''sub/news'', 1, []);
       out = serve plain_api commands 5 None unrouted [((\<lambda>w. w), frame)] (\<lambda>w. w) (Inl (OtherError ''reset'')) world;
       r' = the (snd (snd (snd (snd out))) 0)
   in ConnectionId 2 \<notin> connected r'"
proof -
  let ?commands = "commands_new 0 allow_all_subscribe"
  let ?world = "(local_default, (\<lambda>n. if n = 0 then Some example_registry else None)) :: (nat, bytes \<times> u64 \<times> bytes) world"
  let ?out = "serve plain_api ?commands 5 None unrouted [((\<lambda>w. w), (as_bytes ''sub/news'', 1, []))] (\<lambda>w. w)
      (Inl (OtherError ''reset'')) ?world"
  let ?w' = "snd (snd (snd ?out))"
  have out: "?out = (fst ?out, fst (snd ?out), fst (snd (snd ?out)), ?w')" by simp
  have here: "snd ?world (registry ?commands) = Some example_registry" by (simp add: commands_new_def)
  obtain c q where c: "register_connection 5 example_registry = (c, q)" by fastforce
  obtain resp w where w: "serve_handler plain_api ?commands unrouted \<lparr>connection = c, context_handle = 5\<rparr>
      (as_bytes ''sub/news'', 1, []) (local_default, (snd ?world)(0 \<mapsto> q)) = (resp, w)" by (rule prod.exhaust)
  have "snd (snd (serve_handler plain_api ?commands unrouted \<lparr>connection = c, context_handle = 5\<rparr>
      (as_bytes ''sub/news'', 1, []) (local_default, (snd ?world)(0 \<mapsto> q)))) 0 \<noteq> None"
    by (rule serve_handler_node) simp
  then have "snd w 0 \<noteq> None" unfolding w by simp
  then have "snd ?w' 0 \<noteq> None"
    using c w by (auto simp: serve_def commands_new_def split: option.splits)
  then obtain r' where r': "snd ?w' (registry ?commands) = Some r'" by (auto simp: commands_new_def)
  have "next_connection example_registry = 2" by (simp add: registry_eval)
  with serve_cleans_up [OF here out r'] r' show ?thesis
    unfolding Let_def by (simp add: commands_new_def)
qed

text \<open>
  The keepalive pings until the link fails: it sends one ping per tick from the second tick
  on, stops right after the first ping that fails, and ends only then.
\<close>

lemma keep_alive_stops_at_first_failure:
  "keep_alive pings =
     (let answered = takeWhile (\<lambda>p. \<not> isl p) pings; ended = (answered \<noteq> pings)
      in ([1 ..< 1 + length answered + (if ended then 1 else 0)], ended))"
proof -
  have "keep_alive_from k pings =
      ([k ..< k + length (takeWhile (\<lambda>p. \<not> isl p) pings) + (if takeWhile (\<lambda>p. \<not> isl p) pings \<noteq> pings then 1 else 0)],
       takeWhile (\<lambda>p. \<not> isl p) pings \<noteq> pings)" for k
    by (induction k pings rule: keep_alive_from.induct) (auto simp: Let_def upt_rec simp del: upt_Suc)
  then show ?thesis by (simp add: keep_alive_def Let_def)
qed

end
