(* ===== verification/World.thy ===== *)
theory World
  imports Serve
begin

text \<open>
  Several registries over one in-process backplane: nodes join and leave, serve their calls, publish
  and quiesce in any order. The composition of command dispatch, registry, backplane and fan-out: what
  an accepted \<^verbatim>\<open>pub/\<close> command does to every subscriber of every node.
\<close>

section \<open>Runs of all nodes\<close>

text \<open>
  A new node is a fresh allocation: the weak references of the backplane, dead ones included, keep
  their addresses from being used again.
\<close>

inductive world_step :: "'f frame_api \<Rightarrow> ('h, 'f) world \<Rightarrow> ('h, 'f) world \<Rightarrow> bool" for api where
  world_join: "w n = None \<Longrightarrow> n \<notin> set (sinks bp) \<Longrightarrow> world_step api (bp, w) (join_node n opts bp w)"
| world_leave: "world_step api (bp, w) (bp, w(n := None))"
| world_local: "w n = Some r \<Longrightarrow> registry_step api r r' \<Longrightarrow> world_step api (bp, w) (bp, w(n \<mapsto> r'))"
| world_publish: "publish api n t p bp w = (res, bp', w') \<Longrightarrow> world_step api (bp, w) (bp', w')"
| world_quiesce: "w n = Some r \<Longrightarrow> quiesce api reserve_order bp r = (res, bp', r') \<Longrightarrow> world_step api (bp, w) (bp', w(n \<mapsto> r'))"

definition world_reachable :: "'f frame_api \<Rightarrow> ('h, 'f) world \<Rightarrow> bool" where
  "world_reachable api world \<longleftrightarrow> (world_step api)\<^sup>*\<^sup>* (local_default, \<lambda>_. None) world"

text \<open>Every live node is attached, once, and keeps its registry's invariant.\<close>

definition world_inv :: "('h, 'f) world \<Rightarrow> bool" where
  "world_inv world \<longleftrightarrow> distinct (sinks (fst world)) \<and> dom (snd world) \<subseteq> set (sinks (fst world)) \<and>
     (\<forall>n r. snd world n = Some r \<longrightarrow> registry_inv r)"

section \<open>Distribution over nodes\<close>

lemma node_answers:
  "distinct ns \<Longrightarrow> answers node_upgrade (node_deliver api) t k p ns w =
     concat (map (\<lambda>m. case w m of None \<Rightarrow> [] | Some r \<Rightarrow> [(m, fst (deliver api t k p r))]) ns)"
proof (induction ns arbitrary: w)
  case (Cons n ns)
  show ?case
  proof (cases "w n")
    case None
    with Cons show ?thesis by (simp add: node_upgrade_def)
  next
    case (Some r)
    obtain x r' where d: "deliver api t k p r = (x, r')" by fastforce
    have same: "map (\<lambda>m. case (w(n \<mapsto> r')) m of None \<Rightarrow> [] | Some r \<Rightarrow> [(m, fst (deliver api t k p r))]) ns =
        map (\<lambda>m. case w m of None \<Rightarrow> [] | Some r \<Rightarrow> [(m, fst (deliver api t k p r))]) ns"
      using Cons.prems by (intro map_cong) auto
    have "answers node_upgrade (node_deliver api) t k p (n # ns) w =
        (n, x) # answers node_upgrade (node_deliver api) t k p ns (w(n \<mapsto> r'))"
      using Some d by (simp add: node_upgrade_def node_deliver_def)
    also have "answers node_upgrade (node_deliver api) t k p ns (w(n \<mapsto> r')) =
        concat (map (\<lambda>m. case w m of None \<Rightarrow> [] | Some r \<Rightarrow> [(m, fst (deliver api t k p r))]) ns)"
      unfolding same [symmetric] by (rule Cons.IH) (use Cons.prems in simp)
    finally show ?thesis using Some d by simp
  qed
qed simp

lemma node_answers_fst:
  "distinct ns \<Longrightarrow> map fst (answers node_upgrade (node_deliver api) t k p ns w) = filter (\<lambda>m. w m \<noteq> None) ns"
  unfolding node_answers by (induction ns) (auto split: option.splits)

lemma local_publish_sinks:
  assumes "local_publish node_upgrade (node_deliver api) t p bp w = (res, bp', w')" and "distinct (sinks bp)"
  shows "sinks bp' = filter (\<lambda>m. w m \<noteq> None) (sinks bp)"
  unfolding local_publish_answers(2) [OF assms(1)] by (simp add: node_answers_fst [OF assms(2)])

section \<open>The invariant\<close>

lemma quiesce_reserve_sinks:
  "sinks (snd (quiesce_reserve api reserve_order snap bp)) = sinks bp"
proof (induction snap arbitrary: bp)
  case (Cons q snap)
  obtain t ids where q: "q = (t, ids)" by fastforce
  obtain n bp1 where r: "reserve_order t bp = (n, bp1)" by fastforce
  then have "sinks bp1 = sinks bp" by (auto simp: reserve_order_def Let_def)
  with Cons.IH [of bp1] show ?case by (simp add: q r Let_def case_prod_beta split: sum.split)
qed simp

lemma quiesce_sinks:
  assumes "quiesce api reserve_order bp r = (res, bp', r')"
  shows "sinks bp' = sinks bp"
  using assms quiesce_reserve_sinks [of api _ bp]
  by (auto simp: quiesce_def Let_def split: if_splits prod.splits sum.splits) (metis snd_conv)+

lemma registry_inv_quiesce':
  "registry_inv r \<Longrightarrow> quiesce api reserve_order (bp :: nat local_state) r = (res, bp', r') \<Longrightarrow> registry_inv r'"
  using registry_inv_step [OF step_quiesce, of r api bp] by simp

lemma world_inv_publish:
  assumes inv: "world_inv (bp, w)" and pub: "publish api n t p bp w = (res, bp', w')"
  shows "world_inv (bp', w')"
proof (cases "bp' = bp \<and> w' = w")
  case False
  with pub obtain res' where local_pub: "local_publish node_upgrade (node_deliver api) t p bp w = (res', bp', w')"
    by (auto simp: publish_def Let_def split: option.splits if_splits prod.splits)
  have distinct: "distinct (sinks bp)" and live: "\<And>m q. w m = Some q \<Longrightarrow> m \<in> set (sinks bp)"
    and registries: "\<And>n r. w n = Some r \<Longrightarrow> registry_inv r"
    using inv by (auto simp: world_inv_def)
  note sinks = local_publish_sinks [OF local_pub distinct] and nodes = local_publish_nodes [OF local_pub distinct]
  have "registry_inv r'" if "w' m = Some r'" for m r'
    using that by (auto simp: nodes intro: registry_inv_deliver registries split: if_splits)
  moreover have "dom w' \<subseteq> set (sinks bp')"
    by (auto simp: nodes sinks dest: live split: if_splits)
  ultimately show ?thesis using distinct sinks by (auto simp: world_inv_def)
qed (use inv in simp)

lemma world_inv_step: "world_step api world world' \<Longrightarrow> world_inv world \<Longrightarrow> world_inv world'"
proof (induction rule: world_step.induct)
  case (world_join w n bp opts)
  then show ?case
    by (auto simp: world_inv_def join_node_def attach_def node_upgrade_def Let_def registry_inv_new split: if_splits)
next
  case (world_local w n r r' bp)
  then have "registry_inv r'" by (auto simp: world_inv_def intro: registry_inv_step)
  with world_local show ?case by (auto simp: world_inv_def)
next
  case (world_publish n t p bp w res bp' w')
  then show ?case using world_inv_publish by blast
next
  case (world_quiesce w n r bp res bp' r')
  then have "registry_inv r'" by (auto simp: world_inv_def intro: registry_inv_quiesce')
  with world_quiesce quiesce_sinks [OF world_quiesce(2)] show ?case by (auto simp: world_inv_def)
qed (auto simp: world_inv_def)

lemma world_inv_start: "world_inv (local_default, \<lambda>_. None)"
  by (simp add: world_inv_def local_default_def)

lemma world_reachable_inv:
  assumes "world_reachable api world"
  shows "world_inv world"
  using assms unfolding world_reachable_def
proof (induction rule: rtranclp_induct)
  case (step world world')
  then show ?case using world_inv_step by blast
qed (rule world_inv_start)

section \<open>Publishing\<close>

text \<open>A successful publish means that the update was built and every live node that is not draining took it.\<close>

lemma successful_publish_built:
  assumes inv: "world_inv (bp, w)" and here: "w n = Some r"
    and pub: "publish api n t p bp w = (Inr (), bp', w')"
  obtains u where "\<not> draining r" "update_frame api t (saturating_add (last_order_of bp t) 1) p = Inr u"
    "last_order_of bp' t = saturating_add (last_order_of bp t) 1"
    "\<And>m. w' m = map_option (\<lambda>q. snd (deliver api t (saturating_add (last_order_of bp t) 1) p q)) (w m)"
proof -
  let ?k = "saturating_add (last_order_of bp t) 1"
  have live: "\<not> draining r" using here pub by (auto simp: publish_def)
  have local_pub: "local_publish node_upgrade (node_deliver api) t p bp w = (Inr (), bp', w')"
    using pub here live by (auto simp: publish_def Let_def result_simps split: prod.splits)
  have distinct: "distinct (sinks bp)" and attached: "\<And>m q. w m = Some q \<Longrightarrow> m \<in> set (sinks bp)"
    using inv by (auto simp: world_inv_def)
  let ?rs = "answers node_upgrade (node_deliver api) t ?k p (sinks bp) w"
  have soft: "find is_hard (refusals ?rs) = None"
    using local_publish_answers(1) [OF local_pub] by (auto split: option.splits)
  have mine: "(n, fst (deliver api t ?k p r)) \<in> set ?rs"
    using attached [OF here] here unfolding node_answers [OF distinct] by force
  have "update_frame api t ?k p \<noteq> Inl e" for e
  proof
    assume "update_frame api t ?k p = Inl e"
    with live have "fst (deliver api t ?k p r) = Inl (Build e)" by (simp add: deliver_def)
    with mine have "Build e \<in> set (refusals ?rs)" by (force simp: refusals_def)
    with soft show False by (auto simp: find_None_iff is_hard_def)
  qed
  then obtain u where "update_frame api t ?k p = Inr u" by (cases "update_frame api t ?k p") auto
  moreover have "last_order_of bp' t = ?k" using local_bp.publish_next [OF local_pub] .
  moreover have "w' m = map_option (\<lambda>q. snd (deliver api t ?k p q)) (w m)" for m
    using local_publish_nodes [OF local_pub distinct, of m] attached [of m] by (cases "w m") auto
  ultimately show thesis using that live by blast
qed

text \<open>
  C8. A \<^verbatim>\<open>pub/\<close> command that is accepted reaches every subscriber of its topic, on every node: in any
  run of nodes that join, leave, serve, publish and quiesce over one backplane, an \<^verbatim>\<open>Ok\<close> answer means that
  the caller was registered and allowed, that one update frame with the command's payload was stamped
  with the topic's next order, and that each node which is not draining pushed exactly that frame to
  exactly its subscribers of the topic, dropping only the connections its delivery policy votes off.
\<close>

theorem accepted_publish_reaches_every_subscriber:
  assumes "world_reachable api (bp, w)" and "w (registry commands) = Some r"
    and "metadata_id api frame = as_bytes PUB_PREFIX @ name"
    and "answer api commands c frame (bp, w) = (Some resp, bp', w')" and "status resp = StatusOk"
  shows "\<exists>policy ident t payload u. publish_policy commands = Some policy \<and> topic_try_from name = Inr t \<and>
    member_identity c r = Some ident \<and> policy ident t = Allow \<and> \<not> draining r \<and>
    opaque_payload api frame = Inr payload \<and>
    update_frame api t (saturating_add (last_order_of bp t) 1) payload = Inr u \<and>
    last_order_of bp' t = saturating_add (last_order_of bp t) 1 \<and>
    (\<forall>m q. w m = Some q \<longrightarrow> (\<exists>q'. w' m = Some q' \<and>
       (if draining q then q' = q
        else connected q' = connected q - voted_off t u q \<and>
          (\<forall>i. map_of (subscribers (state q')) i =
            (case map_of (subscribers (state q)) i of None \<Rightarrow> None
             | Some s \<Rightarrow>
                 if sub_connection s \<in> voted_off t u q then None
                 else Some (if sub_topic s = t
                   then snd (push (queue_capacity (options q)) (delivery (options q)) u s) else s))))))"
proof -
  have inv: "world_inv (bp, w)" by (rule world_reachable_inv [OF assms(1)])
  have "strip_prefix (as_bytes SUB_PREFIX) (as_bytes PUB_PREFIX @ name) = None"
    "strip_prefix (as_bytes UNSUB_PREFIX) (as_bytes PUB_PREFIX @ name) = None"
    "strip_prefix (as_bytes PUB_PREFIX) (as_bytes PUB_PREFIX @ name) = Some name"
    by (simp_all add: SUB_PREFIX_def UNSUB_PREFIX_def PUB_PREFIX_def as_bytes_def)
  then obtain policy where policy: "publish_policy commands = Some policy"
    and cmd: "publish_command api (registry commands) policy c name frame r (bp, w) = (resp, bp', w')"
    using assms(2-4) by (auto simp: answer_def Let_def simp del: strip_prefix_Some split: option.splits prod.splits)
  obtain t ident payload where caller: "topic_try_from name = Inr t" "member_identity c r = Some ident" "policy ident t = Allow"
    "opaque_payload api frame = Inr payload"
    and pub: "publish api (registry commands) t payload bp w = (Inr (), bp', w')"
    using publish_command_guarded [where api = api and node = "registry commands" and policy = policy and c = c and name = name
      and frame = frame and r = r and world = "(bp, w)"] assms(5)
    by (auto simp: cmd) (metis prod.collapse)
  let ?k = "saturating_add (last_order_of bp t) 1"
  obtain u where u: "\<not> draining r" "update_frame api t ?k payload = Inr u" "last_order_of bp' t = ?k"
    "\<And>m. w' m = map_option (\<lambda>q. snd (deliver api t ?k payload q)) (w m)"
    using successful_publish_built [OF inv assms(2) pub] by blast
  have "\<exists>q'. w' m = Some q' \<and>
       (if draining q then q' = q
        else connected q' = connected q - voted_off t u q \<and>
          (\<forall>i. map_of (subscribers (state q')) i =
            (case map_of (subscribers (state q)) i of None \<Rightarrow> None
             | Some s \<Rightarrow>
                 if sub_connection s \<in> voted_off t u q then None
                 else Some (if sub_topic s = t
                   then snd (push (queue_capacity (options q)) (delivery (options q)) u s) else s))))"
    if q: "w m = Some q" for m q
  proof (cases "draining q")
    case True
    with q u(4) show ?thesis by (simp add: deliver_def)
  next
    case False
    have "registry_inv q" using inv q by (auto simp: world_inv_def)
    from deliver_members [OF this False u(2), of "fst (deliver api t ?k payload q)" "snd (deliver api t ?k payload q)"]
    show ?thesis using q u(4) False by simp
  qed
  with policy caller u(1-3) show ?thesis by blast
qed

text \<open>Two nodes, a publisher on the first and a subscriber on the second.\<close>

definition example_world :: "(nat, bytes \<times> u64 \<times> bytes) world" where
  "example_world =
     (\<lparr>orders = [], sinks = [0, 1]\<rparr>,
      [0 \<mapsto> snd (admit_connection 7 None (registry_new default_options)), 1 \<mapsto> example_registry])"

lemma example_world_reachable: "world_reachable plain_api example_world"
proof -
  let ?step = "world_step plain_api"
  let ?new = "registry_new default_options :: (nat, bytes \<times> u64 \<times> bytes) inner"
  let ?a = "snd (admit_connection 7 None ?new)"
  let ?b = "snd (register (ConnectionId 1) (Topic ''prices'') ?a)"
  have two: "?step\<^sup>*\<^sup>* (local_default, \<lambda>_. None) (\<lparr>orders = [], sinks = [0, 1]\<rparr>, [0 \<mapsto> ?new, 1 \<mapsto> ?new])"
  proof -
    have "?step (local_default, \<lambda>_. None) (\<lparr>orders = [], sinks = [0]\<rparr>, [0 \<mapsto> ?new])"
      using world_join [of "\<lambda>_. None" 0 local_default plain_api default_options]
      by (simp add: join_node_def attach_def local_default_def)
    moreover have "?step (\<lparr>orders = [], sinks = [0]\<rparr>, [0 \<mapsto> ?new]) (\<lparr>orders = [], sinks = [0, 1]\<rparr>, [0 \<mapsto> ?new, 1 \<mapsto> ?new])"
      using world_join [of "[0 \<mapsto> ?new]" 1 "\<lparr>orders = [], sinks = [0]\<rparr>" plain_api default_options]
      by (simp add: join_node_def attach_def node_upgrade_def Let_def)
    ultimately show ?thesis by (meson converse_rtranclp_into_rtranclp r_into_rtranclp)
  qed
  have admit: "registry_step plain_api ?new ?a" by (rule step_admit) (simp add: registry_new_def)
  have reg: "registry_step plain_api ?a ?b" by (rule step_register) (simp add: registry_eval)
  have reg': "registry_step plain_api ?b example_registry"
    unfolding example_registry_def register_connection_def by (rule step_register) (simp add: registry_eval)
  have node: "?step (bp, [0 \<mapsto> x, 1 \<mapsto> y]) (bp, [0 \<mapsto> x, 1 \<mapsto> y'])" if "registry_step plain_api y y'" for bp x y y'
    using world_local [of "[0 \<mapsto> x, 1 \<mapsto> y]" 1 y plain_api y' bp] that by simp
  have first: "?step (bp, [0 \<mapsto> ?new, 1 \<mapsto> y]) (bp, [0 \<mapsto> ?a, 1 \<mapsto> y])" for bp y
    using world_local [of "[0 \<mapsto> ?new, 1 \<mapsto> y]" 0 ?new plain_api ?a bp] admit by (simp add: fun_upd_twist)
  let ?bp = "\<lparr>orders = [], sinks = [0, 1]\<rparr> :: nat local_state"
  from two first have "?step\<^sup>*\<^sup>* (local_default, \<lambda>_. None) (?bp, [0 \<mapsto> ?a, 1 \<mapsto> ?new])" by (rule rtranclp.rtrancl_into_rtrancl)
  from this node [OF admit] have "?step\<^sup>*\<^sup>* (local_default, \<lambda>_. None) (?bp, [0 \<mapsto> ?a, 1 \<mapsto> ?a])" by (rule rtranclp.rtrancl_into_rtrancl)
  from this node [OF reg] have "?step\<^sup>*\<^sup>* (local_default, \<lambda>_. None) (?bp, [0 \<mapsto> ?a, 1 \<mapsto> ?b])" by (rule rtranclp.rtrancl_into_rtrancl)
  from this node [OF reg'] show ?thesis
    unfolding world_reachable_def example_world_def by (rule rtranclp.rtrancl_into_rtrancl)
qed

definition example_commands :: pubsub_commands where
  "example_commands = with_publish allow_all_publish (commands_new 0 allow_all_subscribe)"

lemma deliver_answer:
  "\<not> draining r \<Longrightarrow> update_frame api t k p = Inr u \<Longrightarrow> fst (deliver api t k p r) = Inr ()"
  by (simp add: deliver_def Let_def case_prod_beta)

lemma example_world_publish:
  "\<exists>bp' w'. publish plain_api 0 (Topic ''prices'') [5] (fst example_world) (snd example_world) = (Inr (), bp', w')"
proof -
  let ?bp = "fst example_world" and ?w = "snd example_world" and ?t = "Topic ''prices''"
  let ?a = "snd (admit_connection 7 None (registry_new default_options)) :: (nat, bytes \<times> u64 \<times> bytes) inner"
  have parts: "sinks ?bp = [0, 1]" "last_order_of ?bp ?t = 0" "?w 0 = Some ?a" "?w 1 = Some example_registry"
    by (simp_all add: example_world_def last_order_of_def)
  have live: "\<not> draining ?a" "\<not> draining example_registry" by (simp_all add: registry_eval)
  have u: "\<exists>u. update_frame plain_api ?t k [5] = Inr u" for k by (simp add: update_frame_def build_def plain_api_def)
  obtain res bp' w' where run: "local_publish node_upgrade (node_deliver plain_api) ?t [5] ?bp ?w = (res, bp', w')"
    by (rule prod_cases3)
  have "answers node_upgrade (node_deliver plain_api) ?t k [5] [0, 1] ?w = [(0, Inr ()), (1, Inr ())]" for k
  proof -
    obtain u where "update_frame plain_api ?t k [5] = Inr u" using u by blast
    with live have "fst (deliver plain_api ?t k [5] ?a) = Inr ()" "fst (deliver plain_api ?t k [5] example_registry) = Inr ()"
      by (auto intro: deliver_answer)
    then show ?thesis
      using node_answers [of "[0, 1]" plain_api ?t k "[5]" ?w] by (simp add: parts del: One_nat_def)
  qed
  then have "res = Inr ()"
    using local_publish_answers(1) [OF run] by (simp add: parts refusals_def)
  with run live show ?thesis by (simp add: publish_def parts result_simps)
qed

theorem accepted_publish_reaches_every_subscriber_witness:
  "\<exists>resp bp' w' q'. answer plain_api example_commands (ConnectionId 1) (as_bytes ''pub/prices'', 1, [5]) example_world =
       (Some resp, bp', w') \<and> status resp = StatusOk \<and> last_order_of bp' (Topic ''prices'') = 1 \<and> w' 1 = Some q' \<and>
     map_option (\<lambda>s. queue (lane s)) (map_of (subscribers (state q')) (SubscriberId 1)) =
        Some [(as_bytes ''prices'', 1, [5])]"
proof -
  let ?frame = "(as_bytes ''pub/prices'', 1, [5]) :: bytes \<times> u64 \<times> bytes"
  let ?bp = "fst example_world" and ?w = "snd example_world" and ?t = "Topic ''prices''"
  let ?a = "snd (admit_connection 7 None (registry_new default_options)) :: (nat, bytes \<times> u64 \<times> bytes) inner"
  have name: "topic_try_from (as_bytes ''prices'') = Inr ?t" by code_simp
  have ident: "metadata_id plain_api ?frame = as_bytes PUB_PREFIX @ as_bytes ''prices''"
    by (simp add: plain_api_def PUB_PREFIX_def as_bytes_def)
  have here: "?w (registry example_commands) = Some ?a"
    by (simp add: example_world_def example_commands_def with_publish_def commands_new_def)
  have member: "member_identity (ConnectionId 1) ?a = Some None" by (simp add: member_identity_def registry_eval)
  have node: "registry example_commands = 0" "publish_policy example_commands = Some allow_all_publish"
    by (simp_all add: example_commands_def with_publish_def commands_new_def)
  have auth: "authorized_topic (ConnectionId 1) (as_bytes ''prices'') allow_all_publish ?a = Inr ?t"
    by (simp add: authorized_topic_def name member allow_all_publish_def)
  have payload: "opaque_payload plain_api ?frame = Inr [5]" by (simp add: opaque_payload_def plain_api_def)
  obtain bp' w' where pub: "publish plain_api 0 ?t [5] ?bp ?w = (Inr (), bp', w')" using example_world_publish by blast
  have strip: "strip_prefix (as_bytes SUB_PREFIX) (as_bytes PUB_PREFIX @ as_bytes ''prices'') = None"
    "strip_prefix (as_bytes UNSUB_PREFIX) (as_bytes PUB_PREFIX @ as_bytes ''prices'') = None"
    "strip_prefix (as_bytes PUB_PREFIX) (as_bytes PUB_PREFIX @ as_bytes ''prices'') = Some (as_bytes ''prices'')"
    by (simp_all add: SUB_PREFIX_def UNSUB_PREFIX_def PUB_PREFIX_def as_bytes_def)
  have run: "answer plain_api example_commands (ConnectionId 1) ?frame (?bp, ?w) = (Some accepted, bp', w')"
    using here by (simp add: answer_def ident strip node publish_command_def auth payload pub del: strip_prefix_Some)
  have reach: "world_reachable plain_api (?bp, ?w)" using example_world_reachable by simp
  note all = accepted_publish_reaches_every_subscriber [OF reach here ident run response_simps(1)]
  have two: "?w 1 = Some example_registry" "last_order_of ?bp ?t = 0" by (simp_all add: example_world_def last_order_of_def)
  let ?u = "(as_bytes ''prices'', 1, [5]) :: bytes \<times> u64 \<times> bytes"
  have u: "update_frame plain_api ?t 1 [5] = Inr ?u" by (simp add: update_frame_def build_def plain_api_def)
  have off: "voted_off ?t ?u example_registry = {}"
    by (auto simp: voted_off_def registry_eval push_def drop_oldest_on_full_def)
  have live: "\<not> draining example_registry" by (simp add: registry_eval)
  have sub: "map_of (subscribers (state example_registry)) (SubscriberId 1) = Some (subscriber_new ?t (ConnectionId 1))"
    by (simp add: registry_eval)
  have one: "saturating_add 0 1 = (1 :: u64)" by (simp add: saturating_add_def)
  from all have order: "last_order_of bp' ?t = 1" by (auto simp: name two one)
  let ?nodes = "\<lambda>t u. \<forall>m q. ?w m = Some q \<longrightarrow> (\<exists>q'. w' m = Some q' \<and>
       (if draining q then q' = q
        else connected q' = connected q - voted_off t u q \<and>
          (\<forall>i. map_of (subscribers (state q')) i =
            (case map_of (subscribers (state q)) i of None \<Rightarrow> None
             | Some s \<Rightarrow>
                 if sub_connection s \<in> voted_off t u q then None
                 else Some (if sub_topic s = t
                   then snd (push (queue_capacity (options q)) (delivery (options q)) u s) else s)))))"
  have nodes: "?nodes ?t ?u"
  proof -
    from all obtain t' p' u' where found: "Inr ?t = Inr t'" "Inr [5] = Inr p'"
      "update_frame plain_api t' (saturating_add (last_order_of ?bp t') 1) p' = Inr u'" and rest: "?nodes t' u'"
      unfolding name payload by blast
    from found u have eq: "t' = ?t" "u' = ?u" by (auto simp: two one)
    from rest show ?thesis unfolding eq .
  qed
  from nodes [rule_format, OF two(1), unfolded off] obtain q' where q': "w' 1 = Some q'"
    and lanes: "map_of (subscribers (state q')) (SubscriberId 1) =
      (case Some (subscriber_new ?t (ConnectionId 1)) of None \<Rightarrow> None
       | Some s \<Rightarrow> if sub_connection s \<in> {} then None
          else Some (if sub_topic s = ?t
            then snd (push (queue_capacity (options example_registry)) (delivery (options example_registry)) ?u s) else s))"
    unfolding if_not_P [OF live] sub [symmetric] by blast
  have "map_option (\<lambda>s. queue (lane s)) (map_of (subscribers (state q')) (SubscriberId 1)) = Some [?u]"
    unfolding lanes by (simp add: registry_eval push_def)
  with run q' order show ?thesis by (intro exI [of _ accepted]) simp
qed

end
