(* ===== verification/Memory_Link.thy ===== *)
theory Memory_Link
  imports Serve
begin

text \<open>
  The in-memory link of \<^verbatim>\<open>pubsub/tightbeam-pubsub/src/testing.rs\<close>: two bounded channels that connect a client
  and a server mux. A pending \<^verbatim>\<open>recv\<close> or \<^verbatim>\<open>send\<close> is \<open>None\<close>. Both ends of both directions act in any order.
\<close>

definition LINK_DEPTH :: nat where "LINK_DEPTH = 64"

datatype link_error = ConnectionClosed

record 'e direction =
  envelopes :: "'e list"
  source_open :: bool
  sink_open :: bool

definition channel :: "'e direction" where
  "channel = \<lparr>envelopes = [], source_open = True, sink_open = True\<rparr>"

text \<open>A receiver drains what is queued before it sees that the sender is gone.\<close>

definition read_envelope :: "'e direction \<Rightarrow> ((link_error + 'e) \<times> 'e direction) option" where
  "read_envelope d =
     (case envelopes d of
        e # es \<Rightarrow> Some (Inr e, d\<lparr>envelopes := es\<rparr>)
      | [] \<Rightarrow> if sink_open d then None else Some (Inl ConnectionClosed, d))"

definition write_envelope :: "'e \<Rightarrow> 'e direction \<Rightarrow> ((link_error + unit) \<times> 'e direction) option" where
  "write_envelope e d =
     (if \<not> source_open d then Some (Inl ConnectionClosed, d)
      else if length (envelopes d) < LINK_DEPTH then Some (Inr (), d\<lparr>envelopes := envelopes d @ [e]\<rparr>)
      else None)"

definition remaining_records :: u64 where "remaining_records = - 1"

text \<open>One end of the pair: the direction it reads and the one it writes, with its role and stream cap.\<close>

datatype link_role = LinkClient | LinkServer

record 'd mux_end =
  reads :: 'd
  writes :: 'd
  end_role :: link_role
  end_cap :: u32

datatype lane_name = ToServer | ToClient

definition memory_mux_pair :: "u32 \<Rightarrow> lane_name mux_end \<times> lane_name mux_end \<times> (lane_name \<Rightarrow> 'e direction)" where
  "memory_mux_pair cap =
     (\<lparr>reads = ToClient, writes = ToServer, end_role = LinkClient, end_cap = cap\<rparr>,
      \<lparr>reads = ToServer, writes = ToClient, end_role = LinkServer, end_cap = cap\<rparr>,
      (\<lambda>_. channel))"

section \<open>Runs\<close>

text \<open>What was written and read on one direction, in order; either end may be dropped.\<close>

inductive link_run :: "'e list \<Rightarrow> 'e list \<Rightarrow> 'e direction \<Rightarrow> bool" where
  link_start: "link_run [] [] channel"
| link_write: "link_run ws rs d \<Longrightarrow> write_envelope e d = Some (Inr (), d') \<Longrightarrow> link_run (ws @ [e]) rs d'"
| link_read: "link_run ws rs d \<Longrightarrow> read_envelope d = Some (Inr e, d') \<Longrightarrow> link_run ws (rs @ [e]) d'"
| link_sink_dropped: "link_run ws rs d \<Longrightarrow> link_run ws rs (d\<lparr>sink_open := False\<rparr>)"
| link_source_dropped: "link_run ws rs d \<Longrightarrow> link_run ws rs (d\<lparr>source_open := False\<rparr>)"

text \<open>
  The link is a bounded FIFO: what was read is a prefix of what was written, the rest is queued, and
  at most \<^verbatim>\<open>LINK_DEPTH\<close> envelopes wait. A writer waits exactly when the queue is full and the reader is
  there, a reader waits exactly when the queue is empty and the writer is there; a reader sees the
  closed link only after everything that was written.
\<close>

lemma link_is_bounded_fifo:
  assumes "link_run ws rs d"
  shows "ws = rs @ envelopes d \<and> length (envelopes d) \<le> LINK_DEPTH \<and>
    (write_envelope e d = None \<longleftrightarrow> source_open d \<and> length (envelopes d) = LINK_DEPTH) \<and>
    (read_envelope d = None \<longleftrightarrow> ws = rs \<and> sink_open d) \<and>
    ((\<exists>d'. read_envelope d = Some (Inl ConnectionClosed, d')) \<longleftrightarrow> ws = rs \<and> \<not> sink_open d)"
proof -
  have "ws = rs @ envelopes d \<and> length (envelopes d) \<le> LINK_DEPTH"
    using assms
    by (induction) (auto simp: channel_def write_envelope_def read_envelope_def split: if_splits list.splits)
  then show ?thesis by (auto simp: write_envelope_def read_envelope_def split: list.split)
qed

text \<open>The pair is wired crosswise: what one end writes the other reads.\<close>

lemma memory_pair_crosswise:
  "memory_mux_pair cap = (client, server, lanes) \<Longrightarrow>
     writes client = reads server \<and> writes server = reads client \<and> writes client \<noteq> writes server \<and>
     end_cap client = end_cap server \<and> lanes (writes client) = channel"
  by (auto simp: memory_mux_pair_def)

end
