(* ===== verification/Js_Value.thy ===== *)
theory Js_Value
  imports Prelude Complex_Main
begin

text \<open>
  The JavaScript value helpers (\<^verbatim>\<open>asn/tightbeam-asn/src/js.rs\<close>). A JavaScript value is a tree of
  plain data; an object is its own enumerable string properties in insertion order, and reading a
  name that is no own property yields \<^verbatim>\<open>undefined\<close> (properties inherited from a prototype are not
  modelled). \<^verbatim>\<open>Reflect.set\<close> on a fresh object is the updated object. A finite \<^verbatim>\<open>f64\<close> is the
  rational it denotes. The values and constructors of the \<^verbatim>\<open>der\<close> crate are the fields of
  \<open>der_api\<close>, a parameter.
\<close>

datatype js_number = NaN | Infinity | NegInfinity | Finite rat

datatype js_value =
    JUndefined
  | JNull
  | JBool bool
  | JNumber js_number
  | JBigInt int
  | JString string
  | JUint8Array bytes
  | JArray "js_value list"
  | JObject "(string \<times> js_value) list"

text \<open>\<^verbatim>\<open>der::Error\<close>: the kind this crate raises, and whatever the \<^verbatim>\<open>der\<close> crate raises.\<close>

datatype der_error = Failed | DerFailure string

text \<open>
  The \<^verbatim>\<open>der\<close> crate's owned types, as one opaque type \<open>'d\<close>, with the constructors and projections
  the helpers call, and the text of its errors.
\<close>

record 'd der_api =
  oid_new :: "string \<Rightarrow> der_error + 'd"
  oid_text :: "'d \<Rightarrow> string"
  any_from_der :: "bytes \<Rightarrow> der_error + 'd"
  any_to_der :: "'d \<Rightarrow> der_error + bytes"
  bitstring_new :: "u8 \<Rightarrow> bytes \<Rightarrow> der_error + 'd"
  bitstring_unused :: "'d \<Rightarrow> u8"
  bitstring_raw :: "'d \<Rightarrow> bytes"
  datetime_from_str :: "string \<Rightarrow> der_error + 'd"
  utc_from_datetime :: "'d \<Rightarrow> der_error + 'd"
  utc_text :: "'d \<Rightarrow> string"
  generalized_from_datetime :: "'d \<Rightarrow> 'd"
  generalized_text :: "'d \<Rightarrow> string"
  ia5_new :: "string \<Rightarrow> der_error + 'd"
  ia5_text :: "'d \<Rightarrow> string"
  printable_new :: "string \<Rightarrow> der_error + 'd"
  printable_text :: "'d \<Rightarrow> string"
  teletex_new :: "string \<Rightarrow> der_error + 'd"
  teletex_text :: "'d \<Rightarrow> string"
  bmp_from_utf8 :: "string \<Rightarrow> der_error + 'd"
  bmp_text :: "'d \<Rightarrow> string"
  octets_new :: "bytes \<Rightarrow> der_error + 'd"
  octets_bytes :: "'d \<Rightarrow> bytes"
  error_text :: "der_error \<Rightarrow> string"

section \<open>Reflection\<close>

text \<open>The name of an array index, in decimal.\<close>

fun index_name :: "nat \<Rightarrow> string" where
  "index_name n =
     (if n < 10 then [char_of (48 + n)] else index_name (n div 10) @ [char_of (48 + n mod 10)])"

declare index_name.simps [simp del]

definition element :: "js_value list \<Rightarrow> string \<Rightarrow> js_value" where
  "element vs name =
     (case find (\<lambda>i. index_name i = name) [0 ..< length vs] of None \<Rightarrow> JUndefined | Some i \<Rightarrow> vs ! i)"

definition number_of_unsigned :: "'w::len word \<Rightarrow> js_number" where
  "number_of_unsigned w = Finite (of_int (uint w))"

definition number_of_signed :: "'w::len word \<Rightarrow> js_number" where
  "number_of_signed w = Finite (of_int (sint w))"

fun reflect_get :: "js_value \<Rightarrow> string \<Rightarrow> der_error + js_value" where
  "reflect_get (JObject entries) name =
     Inr (case map_of entries name of None \<Rightarrow> JUndefined | Some v \<Rightarrow> v)"
| "reflect_get (JArray vs) name =
     Inr (if name = ''length'' then JNumber (Finite (of_nat (length vs))) else element vs name)"
| "reflect_get (JUint8Array b) name =
     Inr (if name = ''length'' then JNumber (Finite (of_nat (length b)))
          else element (map (\<lambda>w. JNumber (number_of_unsigned w)) b) name)"
| "reflect_get _ name = Inl Failed"

fun reflect_set :: "js_value \<Rightarrow> string \<Rightarrow> js_value \<Rightarrow> der_error + js_value" where
  "reflect_set (JObject entries) name v = Inr (JObject (AList.update name v entries))"
| "reflect_set _ name v = Inl Failed"

definition is_nullish :: "js_value \<Rightarrow> bool" where
  "is_nullish v \<longleftrightarrow> v = JUndefined \<or> v = JNull"

definition object_field :: "js_value \<Rightarrow> string \<Rightarrow> der_error + js_value" where
  "object_field v name =
     and_then (reflect_get v name) (\<lambda>field. if is_nullish field then Inl Failed else Inr field)"

definition optional_field :: "js_value \<Rightarrow> string \<Rightarrow> der_error + js_value option" where
  "optional_field v name =
     and_then (reflect_get v name) (\<lambda>field. if is_nullish field then Inr None else Inr (Some field))"

section \<open>Interpreting values\<close>

fun as_string :: "js_value \<Rightarrow> der_error + string" where
  "as_string (JString s) = Inr s"
| "as_string _ = Inl Failed"

fun as_octets :: "js_value \<Rightarrow> der_error + bytes" where
  "as_octets (JUint8Array b) = Inr b"
| "as_octets _ = Inl Failed"

fun as_number :: "js_value \<Rightarrow> der_error + js_number" where
  "as_number (JNumber n) = Inr n"
| "as_number _ = Inl Failed"

fun as_bool :: "js_value \<Rightarrow> der_error + bool" where
  "as_bool (JBool b) = Inr b"
| "as_bool _ = Inl Failed"

definition as_null :: "js_value \<Rightarrow> der_error + unit" where
  "as_null v = (if v = JNull then Inr () else Inl Failed)"

fun as_bigint :: "js_value \<Rightarrow> der_error + int" where
  "as_bigint (JBigInt i) = Inr i"
| "as_bigint _ = Inl Failed"

definition fract :: "rat \<Rightarrow> rat" where
  "fract x = x - of_int (if x < 0 then \<lceil>x\<rceil> else \<lfloor>x\<rfloor>)"

fun f64_as_unsigned :: "js_number \<Rightarrow> rat \<Rightarrow> der_error + rat" where
  "f64_as_unsigned (Finite number) most =
     (if fract number \<noteq> 0 then Inl Failed
      else if number < 0 \<or> number > most then Inl Failed else Inr number)"
| "f64_as_unsigned _ most = Inl Failed"

fun f64_as_signed :: "js_number \<Rightarrow> rat \<Rightarrow> rat \<Rightarrow> der_error + rat" where
  "f64_as_signed (Finite number) least most =
     (if fract number \<noteq> 0 then Inl Failed
      else if number < least \<or> number > most then Inl Failed else Inr number)"
| "f64_as_signed _ least most = Inl Failed"

text \<open>The \<^verbatim>\<open>as\<close> cast of a whole number to an integer type.\<close>

definition cast :: "rat \<Rightarrow> 'w::len word" where
  "cast x = word_of_int \<lfloor>x\<rfloor>"

definition as_unsigned :: "rat \<Rightarrow> js_value \<Rightarrow> der_error + 'w::len word" where
  "as_unsigned most v =
     and_then (as_number v) (\<lambda>n. and_then (f64_as_unsigned n most) (\<lambda>x. Inr (cast x)))"

definition as_signed :: "rat \<Rightarrow> rat \<Rightarrow> js_value \<Rightarrow> der_error + 'w::len word" where
  "as_signed least most v =
     and_then (as_number v) (\<lambda>n. and_then (f64_as_signed n least most) (\<lambda>x. Inr (cast x)))"

definition as_u8 :: "js_value \<Rightarrow> der_error + 8 word" where "as_u8 v = as_unsigned 255 v"
definition as_u16 :: "js_value \<Rightarrow> der_error + 16 word" where "as_u16 v = as_unsigned 65535 v"
definition as_u32 :: "js_value \<Rightarrow> der_error + 32 word" where "as_u32 v = as_unsigned 4294967295 v"
definition as_i8 :: "js_value \<Rightarrow> der_error + 8 word" where "as_i8 v = as_signed (- 128) 127 v"
definition as_i16 :: "js_value \<Rightarrow> der_error + 16 word" where "as_i16 v = as_signed (- 32768) 32767 v"
definition as_i32 :: "js_value \<Rightarrow> der_error + 32 word" where
  "as_i32 v = as_signed (- 2147483648) 2147483647 v"

definition as_u64 :: "js_value \<Rightarrow> der_error + 64 word" where
  "as_u64 v = and_then (as_bigint v)
     (\<lambda>i. if 0 \<le> i \<and> i < 2 ^ 64 then Inr (word_of_int i) else Inl Failed)"

definition as_i64 :: "js_value \<Rightarrow> der_error + 64 word" where
  "as_i64 v = and_then (as_bigint v)
     (\<lambda>i. if - (2 ^ 63) \<le> i \<and> i < 2 ^ 63 then Inr (word_of_int i) else Inl Failed)"

definition as_oid :: "'d der_api \<Rightarrow> js_value \<Rightarrow> der_error + 'd" where
  "as_oid der v = and_then (as_string v) (oid_new der)"

definition as_any :: "'d der_api \<Rightarrow> js_value \<Rightarrow> der_error + 'd" where
  "as_any der v = and_then (as_octets v) (any_from_der der)"

definition u8_field :: "js_value \<Rightarrow> string \<Rightarrow> der_error + 8 word" where
  "u8_field v name = and_then (object_field v name) as_u8"

definition octet_field :: "js_value \<Rightarrow> string \<Rightarrow> der_error + bytes" where
  "octet_field v name = and_then (object_field v name) as_octets"

definition as_bitstring :: "'d der_api \<Rightarrow> js_value \<Rightarrow> der_error + 'd" where
  "as_bitstring der v =
     and_then (u8_field v ''unusedBits'') (\<lambda>unused.
     and_then (octet_field v ''bytes'') (\<lambda>b. bitstring_new der unused b))"

definition as_utc_time :: "'d der_api \<Rightarrow> js_value \<Rightarrow> der_error + 'd" where
  "as_utc_time der v =
     and_then (as_string v) (\<lambda>text. and_then (datetime_from_str der text) (utc_from_datetime der))"

definition as_generalized_time :: "'d der_api \<Rightarrow> js_value \<Rightarrow> der_error + 'd" where
  "as_generalized_time der v =
     and_then (as_string v) (\<lambda>text.
     and_then (datetime_from_str der text) (\<lambda>datetime. Inr (generalized_from_datetime der datetime)))"

definition as_ia5_string :: "'d der_api \<Rightarrow> js_value \<Rightarrow> der_error + 'd" where
  "as_ia5_string der v = and_then (as_string v) (ia5_new der)"

definition as_printable_string :: "'d der_api \<Rightarrow> js_value \<Rightarrow> der_error + 'd" where
  "as_printable_string der v = and_then (as_string v) (printable_new der)"

definition as_teletex_string :: "'d der_api \<Rightarrow> js_value \<Rightarrow> der_error + 'd" where
  "as_teletex_string der v = and_then (as_string v) (teletex_new der)"

definition as_bmp_string :: "'d der_api \<Rightarrow> js_value \<Rightarrow> der_error + 'd" where
  "as_bmp_string der v = and_then (as_string v) (bmp_from_utf8 der)"

fun as_array :: "js_value \<Rightarrow> der_error + js_value list" where
  "as_array (JArray vs) = Inr vs"
| "as_array _ = Inl Failed"

definition as_array_len :: "js_value \<Rightarrow> nat \<Rightarrow> der_error + js_value list" where
  "as_array_len v expected =
     and_then (as_array v) (\<lambda>vs. if length vs \<noteq> expected then Inl Failed else Inr vs)"

section \<open>Reading fields\<close>

definition string_field :: "js_value \<Rightarrow> string \<Rightarrow> der_error + string" where
  "string_field v name = and_then (object_field v name) as_string"

definition array_field :: "js_value \<Rightarrow> string \<Rightarrow> der_error + js_value list" where
  "array_field v name = and_then (object_field v name) as_array"

definition number_field :: "js_value \<Rightarrow> string \<Rightarrow> der_error + js_number" where
  "number_field v name = and_then (object_field v name) as_number"

definition bool_field :: "js_value \<Rightarrow> string \<Rightarrow> der_error + bool" where
  "bool_field v name = and_then (object_field v name) as_bool"

definition null_field :: "js_value \<Rightarrow> string \<Rightarrow> der_error + unit" where
  "null_field v name = and_then (reflect_get v name) as_null"

definition i8_field :: "js_value \<Rightarrow> string \<Rightarrow> der_error + 8 word" where
  "i8_field v name = and_then (object_field v name) as_i8"

definition u16_field :: "js_value \<Rightarrow> string \<Rightarrow> der_error + 16 word" where
  "u16_field v name = and_then (object_field v name) as_u16"

definition i16_field :: "js_value \<Rightarrow> string \<Rightarrow> der_error + 16 word" where
  "i16_field v name = and_then (object_field v name) as_i16"

definition u32_field :: "js_value \<Rightarrow> string \<Rightarrow> der_error + 32 word" where
  "u32_field v name = and_then (object_field v name) as_u32"

definition i32_field :: "js_value \<Rightarrow> string \<Rightarrow> der_error + 32 word" where
  "i32_field v name = and_then (object_field v name) as_i32"

definition u64_field :: "js_value \<Rightarrow> string \<Rightarrow> der_error + 64 word" where
  "u64_field v name = and_then (object_field v name) as_u64"

definition i64_field :: "js_value \<Rightarrow> string \<Rightarrow> der_error + 64 word" where
  "i64_field v name = and_then (object_field v name) as_i64"

definition oid_field :: "'d der_api \<Rightarrow> js_value \<Rightarrow> string \<Rightarrow> der_error + 'd" where
  "oid_field der v name = and_then (object_field v name) (as_oid der)"

definition any_field :: "'d der_api \<Rightarrow> js_value \<Rightarrow> string \<Rightarrow> der_error + 'd" where
  "any_field der v name = and_then (object_field v name) (as_any der)"

definition bitstring_field :: "'d der_api \<Rightarrow> js_value \<Rightarrow> string \<Rightarrow> der_error + 'd" where
  "bitstring_field der v name = and_then (object_field v name) (as_bitstring der)"

definition utc_time_field :: "'d der_api \<Rightarrow> js_value \<Rightarrow> string \<Rightarrow> der_error + 'd" where
  "utc_time_field der v name = and_then (object_field v name) (as_utc_time der)"

definition generalized_time_field :: "'d der_api \<Rightarrow> js_value \<Rightarrow> string \<Rightarrow> der_error + 'd" where
  "generalized_time_field der v name = and_then (object_field v name) (as_generalized_time der)"

definition ia5_string_field :: "'d der_api \<Rightarrow> js_value \<Rightarrow> string \<Rightarrow> der_error + 'd" where
  "ia5_string_field der v name = and_then (object_field v name) (as_ia5_string der)"

definition printable_string_field :: "'d der_api \<Rightarrow> js_value \<Rightarrow> string \<Rightarrow> der_error + 'd" where
  "printable_string_field der v name = and_then (object_field v name) (as_printable_string der)"

definition teletex_string_field :: "'d der_api \<Rightarrow> js_value \<Rightarrow> string \<Rightarrow> der_error + 'd" where
  "teletex_string_field der v name = and_then (object_field v name) (as_teletex_string der)"

definition bmp_string_field :: "'d der_api \<Rightarrow> js_value \<Rightarrow> string \<Rightarrow> der_error + 'd" where
  "bmp_string_field der v name = and_then (object_field v name) (as_bmp_string der)"

section \<open>Projecting values\<close>

definition from_u8 :: "8 word \<Rightarrow> js_value" where "from_u8 w = JNumber (number_of_unsigned w)"
definition from_u16 :: "16 word \<Rightarrow> js_value" where "from_u16 w = JNumber (number_of_unsigned w)"
definition from_u32 :: "32 word \<Rightarrow> js_value" where "from_u32 w = JNumber (number_of_unsigned w)"
definition from_i8 :: "8 word \<Rightarrow> js_value" where "from_i8 w = JNumber (number_of_signed w)"
definition from_i16 :: "16 word \<Rightarrow> js_value" where "from_i16 w = JNumber (number_of_signed w)"
definition from_i32 :: "32 word \<Rightarrow> js_value" where "from_i32 w = JNumber (number_of_signed w)"
definition from_u64 :: "64 word \<Rightarrow> js_value" where "from_u64 w = JBigInt (uint w)"
definition from_i64 :: "64 word \<Rightarrow> js_value" where "from_i64 w = JBigInt (sint w)"
definition from_bool :: "bool \<Rightarrow> js_value" where "from_bool b = JBool b"
definition from_null :: "unit \<Rightarrow> js_value" where "from_null n = JNull"
definition from_octets :: "bytes \<Rightarrow> js_value" where "from_octets b = JUint8Array b"

definition object :: "der_error + js_value" where "object = Inr (JObject [])"
definition array :: "js_value list" where "array = []"

definition set_object :: "js_value \<Rightarrow> string \<Rightarrow> js_value \<Rightarrow> der_error + js_value" where
  "set_object obj name v = reflect_set obj name v"

definition set_string :: "js_value \<Rightarrow> string \<Rightarrow> string \<Rightarrow> der_error + js_value" where
  "set_string obj name s = reflect_set obj name (JString s)"

definition set_octets :: "js_value \<Rightarrow> string \<Rightarrow> bytes \<Rightarrow> der_error + js_value" where
  "set_octets obj name b = reflect_set obj name (from_octets b)"

definition set_array :: "js_value \<Rightarrow> string \<Rightarrow> js_value list \<Rightarrow> der_error + js_value" where
  "set_array obj name vs = reflect_set obj name (JArray vs)"

definition set_number :: "js_value \<Rightarrow> string \<Rightarrow> js_number \<Rightarrow> der_error + js_value" where
  "set_number obj name n = reflect_set obj name (JNumber n)"

definition set_u8 :: "js_value \<Rightarrow> string \<Rightarrow> 8 word \<Rightarrow> der_error + js_value" where
  "set_u8 obj name w = set_number obj name (number_of_unsigned w)"
definition set_u16 :: "js_value \<Rightarrow> string \<Rightarrow> 16 word \<Rightarrow> der_error + js_value" where
  "set_u16 obj name w = set_number obj name (number_of_unsigned w)"
definition set_u32 :: "js_value \<Rightarrow> string \<Rightarrow> 32 word \<Rightarrow> der_error + js_value" where
  "set_u32 obj name w = set_number obj name (number_of_unsigned w)"
definition set_i8 :: "js_value \<Rightarrow> string \<Rightarrow> 8 word \<Rightarrow> der_error + js_value" where
  "set_i8 obj name w = set_number obj name (number_of_signed w)"
definition set_i16 :: "js_value \<Rightarrow> string \<Rightarrow> 16 word \<Rightarrow> der_error + js_value" where
  "set_i16 obj name w = set_number obj name (number_of_signed w)"
definition set_i32 :: "js_value \<Rightarrow> string \<Rightarrow> 32 word \<Rightarrow> der_error + js_value" where
  "set_i32 obj name w = set_number obj name (number_of_signed w)"
definition set_u64 :: "js_value \<Rightarrow> string \<Rightarrow> 64 word \<Rightarrow> der_error + js_value" where
  "set_u64 obj name w = reflect_set obj name (from_u64 w)"
definition set_i64 :: "js_value \<Rightarrow> string \<Rightarrow> 64 word \<Rightarrow> der_error + js_value" where
  "set_i64 obj name w = reflect_set obj name (from_i64 w)"
definition set_bool :: "js_value \<Rightarrow> string \<Rightarrow> bool \<Rightarrow> der_error + js_value" where
  "set_bool obj name b = reflect_set obj name (from_bool b)"
definition set_null :: "js_value \<Rightarrow> string \<Rightarrow> unit \<Rightarrow> der_error + js_value" where
  "set_null obj name n = reflect_set obj name (from_null n)"

definition from_oid :: "'d der_api \<Rightarrow> 'd \<Rightarrow> js_value" where "from_oid der d = JString (oid_text der d)"

definition from_any :: "'d der_api \<Rightarrow> 'd \<Rightarrow> der_error + js_value" where
  "from_any der d = and_then (any_to_der der d) (\<lambda>b. Inr (from_octets b))"

definition from_bitstring :: "'d der_api \<Rightarrow> 'd \<Rightarrow> der_error + js_value" where
  "from_bitstring der d =
     and_then object (\<lambda>obj.
     and_then (set_u8 obj ''unusedBits'' (bitstring_unused der d)) (\<lambda>obj.
     set_octets obj ''bytes'' (bitstring_raw der d)))"

definition from_utc_time :: "'d der_api \<Rightarrow> 'd \<Rightarrow> js_value" where
  "from_utc_time der d = JString (utc_text der d)"
definition from_generalized_time :: "'d der_api \<Rightarrow> 'd \<Rightarrow> js_value" where
  "from_generalized_time der d = JString (generalized_text der d)"
definition from_ia5_string :: "'d der_api \<Rightarrow> 'd \<Rightarrow> js_value" where
  "from_ia5_string der d = JString (ia5_text der d)"
definition from_printable_string :: "'d der_api \<Rightarrow> 'd \<Rightarrow> js_value" where
  "from_printable_string der d = JString (printable_text der d)"
definition from_teletex_string :: "'d der_api \<Rightarrow> 'd \<Rightarrow> js_value" where
  "from_teletex_string der d = JString (teletex_text der d)"
definition from_bmp_string :: "'d der_api \<Rightarrow> 'd \<Rightarrow> js_value" where
  "from_bmp_string der d = JString (bmp_text der d)"

definition set_oid :: "'d der_api \<Rightarrow> js_value \<Rightarrow> string \<Rightarrow> 'd \<Rightarrow> der_error + js_value" where
  "set_oid der obj name d = set_string obj name (oid_text der d)"
definition set_any :: "'d der_api \<Rightarrow> js_value \<Rightarrow> string \<Rightarrow> 'd \<Rightarrow> der_error + js_value" where
  "set_any der obj name d = and_then (from_any der d) (\<lambda>encoded. set_object obj name encoded)"
definition set_bitstring :: "'d der_api \<Rightarrow> js_value \<Rightarrow> string \<Rightarrow> 'd \<Rightarrow> der_error + js_value" where
  "set_bitstring der obj name d = and_then (from_bitstring der d) (\<lambda>encoded. set_object obj name encoded)"
definition set_utc_time :: "'d der_api \<Rightarrow> js_value \<Rightarrow> string \<Rightarrow> 'd \<Rightarrow> der_error + js_value" where
  "set_utc_time der obj name d = set_string obj name (utc_text der d)"
definition set_generalized_time :: "'d der_api \<Rightarrow> js_value \<Rightarrow> string \<Rightarrow> 'd \<Rightarrow> der_error + js_value" where
  "set_generalized_time der obj name d = set_string obj name (generalized_text der d)"
definition set_ia5_string :: "'d der_api \<Rightarrow> js_value \<Rightarrow> string \<Rightarrow> 'd \<Rightarrow> der_error + js_value" where
  "set_ia5_string der obj name d = set_string obj name (ia5_text der d)"
definition set_printable_string :: "'d der_api \<Rightarrow> js_value \<Rightarrow> string \<Rightarrow> 'd \<Rightarrow> der_error + js_value" where
  "set_printable_string der obj name d = set_string obj name (printable_text der d)"
definition set_teletex_string :: "'d der_api \<Rightarrow> js_value \<Rightarrow> string \<Rightarrow> 'd \<Rightarrow> der_error + js_value" where
  "set_teletex_string der obj name d = set_string obj name (teletex_text der d)"
definition set_bmp_string :: "'d der_api \<Rightarrow> js_value \<Rightarrow> string \<Rightarrow> 'd \<Rightarrow> der_error + js_value" where
  "set_bmp_string der obj name d = set_string obj name (bmp_text der d)"

text \<open>
  \<^verbatim>\<open>single_entry\<close>: the one own key of a tag object. An array or typed array is an object too: its
  keys are its indices, and its one element is what its one key reads.
\<close>

fun single_entry :: "js_value \<Rightarrow> der_error + string \<times> js_value" where
  "single_entry (JObject [(key, entry)]) =
     (if is_nullish entry then Inl Failed else Inr (key, entry))"
| "single_entry (JArray [entry]) =
     (if is_nullish entry then Inl Failed else Inr (''0'', entry))"
| "single_entry (JUint8Array [w]) = Inr (''0'', JNumber (number_of_unsigned w))"
| "single_entry _ = Inl Failed"

section \<open>Lemmas\<close>

text \<open>A measure under which every property and every element is smaller than its container.\<close>

fun js_weight :: "js_value \<Rightarrow> nat" where
  "js_weight (JArray vs) = Suc (sum_list (map js_weight vs))"
| "js_weight (JObject es) = Suc (sum_list (map (\<lambda>e. js_weight (snd e)) es))"
| "js_weight (JUint8Array b) = 1"
| "js_weight _ = 0"

lemma element_cases: "element vs name = JUndefined \<or> element vs name \<in> set vs"
  by (auto simp: element_def split: option.split) (auto simp: find_Some_iff)

lemma weight_element: "v \<in> set vs \<Longrightarrow> js_weight v < js_weight (JArray vs)"
  by (simp add: less_Suc_eq_le member_le_sum_list)

lemma weight_entry: "map_of es name = Some v \<Longrightarrow> js_weight v < js_weight (JObject es)"
proof -
  assume "map_of es name = Some v"
  then have "js_weight v \<in> set (map (\<lambda>e. js_weight (snd e)) es)" by (force dest: map_of_SomeD)
  then show ?thesis by (simp add: less_Suc_eq_le member_le_sum_list)
qed

lemma weight_get:
  assumes "reflect_get v name = Inr w" and "\<not> is_nullish w"
  shows "js_weight w < js_weight v"
  using assms
proof (cases "(v, name)" rule: reflect_get.cases)
  case (1 es n)
  with assms weight_entry [of es n w] show ?thesis by (auto simp: is_nullish_def split: option.splits)
next
  case (2 vs n)
  with assms element_cases [of vs n] show ?thesis
    by (auto simp: is_nullish_def less_Suc_eq_le member_le_sum_list split: if_splits)
next
  case (3 b n)
  with assms element_cases [of "map (\<lambda>w. JNumber (number_of_unsigned w)) b" n] show ?thesis
    by (auto simp: is_nullish_def)
qed auto

lemma object_field_Inr:
  "object_field v name = Inr w \<longleftrightarrow> reflect_get v name = Inr w \<and> \<not> is_nullish w"
  by (auto simp: object_field_def result_simps split: if_splits)

lemma optional_field_Some:
  "optional_field v name = Inr (Some w) \<longleftrightarrow> reflect_get v name = Inr w \<and> \<not> is_nullish w"
  by (auto simp: optional_field_def result_simps split: if_splits)

lemma weight_field:
  "object_field v name = Inr w \<Longrightarrow> js_weight w < js_weight v"
  "optional_field v name = Inr (Some w) \<Longrightarrow> js_weight w < js_weight v"
  by (auto simp: object_field_Inr optional_field_Some intro: weight_get)

lemma as_array_Inr: "as_array v = Inr vs \<longleftrightarrow> v = JArray vs"
  by (cases v) auto

lemma weight_array: "as_array v = Inr vs \<Longrightarrow> w \<in> set vs \<Longrightarrow> js_weight w < js_weight v"
  by (auto simp: as_array_Inr less_Suc_eq_le member_le_sum_list)

lemma weight_array_len: "as_array_len v n = Inr vs \<Longrightarrow> w \<in> set vs \<Longrightarrow> js_weight w < js_weight v"
  by (auto simp: as_array_len_def result_simps weight_array split: if_splits)

lemma weight_array_field: "array_field v name = Inr vs \<Longrightarrow> w \<in> set vs \<Longrightarrow> js_weight w < js_weight v"
  by (auto simp: array_field_def result_simps dest!: weight_array weight_field)

lemma weight_single: "single_entry v = Inr (key, w) \<Longrightarrow> js_weight w < js_weight v"
  by (cases v rule: single_entry.cases) (auto split: if_splits)

lemma single_entry_not_nullish: "single_entry v = Inr (key, w) \<Longrightarrow> \<not> is_nullish w"
  by (cases v rule: single_entry.cases) (auto simp: is_nullish_def split: if_splits)

section \<open>Whole numbers\<close>

lemma fract_zero: "fract x = 0 \<longleftrightarrow> x = of_int \<lfloor>x\<rfloor>"
proof -
  have "x = of_int \<lceil>x\<rceil> \<longleftrightarrow> x = of_int \<lfloor>x\<rfloor>" by (metis ceiling_of_int floor_of_int)
  then show ?thesis by (auto simp: fract_def)
qed

lemma as_number_Inr: "as_number v = Inr n \<longleftrightarrow> v = JNumber n"
  by (cases v) auto

lemma as_unsigned_Inr:
  "as_unsigned most v = Inr (w :: 'w::len word) \<longleftrightarrow>
     (\<exists>i. v = JNumber (Finite (of_int i)) \<and> 0 \<le> i \<and> of_int i \<le> most \<and> w = word_of_int i)"
proof
  assume "as_unsigned most v = Inr w"
  then obtain x where x: "v = JNumber (Finite x)" "fract x = 0" "0 \<le> x" "x \<le> most" "w = cast x"
    by (auto simp: as_unsigned_def result_simps as_number_Inr elim!: f64_as_unsigned.elims split: if_splits)
  then have "x = of_int \<lfloor>x\<rfloor>" by (simp add: fract_zero)
  with x show "\<exists>i. v = JNumber (Finite (of_int i)) \<and> 0 \<le> i \<and> of_int i \<le> most \<and> w = word_of_int i"
    by (intro exI [of _ "\<lfloor>x\<rfloor>"]) (auto simp: cast_def)
qed (auto simp: as_unsigned_def fract_zero cast_def)

lemma as_signed_Inr:
  "as_signed least most v = Inr (w :: 'w::len word) \<longleftrightarrow>
     (\<exists>i. v = JNumber (Finite (of_int i)) \<and> least \<le> of_int i \<and> of_int i \<le> most \<and> w = word_of_int i)"
proof
  assume "as_signed least most v = Inr w"
  then obtain x where x: "v = JNumber (Finite x)" "fract x = 0" "least \<le> x" "x \<le> most" "w = cast x"
    by (auto simp: as_signed_def result_simps as_number_Inr elim!: f64_as_signed.elims split: if_splits)
  then have "x = of_int \<lfloor>x\<rfloor>" by (simp add: fract_zero)
  with x show "\<exists>i. v = JNumber (Finite (of_int i)) \<and> least \<le> of_int i \<and> of_int i \<le> most \<and> w = word_of_int i"
    by (intro exI [of _ "\<lfloor>x\<rfloor>"]) (auto simp: cast_def)
qed (auto simp: as_signed_def fract_zero cast_def)

end
