(* ===== verification/Rust_Text.thy ===== *)
theory Rust_Text
  imports Prelude
begin

text \<open>
  The string functions of Rust's standard library that the generator and the error bindings call,
  on UTF-8 octets: lines, and trimming by Unicode white space.
\<close>

lemma find_SomeD: "find P xs = Some x \<Longrightarrow> x \<in> set xs \<and> P x"
  by (auto simp: find_Some_iff)

section \<open>Lines and white space\<close>

text \<open>\<^verbatim>\<open>str::lines\<close>: lines end at a line feed, with the carriage return before it if there is one.\<close>

definition line_of :: "string \<Rightarrow> string" where
  "line_of acc = (case acc of c # cs \<Rightarrow> if c = CHR 0x0D then rev cs else rev acc | [] \<Rightarrow> [])"

fun lines_from :: "string \<Rightarrow> string \<Rightarrow> string list" where
  "lines_from acc [] = (if acc = [] then [] else [rev acc])"
| "lines_from acc (c # cs) =
     (if c = CHR 0x0A then line_of acc # lines_from [] cs else lines_from (c # acc) cs)"

definition str_lines :: "string \<Rightarrow> string list" where
  "str_lines text = lines_from [] text"

text \<open>The characters of Unicode's \<^verbatim>\<open>White_Space\<close>, as UTF-8, and \<^verbatim>\<open>str::trim_start\<close>.\<close>

definition white_space :: "string list" where
  "white_space =
     [[CHR 0x09], [CHR 0x0A], [CHR 0x0B], [CHR 0x0C], [CHR 0x0D], [CHR 0x20],
      [CHR 0xC2, CHR 0x85], [CHR 0xC2, CHR 0xA0], [CHR 0xE1, CHR 0x9A, CHR 0x80],
      [CHR 0xE2, CHR 0x80, CHR 0x80], [CHR 0xE2, CHR 0x80, CHR 0x81], [CHR 0xE2, CHR 0x80, CHR 0x82],
      [CHR 0xE2, CHR 0x80, CHR 0x83], [CHR 0xE2, CHR 0x80, CHR 0x84], [CHR 0xE2, CHR 0x80, CHR 0x85],
      [CHR 0xE2, CHR 0x80, CHR 0x86], [CHR 0xE2, CHR 0x80, CHR 0x87], [CHR 0xE2, CHR 0x80, CHR 0x88],
      [CHR 0xE2, CHR 0x80, CHR 0x89], [CHR 0xE2, CHR 0x80, CHR 0x8A], [CHR 0xE2, CHR 0x80, CHR 0xA8],
      [CHR 0xE2, CHR 0x80, CHR 0xA9], [CHR 0xE2, CHR 0x80, CHR 0xAF], [CHR 0xE2, CHR 0x81, CHR 0x9F],
      [CHR 0xE3, CHR 0x80, CHR 0x80]]"

definition strip_white :: "string \<Rightarrow> string option" where
  "strip_white s = map_option (\<lambda>w. drop (length w) s) (find (\<lambda>w. starts_with s w) white_space)"

lemma strip_white_shorter: "strip_white s = Some t \<Longrightarrow> length t < length s"
  by (auto simp: strip_white_def starts_with_iff white_space_def find_Some_iff2 split: if_splits)

function trim_start :: "string \<Rightarrow> string" where
  "trim_start s = (case strip_white s of None \<Rightarrow> s | Some t \<Rightarrow> trim_start t)"
  by pat_completeness auto
termination
  by (relation "measure length") (auto dest: strip_white_shorter)

declare trim_start.simps [simp del]

text \<open>\<^verbatim>\<open>str::trim_end\<close>.\<close>

definition strip_white_end :: "string \<Rightarrow> string option" where
  "strip_white_end s =
     map_option (\<lambda>w. take (length s - length w) s) (find (\<lambda>w. w = drop (length s - length w) s) white_space)"

lemma strip_white_end_shorter: "strip_white_end s = Some t \<Longrightarrow> length t < length s"
proof -
  assume "strip_white_end s = Some t"
  then obtain w where w: "w \<in> set white_space" "w = drop (length s - length w) s" "t = take (length s - length w) s"
    by (auto simp: strip_white_end_def dest: find_SomeD)
  moreover from w(1) have "w \<noteq> []" by (auto simp: white_space_def)
  moreover from this w(2) have "s \<noteq> []" by auto
  ultimately show ?thesis by (cases "length w") auto
qed

function trim_end :: "string \<Rightarrow> string" where
  "trim_end s = (case strip_white_end s of None \<Rightarrow> s | Some t \<Rightarrow> trim_end t)"
  by pat_completeness auto
termination
  by (relation "measure length") (auto dest: strip_white_end_shorter)

declare trim_end.simps [simp del]

section \<open>What trimming does\<close>

text \<open>The first octet of an encoding tells its length.\<close>

lemma white_space_length:
  "list_all (\<lambda>w. w \<noteq> [] \<and> length w =
     (if hd w = CHR 0xC2 then 2 else if hd w \<in> {CHR 0xE1, CHR 0xE2, CHR 0xE3} then 3 else 1)) white_space"
  by (simp add: white_space_def)

lemma white_space_prefix_free:
  assumes "w \<in> set white_space" "w' \<in> set white_space" "w @ t = w' @ t'"
  shows "w = w'"
proof -
  have "w \<noteq> []" "w' \<noteq> []" using assms(1,2) white_space_length by (auto simp: list_all_iff)
  with assms(3) have "hd w = hd w'" by (metis hd_append2)
  then have "length w = length w'" using assms(1,2) white_space_length by (auto simp: list_all_iff)
  with assms(3) show ?thesis by simp
qed

lemma strip_white_append: "w \<in> set white_space \<Longrightarrow> strip_white (w @ t) = Some t"
proof -
  assume w: "w \<in> set white_space"
  then obtain w' where found: "find (\<lambda>w'. starts_with (w @ t) w') white_space = Some w'"
    by (metis find_None_iff not_Some_eq starts_with_iff)
  then have "w' \<in> set white_space" "starts_with (w @ t) w'" by (auto simp: find_Some_iff)
  then have "w' = w" using white_space_prefix_free [OF w] by (auto simp: starts_with_iff)
  with found show ?thesis by (simp add: strip_white_def)
qed

lemma strip_white_Some: "strip_white s = Some t \<Longrightarrow> \<exists>w \<in> set white_space. s = w @ t"
  by (auto simp: strip_white_def find_Some_iff starts_with_iff)

lemma trim_start_concat: "set ws \<subseteq> set white_space \<Longrightarrow> trim_start (concat ws @ s) = trim_start s"
  by (induction ws) (simp_all add: trim_start.simps [of "w @ t" for w t] strip_white_append)

lemma trim_start_decompose: "\<exists>ws. set ws \<subseteq> set white_space \<and> s = concat ws @ trim_start s"
proof (induction s rule: trim_start.induct)
  case (1 s)
  show ?case
  proof (cases "strip_white s")
    case None
    then show ?thesis by (intro exI [of _ "[]"]) (simp add: trim_start.simps [of s])
  next
    case (Some t)
    then obtain w ws where "w \<in> set white_space" "s = w @ t" "set ws \<subseteq> set white_space" "t = concat ws @ trim_start t"
      using 1 strip_white_Some by blast
    then show ?thesis
      using Some trim_start.simps [of s] by (intro exI [of _ "w # ws"]) simp
  qed
qed

lemma trim_start_visible:
  assumes "\<forall>w \<in> set white_space. hd w \<noteq> c"
  shows "trim_start (c # s) = c # s"
proof -
  have "\<not> starts_with (c # s) w" if "w \<in> set white_space" for w
  proof -
    have "w \<noteq> []" "hd w \<noteq> c" using that assms white_space_length by (auto simp: list_all_iff)
    then show ?thesis by (auto simp: starts_with_iff Cons_eq_append_conv)
  qed
  then have "strip_white (c # s) = None" by (simp add: strip_white_def find_None_iff)
  then show ?thesis by (simp add: trim_start.simps [of "c # s"])
qed

lemma trim_end_visible:
  assumes "\<forall>c \<in> set s. c \<notin> set (concat white_space)"
  shows "trim_end s = s"
proof -
  have "w \<noteq> drop (length s - length w) s" if "w \<in> set white_space" for w
  proof
    assume w: "w = drop (length s - length w) s"
    have "w \<noteq> []" using that white_space_length by (auto simp: list_all_iff)
    then have "hd w \<in> set w" by simp
    moreover have "set w \<subseteq> set s" using set_drop_subset [of "length s - length w" s] w by simp
    ultimately show False using assms that by auto
  qed
  then have "strip_white_end s = None" by (auto simp: strip_white_end_def find_None_iff)
  then show ?thesis by (simp add: trim_end.simps [of s])
qed

end
