(* ===== verification/Wire_Frame.thy ===== *)
theory Wire_Frame
  imports Prelude
begin

text \<open>
  Frame assembly (\<^verbatim>\<open>ws/tightbeam-ws-wasm/src/build.rs\<close>): a frame is built with a placeholder body,
  split into the DER components of its two SEQUENCEs, spliced and put together again. The
  components, \<^verbatim>\<open>RawSequence\<close> and \<^verbatim>\<open>WireFrame\<close> are modelled as the code has them. What the upstream
  crates do (DER headers, the \<^verbatim>\<open>Frame\<close> decoder, CMS drafts) is the record \<open>wire_api\<close>, and
  \<open>wire_laws\<close> states the documented behaviour the code relies on.
\<close>

section \<open>Data\<close>

datatype tag = TagSequence | TagOctetString | ContextSpecific (constructed: bool) (tag_number: nat) | TagOther nat

record der_any =
  any_tag :: tag
  any_value :: bytes

text \<open>The variants of \<^verbatim>\<open>TightBeamError\<close> this code names; \<open>Panic\<close> is a Rust panic.\<close>

datatype wire_error = InvalidMetadata | InvalidBody | MissingSignature | Upstream string | Panic

datatype version = V0 | V1 | V2 | V3

record algorithm_identifier =
  alg_oid :: string
  alg_parameters :: "der_any option"

record digest_info =
  digest_algorithm :: algorithm_identifier
  digest_octets :: bytes

record matrix_dyn =
  matrix_n :: u8
  matrix_bytes :: bytes

record compressed_data =
  compression_alg :: algorithm_identifier
  econtent_type :: string

datatype signer_identifier = SubjectKeyIdentifier bytes | IssuerAndSerialNumber bytes

text \<open>A \<^verbatim>\<open>Frame\<close> and its metadata, as their accessors show them.\<close>

record ('e, 's) frame =
  frame_version :: version
  frame_id :: bytes
  frame_order :: u64
  frame_body :: bytes
  frame_priority :: "u8 option"
  frame_lifetime :: "u64 option"
  previous_frame :: "digest_info option"
  frame_matrix :: "matrix_dyn option"
  frame_compactness :: "compressed_data option"
  metadata_integrity :: "digest_info option"
  frame_confidentiality :: "'e option"
  frame_integrity :: "digest_info option"
  nonrepudiation :: "'s option"

record frame_config =
  config_version :: "version option"
  config_id :: bytes
  config_order :: u64
  config_message :: bytes
  config_priority :: "u8 option"
  config_lifetime :: "u64 option"
  config_previous_hash :: "digest_info option"
  config_matrix :: "matrix_dyn option"

text \<open>What the frame builder has been given.\<close>

record frame_draft =
  draft_version :: version
  draft_id :: bytes
  draft_order :: u64
  draft_message :: bytes
  draft_priority :: "u8 option"
  draft_lifetime :: "u64 option"
  draft_previous_hash :: "digest_info option"
  draft_matrix :: "matrix_dyn option"

datatype commitment_salt = Plain | Hiding

text \<open>
  The upstream calls. \<open>any_decode x xs\<close> is \<^verbatim>\<open>Any::decode\<close> on a reader with the octets \<open>x # xs\<close>: the
  component and how many of \<open>xs\<close> belong to it. \<open>sequence_open\<close> and \<open>sequence_close\<close> take off and put on
  the header of a SEQUENCE.
\<close>

record ('e, 's, 'd) wire_api =
  any_decode :: "u8 \<Rightarrow> bytes \<Rightarrow> wire_error + der_any \<times> nat"
  any_from_der :: "bytes \<Rightarrow> wire_error + der_any"
  any_to_der :: "der_any \<Rightarrow> wire_error + bytes"
  any_new :: "tag \<Rightarrow> bytes \<Rightarrow> wire_error + der_any"
  sequence_open :: "bytes \<Rightarrow> wire_error + bytes"
  sequence_close :: "bytes \<Rightarrow> wire_error + bytes"
  octets_new :: "bytes \<Rightarrow> wire_error + bytes"
  octets_to_der :: "bytes \<Rightarrow> wire_error + bytes"
  body_to_der :: "bytes \<Rightarrow> wire_error + bytes"
  body_from_der :: "bytes \<Rightarrow> wire_error + bytes"
  digest_info_to_der :: "digest_info \<Rightarrow> wire_error + bytes"
  compressed_data_to_der :: "compressed_data \<Rightarrow> wire_error + bytes"
  envelope_parse :: "bytes \<Rightarrow> wire_error + 'e"
  envelope_to_der :: "'e \<Rightarrow> wire_error + bytes"
  envelope_algorithm :: "'e \<Rightarrow> string"
  parse_salt :: "bytes \<Rightarrow> wire_error + commitment_salt"
  builder_build :: "frame_draft \<Rightarrow> wire_error + ('e, 's) frame"
  frame_to_der :: "('e, 's) frame \<Rightarrow> wire_error + bytes"
  frame_from_der :: "bytes \<Rightarrow> wire_error + ('e, 's) frame"
  frame_to_tbs :: "('e, 's) frame \<Rightarrow> wire_error + bytes"
  attach_signer_info :: "('e, 's) frame \<Rightarrow> 's \<Rightarrow> wire_error + ('e, 's) frame"
  cms_draft :: "signer_identifier \<Rightarrow> bytes \<Rightarrow> wire_error + 'd"
  draft_prehash :: "'d \<Rightarrow> bytes"
  draft_complete :: "'d \<Rightarrow> bytes \<Rightarrow> wire_error + 's"
  signer_sid :: "'s \<Rightarrow> signer_identifier"
  signer_algorithm :: "'s \<Rightarrow> string"
  signer_digest_algorithm :: "'s \<Rightarrow> string"
  signer_signature :: "'s \<Rightarrow> bytes"
  data_oid :: string

section \<open>Commitments\<close>

definition PLAIN_COMMITMENT :: u8 where "PLAIN_COMMITMENT = 0x00"
definition HIDING_COMMITMENT :: u8 where "HIDING_COMMITMENT = 0x01"

text \<open>\<^verbatim>\<open>u64::to_be_bytes\<close>.\<close>

definition to_be_bytes :: "u64 \<Rightarrow> bytes" where
  "to_be_bytes w = map (\<lambda>i. word_of_nat (unat w div 256 ^ i)) [7, 6, 5, 4, 3, 2, 1, 0]"

definition commitment_preimage :: "('e, 's, 'd) wire_api \<Rightarrow> bytes \<Rightarrow> bytes \<Rightarrow> wire_error + bytes" where
  "commitment_preimage api salt body =
     and_then (parse_salt api salt) (\<lambda>parsed.
       Inr ((case parsed of
               Plain \<Rightarrow> [PLAIN_COMMITMENT]
             | Hiding \<Rightarrow> HIDING_COMMITMENT # to_be_bytes (of_nat (length salt)) @ salt) @ body))"

definition body_preimage :: "('e, 's, 'd) wire_api \<Rightarrow> bytes \<Rightarrow> wire_error + bytes" where
  "body_preimage api message = and_then (octets_new api message) (body_to_der api)"

definition decode_body :: "('e, 's, 'd) wire_api \<Rightarrow> bytes \<Rightarrow> wire_error + bytes" where
  "decode_body api body_der = body_from_der api body_der"

section \<open>Raw sequences\<close>

text \<open>\<^verbatim>\<open>RawSequence\<close>: its decoder reads components until the contents are used up.\<close>

function decode_value :: "('e, 's, 'd) wire_api \<Rightarrow> bytes \<Rightarrow> wire_error + der_any list" where
  "decode_value api [] = Inr []"
| "decode_value api (x # xs) =
     and_then (any_decode api x xs) (\<lambda>(component, n).
       and_then (decode_value api (drop n xs)) (\<lambda>components. Inr (component # components)))"
  by pat_completeness auto
termination
  by (relation "measure (\<lambda>(_, b). length b)") auto

definition raw_from_der :: "('e, 's, 'd) wire_api \<Rightarrow> bytes \<Rightarrow> wire_error + der_any list" where
  "raw_from_der api der = and_then (sequence_open api der) (decode_value api)"

definition encode_value :: "('e, 's, 'd) wire_api \<Rightarrow> der_any list \<Rightarrow> wire_error + bytes" where
  "encode_value api components = and_then (map_result (any_to_der api) components) (\<lambda>parts. Inr (concat parts))"

definition raw_to_der :: "('e, 's, 'd) wire_api \<Rightarrow> der_any list \<Rightarrow> wire_error + bytes" where
  "raw_to_der api components = and_then (encode_value api components) (sequence_close api)"

fun at_or_past :: "nat \<Rightarrow> tag \<Rightarrow> bool" where
  "at_or_past number (ContextSpecific c held) = (number \<le> held)"
| "at_or_past number _ = False"

definition set_tagged ::
  "('e, 's, 'd) wire_api \<Rightarrow> nat \<Rightarrow> wire_error + bytes \<Rightarrow> der_any list \<Rightarrow> wire_error + der_any list" where
  "set_tagged api number value_der components =
     (let tag = ContextSpecific True number
      in and_then value_der (\<lambda>v. and_then (any_new api tag v) (\<lambda>field.
           let position = length (takeWhile (\<lambda>c. \<not> at_or_past number (any_tag c)) components)
           in Inr (if position < length components \<and> any_tag (components ! position) = tag
                   then components[position := field]
                   else take position components @ field # drop position components))))"

section \<open>Wire frames\<close>

definition FRAME_MESSAGE :: nat where "FRAME_MESSAGE = 2"
definition FRAME_METADATA :: nat where "FRAME_METADATA = 1"
definition METADATA_COMPACTNESS :: nat where "METADATA_COMPACTNESS = 2"
definition INTEGRITY_FIELD :: nat where "INTEGRITY_FIELD = 0"
definition CONFIDENTIALITY_FIELD :: nat where "CONFIDENTIALITY_FIELD = 1"

text \<open>\<^verbatim>\<open>slice::get\<close>.\<close>

definition get_at :: "nat \<Rightarrow> 'a list \<Rightarrow> 'a option" where
  "get_at i xs = (if i < length xs then Some (xs ! i) else None)"

record wire_frame =
  frame_components :: "der_any list"
  metadata_components :: "der_any list"

definition wire_parse :: "('e, 's, 'd) wire_api \<Rightarrow> bytes \<Rightarrow> wire_error + wire_frame" where
  "wire_parse api frame_der =
     and_then (frame_from_der api frame_der) (\<lambda>_.
     and_then (raw_from_der api frame_der) (\<lambda>frame.
     and_then (ok_or InvalidMetadata (get_at FRAME_METADATA frame)) (\<lambda>metadata.
     and_then (any_to_der api metadata) (\<lambda>der.
     and_then (raw_from_der api der) (\<lambda>metadata.
       Inr \<lparr>frame_components = frame, metadata_components = metadata\<rparr>)))))"

definition set_message :: "('e, 's, 'd) wire_api \<Rightarrow> bytes \<Rightarrow> wire_frame \<Rightarrow> wire_error + wire_frame" where
  "set_message api message wire =
     and_then (octets_to_der api message) (\<lambda>der.
     and_then (any_from_der api der) (\<lambda>message.
     and_then (ok_or InvalidBody (get_at FRAME_MESSAGE (frame_components wire))) (\<lambda>_.
       Inr (wire\<lparr>frame_components := (frame_components wire)[FRAME_MESSAGE := message]\<rparr>))))"

definition wire_set_compactness ::
  "('e, 's, 'd) wire_api \<Rightarrow> compressed_data \<Rightarrow> wire_frame \<Rightarrow> wire_error + wire_frame" where
  "wire_set_compactness api compactness wire =
     and_then (compressed_data_to_der api compactness) (\<lambda>der.
     and_then (any_from_der api der) (\<lambda>field.
       let components = metadata_components wire
       in case get_at METADATA_COMPACTNESS components of
            Some held \<Rightarrow>
              if any_tag held = TagSequence
              then Inr (wire\<lparr>metadata_components := components[METADATA_COMPACTNESS := field]\<rparr>)
              else Inr (wire\<lparr>metadata_components :=
                take METADATA_COMPACTNESS components @ field # drop METADATA_COMPACTNESS components\<rparr>)
          | None \<Rightarrow>
              if length components < METADATA_COMPACTNESS then Inl Panic
              else Inr (wire\<lparr>metadata_components := components @ [field]\<rparr>)))"

definition wire_witness_input :: "('e, 's, 'd) wire_api \<Rightarrow> wire_frame \<Rightarrow> wire_error + bytes" where
  "wire_witness_input api wire =
     and_then (ok_or InvalidMetadata (get_at 0 (frame_components wire))) (\<lambda>version.
     and_then (raw_to_der api (metadata_components wire)) (\<lambda>der.
     and_then (any_from_der api der) (\<lambda>metadata. raw_to_der api [version, metadata])))"

definition wire_finish :: "('e, 's, 'd) wire_api \<Rightarrow> wire_frame \<Rightarrow> wire_error + bytes" where
  "wire_finish api wire =
     and_then (raw_to_der api (metadata_components wire)) (\<lambda>der.
     and_then (any_from_der api der) (\<lambda>metadata.
     and_then (ok_or InvalidMetadata (get_at FRAME_METADATA (frame_components wire))) (\<lambda>_.
     and_then (raw_to_der api ((frame_components wire)[FRAME_METADATA := metadata])) (\<lambda>spliced.
     and_then (frame_from_der api spliced) (\<lambda>_. Inr spliced)))))"

section \<open>Building\<close>

definition effective_version :: "frame_config \<Rightarrow> version" where
  "effective_version c =
     (case config_version c of
        Some v \<Rightarrow> v
      | None \<Rightarrow>
          if config_matrix c \<noteq> None then V3
          else if config_priority c \<noteq> None \<or> config_lifetime c \<noteq> None \<or> config_previous_hash c \<noteq> None then V2
          else V0)"

definition config_draft :: "frame_config \<Rightarrow> bytes \<Rightarrow> frame_draft" where
  "config_draft c placeholder =
     \<lparr>draft_version = effective_version c, draft_id = config_id c, draft_order = config_order c,
      draft_message = placeholder, draft_priority = config_priority c, draft_lifetime = config_lifetime c,
      draft_previous_hash = config_previous_hash c, draft_matrix = config_matrix c\<rparr>"

definition config_build :: "('e, 's, 'd) wire_api \<Rightarrow> frame_config \<Rightarrow> wire_error + bytes" where
  "config_build api c =
     and_then (octets_new api []) (\<lambda>placeholder.
     and_then (builder_build api (config_draft c placeholder)) (\<lambda>frame.
     and_then (frame_to_der api frame) (\<lambda>der.
     and_then (wire_parse api der) (\<lambda>wire.
     and_then (set_message api (config_message c) wire) (wire_finish api)))))"

definition algorithm :: "string \<Rightarrow> algorithm_identifier" where
  "algorithm oid = \<lparr>alg_oid = oid, alg_parameters = None\<rparr>"

definition set_message_integrity ::
  "('e, 's, 'd) wire_api \<Rightarrow> bytes \<Rightarrow> string \<Rightarrow> bytes \<Rightarrow> wire_error + bytes" where
  "set_message_integrity api frame_der algorithm_oid digest =
     and_then (octets_new api digest) (\<lambda>digest.
       let commitment = \<lparr>digest_algorithm = algorithm algorithm_oid, digest_octets = digest\<rparr>
       in and_then (wire_parse api frame_der) (\<lambda>wire.
          and_then (set_tagged api INTEGRITY_FIELD (digest_info_to_der api commitment) (metadata_components wire))
            (\<lambda>metadata. wire_finish api (wire\<lparr>metadata_components := metadata\<rparr>))))"

definition set_confidentiality ::
  "('e, 's, 'd) wire_api \<Rightarrow> bytes \<Rightarrow> bytes \<Rightarrow> bytes \<Rightarrow> wire_error + bytes" where
  "set_confidentiality api frame_der envelope_der ciphertext =
     and_then (envelope_parse api envelope_der) (\<lambda>envelope.
     and_then (wire_parse api frame_der) (\<lambda>wire.
     and_then (set_tagged api CONFIDENTIALITY_FIELD (envelope_to_der api envelope) (metadata_components wire))
       (\<lambda>metadata.
     and_then (set_message api ciphertext (wire\<lparr>metadata_components := metadata\<rparr>)) (wire_finish api))))"

definition set_compactness ::
  "('e, 's, 'd) wire_api \<Rightarrow> bytes \<Rightarrow> string option \<Rightarrow> string \<Rightarrow> bytes option \<Rightarrow> bytes \<Rightarrow> wire_error + bytes" where
  "set_compactness api frame_der content_oid algorithm_oid parameters_der compressed =
     and_then (case parameters_der of
                 Some der \<Rightarrow> and_then (any_from_der api der) (\<lambda>p. Inr (Some p))
               | None \<Rightarrow> Inr None) (\<lambda>parameters.
       let compactness =
         \<lparr>compression_alg = \<lparr>alg_oid = algorithm_oid, alg_parameters = parameters\<rparr>,
          econtent_type = (case content_oid of Some oid \<Rightarrow> oid | None \<Rightarrow> data_oid api)\<rparr>
       in and_then (wire_parse api frame_der) (\<lambda>wire.
          and_then (wire_set_compactness api compactness wire) (\<lambda>wire.
          and_then (set_message api compressed wire) (wire_finish api))))"

definition witness_input :: "('e, 's, 'd) wire_api \<Rightarrow> bytes \<Rightarrow> wire_error + bytes" where
  "witness_input api frame_der = and_then (wire_parse api frame_der) (wire_witness_input api)"

definition attach_witness ::
  "('e, 's, 'd) wire_api \<Rightarrow> bytes \<Rightarrow> string \<Rightarrow> bytes \<Rightarrow> wire_error + bytes" where
  "attach_witness api frame_der algorithm_oid digest =
     and_then (octets_new api digest) (\<lambda>digest.
       let witness = \<lparr>digest_algorithm = algorithm algorithm_oid, digest_octets = digest\<rparr>
       in and_then (wire_parse api frame_der) (\<lambda>wire.
          and_then (set_tagged api INTEGRITY_FIELD (digest_info_to_der api witness) (frame_components wire))
            (\<lambda>components. wire_finish api (wire\<lparr>frame_components := components\<rparr>))))"

section \<open>Signing\<close>

definition tbs_bytes :: "('e, 's, 'd) wire_api \<Rightarrow> bytes \<Rightarrow> wire_error + bytes" where
  "tbs_bytes api frame_der = and_then (frame_from_der api frame_der) (frame_to_tbs api)"

definition signer_identifier_of :: "('e, 's, 'd) wire_api \<Rightarrow> bytes \<Rightarrow> wire_error + signer_identifier" where
  "signer_identifier_of api signer_key_id =
     and_then (octets_new api signer_key_id) (\<lambda>key_id. Inr (SubjectKeyIdentifier key_id))"

definition signature_draft ::
  "('e, 's, 'd) wire_api \<Rightarrow> ('e, 's) frame \<Rightarrow> signer_identifier \<Rightarrow> wire_error + 'd" where
  "signature_draft api frame sid = and_then (frame_to_tbs api frame) (\<lambda>tbs. cms_draft api sid tbs)"

definition signing_prehash :: "('e, 's, 'd) wire_api \<Rightarrow> bytes \<Rightarrow> bytes \<Rightarrow> wire_error + bytes" where
  "signing_prehash api frame_der signer_key_id =
     and_then (frame_from_der api frame_der) (\<lambda>frame.
     and_then (signer_identifier_of api signer_key_id) (\<lambda>sid.
     and_then (signature_draft api frame sid) (\<lambda>draft. Inr (draft_prehash api draft))))"

definition signature_prehash :: "('e, 's, 'd) wire_api \<Rightarrow> bytes \<Rightarrow> wire_error + bytes" where
  "signature_prehash api frame_der =
     and_then (frame_from_der api frame_der) (\<lambda>frame.
     and_then (ok_or MissingSignature (nonrepudiation frame)) (\<lambda>signer_info.
     and_then (signature_draft api frame (signer_sid api signer_info)) (\<lambda>draft. Inr (draft_prehash api draft))))"

definition attach_signature :: "('e, 's, 'd) wire_api \<Rightarrow> bytes \<Rightarrow> bytes \<Rightarrow> bytes \<Rightarrow> wire_error + bytes" where
  "attach_signature api frame_der signature signer_key_id =
     and_then (frame_from_der api frame_der) (\<lambda>frame.
     and_then (signer_identifier_of api signer_key_id) (\<lambda>sid.
     and_then (signature_draft api frame sid) (\<lambda>draft.
     and_then (draft_complete api draft signature) (\<lambda>signer_info.
     and_then (attach_signer_info api frame signer_info) (frame_to_der api)))))"

section \<open>Inspection\<close>

record frame_summary =
  summary_version :: u8
  summary_id :: bytes
  summary_order :: u64
  summary_body_der :: bytes
  summary_priority :: "u8 option"
  summary_lifetime :: "u64 option"
  previous_hash_algorithm_oid :: "string option"
  previous_hash_digest :: "bytes option"
  summary_matrix_n :: "u8 option"
  summary_matrix_data :: "bytes option"
  compactness_algorithm_oid :: "string option"
  compactness_parameters_der :: "bytes option"
  compactness_content_oid :: "string option"
  message_integrity_algorithm_oid :: "string option"
  message_integrity_digest :: "bytes option"
  frame_integrity_algorithm_oid :: "string option"
  frame_integrity_digest :: "bytes option"
  confidentiality_algorithm_oid :: "string option"
  confidentiality_envelope_der :: "bytes option"
  signature_algorithm_oid :: "string option"
  signature_digest_algorithm_oid :: "string option"
  summary_signature :: "bytes option"

definition digest_fields :: "digest_info option \<Rightarrow> string option \<times> bytes option" where
  "digest_fields info =
     (map_option (\<lambda>i. alg_oid (digest_algorithm i)) info, map_option digest_octets info)"

text \<open>\<^verbatim>\<open>Option::map\<close> with a fallible function, then \<^verbatim>\<open>transpose\<close>.\<close>

definition traverse :: "('a \<Rightarrow> 'x + 'b) \<Rightarrow> 'a option \<Rightarrow> 'x + 'b option" where
  "traverse f m = (case m of None \<Rightarrow> Inr None | Some a \<Rightarrow> and_then (f a) (\<lambda>b. Inr (Some b)))"

fun version_ordinal :: "version \<Rightarrow> u8" where
  "version_ordinal V0 = 0"
| "version_ordinal V1 = 1"
| "version_ordinal V2 = 2"
| "version_ordinal V3 = 3"

definition inspect_frame :: "('e, 's, 'd) wire_api \<Rightarrow> bytes \<Rightarrow> wire_error + frame_summary" where
  "inspect_frame api frame_der =
     and_then (frame_from_der api frame_der) (\<lambda>frame.
     let compactness = frame_compactness frame;
         confidentiality = frame_confidentiality frame
     in
     and_then (traverse (any_to_der api) (Option.bind compactness (\<lambda>info. alg_parameters (compression_alg info))))
       (\<lambda>parameters_der.
     and_then (traverse (envelope_to_der api) confidentiality) (\<lambda>envelope_der.
     let (previous_oid, previous_digest) = digest_fields (previous_frame frame);
         (message_oid, message_digest) = digest_fields (metadata_integrity frame);
         (frame_oid, frame_digest) = digest_fields (frame_integrity frame);
         matrix = frame_matrix frame;
         signature = nonrepudiation frame
     in Inr
       \<lparr>summary_version = version_ordinal (frame_version frame), summary_id = frame_id frame,
        summary_order = frame_order frame, summary_body_der = frame_body frame,
        summary_priority = frame_priority frame, summary_lifetime = frame_lifetime frame,
        previous_hash_algorithm_oid = previous_oid, previous_hash_digest = previous_digest,
        summary_matrix_n = map_option matrix_n matrix, summary_matrix_data = map_option matrix_bytes matrix,
        compactness_algorithm_oid = map_option (\<lambda>info. alg_oid (compression_alg info)) compactness,
        compactness_parameters_der = parameters_der,
        compactness_content_oid = map_option econtent_type compactness,
        message_integrity_algorithm_oid = message_oid, message_integrity_digest = message_digest,
        frame_integrity_algorithm_oid = frame_oid, frame_integrity_digest = frame_digest,
        confidentiality_algorithm_oid = map_option (envelope_algorithm api) confidentiality,
        confidentiality_envelope_der = envelope_der,
        signature_algorithm_oid = map_option (signer_algorithm api) signature,
        signature_digest_algorithm_oid = map_option (signer_digest_algorithm api) signature,
        summary_signature = map_option (signer_signature api) signature\<rparr>)))"

end
