(* ===== verification/Wire_Frame_Properties.thy ===== *)
theory Wire_Frame_Properties
  imports Wire_Frame
begin

text \<open>
  What the splices keep: a frame put together again splits into the components it was made of, a
  tagged field is a map update that keeps tag order, the body arrives octet for octet, and the
  witness and signature preimages are the same before and after they are attached.
\<close>

section \<open>What the upstream crates promise\<close>

definition untagged :: "der_any \<Rightarrow> bool" where
  "untagged c \<longleftrightarrow> \<not> (\<exists>b n. any_tag c = ContextSpecific b n)"

text \<open>
  DER is canonical: a component's octets are its only encoding, and reading them from the front of
  any input gives it back. A \<^verbatim>\<open>Frame\<close> is a SEQUENCE of a version, a metadata SEQUENCE, the body octets
  and then context-tagged fields.
\<close>

definition wire_laws :: "('e, 's, 'd) wire_api \<Rightarrow> bool" where
  "wire_laws api \<longleftrightarrow>
     (\<forall>a b. any_to_der api a = Inr b \<longrightarrow>
        (\<exists>x xs. b = x # xs \<and> (\<forall>rest. any_decode api x (xs @ rest) = Inr (a, length xs)))) \<and>
     (\<forall>a b. any_to_der api a = Inr b \<longleftrightarrow> any_from_der api b = Inr a) \<and>
     (\<forall>c b. sequence_close api c = Inr b \<longrightarrow> sequence_open api b = Inr c) \<and>
     (\<forall>m. octets_to_der api m = any_to_der api \<lparr>any_tag = TagOctetString, any_value = m\<rparr>) \<and>
     (\<forall>t v a. any_new api t v = Inr a \<longrightarrow> a = \<lparr>any_tag = t, any_value = v\<rparr>) \<and>
     (\<forall>b f cs. frame_from_der api b = Inr f \<longrightarrow> raw_from_der api b = Inr cs \<longrightarrow>
        3 \<le> length cs \<and> list_all untagged (take 3 cs) \<and> frame_body f = any_value (cs ! 2))"

text \<open>
  The CMS side: decoding undoes encoding, attaching a signer info sets that field alone, the bytes to
  be signed leave the signature out, and a completed draft names the signer it was drafted for.
\<close>

definition signing_laws :: "('e, 's, 'd) wire_api \<Rightarrow> bool" where
  "signing_laws api \<longleftrightarrow>
     (\<forall>f b. frame_to_der api f = Inr b \<longrightarrow> frame_from_der api b = Inr f) \<and>
     (\<forall>f si g. attach_signer_info api f si = Inr g \<longrightarrow> g = f\<lparr>nonrepudiation := Some si\<rparr>) \<and>
     (\<forall>f x. frame_to_tbs api (f\<lparr>nonrepudiation := x\<rparr>) = frame_to_tbs api f) \<and>
     (\<forall>sid tbs d sg si. cms_draft api sid tbs = Inr d \<longrightarrow> draft_complete api d sg = Inr si \<longrightarrow> signer_sid api si = sid)"

lemma wire_law_simps:
  assumes "wire_laws api"
  shows "any_to_der api a = Inr b \<Longrightarrow> \<exists>x xs. b = x # xs \<and> (\<forall>rest. any_decode api x (xs @ rest) = Inr (a, length xs))"
    and "any_from_der api b = Inr a \<longleftrightarrow> any_to_der api a = Inr b"
    and "sequence_close api c = Inr b \<Longrightarrow> sequence_open api b = Inr c"
    and "octets_to_der api m = any_to_der api \<lparr>any_tag = TagOctetString, any_value = m\<rparr>"
    and "any_new api t v = Inr a \<Longrightarrow> a = \<lparr>any_tag = t, any_value = v\<rparr>"
    and "frame_from_der api b = Inr f \<Longrightarrow> raw_from_der api b = Inr cs \<Longrightarrow>
      3 \<le> length cs \<and> list_all untagged (take 3 cs) \<and> frame_body f = any_value (cs ! 2)"
  using assms unfolding wire_laws_def by blast+

lemma any_to_der_inj:
  assumes "wire_laws api" and "any_to_der api a = Inr b" and "any_to_der api a' = Inr b"
  shows "a' = a"
proof -
  have "any_from_der api b = Inr a" "any_from_der api b = Inr a'"
    using assms(2,3) by (simp_all add: wire_law_simps(2) [OF assms(1)])
  then show ?thesis by simp
qed

section \<open>Round trip of the components\<close>

lemma decode_value_parts:
  assumes "wire_laws api" and "map_result (any_to_der api) cs = Inr parts"
  shows "decode_value api (concat parts) = Inr cs"
  using assms(2)
proof (induction cs arbitrary: parts)
  case (Cons c cs)
  then obtain part rest where parts: "any_to_der api c = Inr part" "map_result (any_to_der api) cs = Inr rest"
    "parts = part # rest" by (auto simp: result_simps)
  obtain x xs where "part = x # xs" "any_decode api x (xs @ concat rest) = Inr (c, length xs)"
    using wire_law_simps(1) [OF assms(1) parts(1)] by blast
  with parts Cons.IH [OF parts(2)] show ?case by simp
qed auto

lemma raw_round_trip:
  assumes "wire_laws api" and "raw_to_der api cs = Inr b"
  shows "raw_from_der api b = Inr cs"
  using assms decode_value_parts [OF assms(1)] wire_law_simps(3) [OF assms(1)]
  by (auto simp: raw_to_der_def encode_value_def raw_from_der_def result_simps)

lemma get_at_Some: "get_at i xs = Some x \<longleftrightarrow> i < length xs \<and> x = xs ! i"
  by (auto simp: get_at_def)

lemma finish_parse:
  assumes laws: "wire_laws api" and fin: "wire_finish api w = Inr b"
  obtains m f where "wire_parse api b = Inr (w\<lparr>frame_components := (frame_components w)[FRAME_METADATA := m]\<rparr>)"
    and "raw_from_der api b = Inr ((frame_components w)[FRAME_METADATA := m])" and "frame_from_der api b = Inr f"
proof -
  from fin obtain der m f where steps: "raw_to_der api (metadata_components w) = Inr der" "any_to_der api m = Inr der"
    "FRAME_METADATA < length (frame_components w)"
    "raw_to_der api ((frame_components w)[FRAME_METADATA := m]) = Inr b" "frame_from_der api b = Inr f"
    by (auto simp: wire_finish_def result_simps get_at_Some wire_law_simps(2) [OF laws])
  note raw = raw_round_trip [OF laws steps(4)] raw_round_trip [OF laws steps(1)]
  have "wire_parse api b = Inr (w\<lparr>frame_components := (frame_components w)[FRAME_METADATA := m]\<rparr>)"
    using steps raw by (simp add: wire_parse_def get_at_def ok_or_def)
  from this raw(1) steps(5) show thesis by (rule that)
qed

lemma parse_components:
  assumes "wire_laws api" and "wire_parse api b = Inr w"
  shows "3 \<le> length (frame_components w)" and "list_all untagged (take 3 (frame_components w))"
  using assms wire_law_simps(6) [OF assms(1)] by (auto simp: wire_parse_def result_simps)

section \<open>Tagged fields\<close>

text \<open>The field under a context number, and the shape of a tightbeam SEQUENCE: untagged components, then tagged ones in ascending order.\<close>

definition tagged_field :: "nat \<Rightarrow> der_any list \<Rightarrow> der_any option" where
  "tagged_field n cs = find (\<lambda>c. \<exists>b. any_tag c = ContextSpecific b n) cs"

definition tagged_in_order :: "der_any list \<Rightarrow> bool" where
  "tagged_in_order ts \<longleftrightarrow>
     list_all (\<lambda>c. \<exists>n. any_tag c = ContextSpecific True n) ts \<and> sorted_wrt (<) (map (\<lambda>c. tag_number (any_tag c)) ts)"

definition well_tagged :: "der_any list \<Rightarrow> bool" where
  "well_tagged cs \<longleftrightarrow> (\<exists>us ts. cs = us @ ts \<and> list_all untagged us \<and> tagged_in_order ts)"

lemma at_or_past_untagged: "untagged c \<Longrightarrow> \<not> at_or_past n (any_tag c)"
  by (cases "any_tag c") (auto simp: untagged_def)

lemma set_tagged_Inr:
  assumes "wire_laws api"
  shows "set_tagged api n value_der cs = Inr cs' \<longleftrightarrow>
    (\<exists>v. value_der = Inr v \<and> any_new api (ContextSpecific True n) v = Inr \<lparr>any_tag = ContextSpecific True n, any_value = v\<rparr> \<and>
      (let field = \<lparr>any_tag = ContextSpecific True n, any_value = v\<rparr>;
           position = length (takeWhile (\<lambda>c. \<not> at_or_past n (any_tag c)) cs)
       in (if position < length cs \<and> any_tag (cs ! position) = ContextSpecific True n
           then cs[position := field] else take position cs @ field # drop position cs) = cs'))"
proof (cases value_der)
  case (Inr v)
  show ?thesis
  proof (cases "any_new api (ContextSpecific True n) v")
    case (Inr a)
    with wire_law_simps(5) [OF assms this] \<open>value_der = Inr v\<close> show ?thesis by (simp add: set_tagged_def Let_def)
  qed (simp add: set_tagged_def Let_def Inr)
qed (simp add: set_tagged_def Let_def)

lemma set_tagged_keeps_front:
  assumes "wire_laws api" and "set_tagged api n value_der cs = Inr cs'" and "list_all untagged (take k cs)" and "k \<le> length cs"
  shows "take k cs' = take k cs"
proof -
  let ?p = "length (takeWhile (\<lambda>c. \<not> at_or_past n (any_tag c)) cs)"
  have "takeWhile (\<lambda>c. \<not> at_or_past n (any_tag c)) cs =
      take k cs @ takeWhile (\<lambda>c. \<not> at_or_past n (any_tag c)) (drop k cs)"
    using assms(3) takeWhile_append2 [of "take k cs" "\<lambda>c. \<not> at_or_past n (any_tag c)" "drop k cs"]
    by (auto simp: list_all_iff at_or_past_untagged)
  then have "k \<le> ?p" using assms(4) by simp
  moreover have "?p \<le> length cs" by (rule length_takeWhile_le)
  ultimately show ?thesis
    using assms(2) unfolding set_tagged_Inr [OF assms(1)] by (auto simp: Let_def min_def split: if_splits)
qed

lemma split_at_number:
  assumes "tagged_in_order ts"
  obtains lo hi where "ts = lo @ hi" and "takeWhile (\<lambda>c. \<not> at_or_past n (any_tag c)) ts = lo"
    and "\<forall>c \<in> set lo. tag_number (any_tag c) < n" and "hi = [] \<or> n \<le> tag_number (any_tag (hd hi))"
proof -
  let ?P = "\<lambda>c. \<not> at_or_past n (any_tag c)"
  have past: "at_or_past n (any_tag c) \<longleftrightarrow> n \<le> tag_number (any_tag c)" if "c \<in> set ts" for c
    using assms that by (auto simp: tagged_in_order_def list_all_iff)
  have "\<forall>c \<in> set (takeWhile ?P ts). tag_number (any_tag c) < n"
    using past by (auto dest: set_takeWhileD)
  moreover have "dropWhile ?P ts = [] \<or> n \<le> tag_number (any_tag (hd (dropWhile ?P ts)))"
    using past hd_dropWhile [of ?P ts] by (metis hd_in_set set_dropWhileD)
  ultimately show thesis by (intro that [of "takeWhile ?P ts" "dropWhile ?P ts"]) simp_all
qed

lemma find_append: "find P (xs @ ys) = (case find P xs of None \<Rightarrow> find P ys | Some x \<Rightarrow> Some x)"
  by (induction xs) auto

lemma tagged_field_None:
  "(\<forall>c \<in> set cs. \<forall>b. any_tag c \<noteq> ContextSpecific b n) \<Longrightarrow> tagged_field n cs = None"
  by (auto simp: tagged_field_def find_None_iff)

lemma tagged_field_append:
  "tagged_field n (xs @ ys) = (case tagged_field n xs of None \<Rightarrow> tagged_field n ys | Some x \<Rightarrow> Some x)"
  unfolding tagged_field_def by (rule find_append)

lemma tagged_field_Cons:
  "tagged_field m (c # cs) = (if \<exists>b. any_tag c = ContextSpecific b m then Some c else tagged_field m cs)"
  by (simp add: tagged_field_def)

lemma tagged_field_untagged: "list_all untagged us \<Longrightarrow> tagged_field n us = None"
  by (intro tagged_field_None) (auto simp: list_all_iff untagged_def)

lemma set_tagged_splice:
  assumes laws: "wire_laws api" and set: "set_tagged api n value_der (us @ ts) = Inr cs'"
    and us: "list_all untagged us" and ts: "tagged_in_order ts"
  obtains v lo hi hi' where "value_der = Inr v" and "ts = lo @ hi"
    and "cs' = us @ lo @ \<lparr>any_tag = ContextSpecific True n, any_value = v\<rparr> # hi'"
    and "\<forall>c \<in> set lo. tag_number (any_tag c) < n" and "\<forall>c \<in> set hi'. n < tag_number (any_tag c)"
    and "hi = hi' \<or> (\<exists>old. hi = old # hi' \<and> any_tag old = ContextSpecific True n)"
proof -
  obtain lo hi where split: "ts = lo @ hi" "takeWhile (\<lambda>c. \<not> at_or_past n (any_tag c)) ts = lo"
    "\<forall>c \<in> set lo. tag_number (any_tag c) < n" "hi = [] \<or> n \<le> tag_number (any_tag (hd hi))"
    by (rule split_at_number [OF ts, of n])
  have position: "length (takeWhile (\<lambda>c. \<not> at_or_past n (any_tag c)) (us @ ts)) = length us + length lo"
    using us split(2) takeWhile_append2 [of us "\<lambda>c. \<not> at_or_past n (any_tag c)" ts]
    by (auto simp: list_all_iff at_or_past_untagged)
  obtain v where v: "value_der = Inr v" and cs': "cs' =
      (if hi \<noteq> [] \<and> any_tag (hd hi) = ContextSpecific True n
       then us @ lo @ \<lparr>any_tag = ContextSpecific True n, any_value = v\<rparr> # tl hi
       else us @ lo @ \<lparr>any_tag = ContextSpecific True n, any_value = v\<rparr> # hi)"
    using set unfolding set_tagged_Inr [OF laws] Let_def position unfolding split(1)
    by (cases hi) (auto simp: nth_append list_update_append)
  have order: "sorted_wrt (<) (map (\<lambda>c. tag_number (any_tag c)) hi)"
    and tags: "list_all (\<lambda>c. \<exists>k. any_tag c = ContextSpecific True k) hi"
    using ts by (auto simp: tagged_in_order_def split(1) sorted_wrt_append)
  show thesis
  proof (cases "hi \<noteq> [] \<and> any_tag (hd hi) = ContextSpecific True n")
    case True
    then obtain old rest where hi: "hi = old # rest" "any_tag old = ContextSpecific True n" by (cases hi) auto
    with order have "\<forall>c \<in> set rest. n < tag_number (any_tag c)" by simp
    with v split cs' hi show thesis by (intro that [of v lo hi rest]) auto
  next
    case False
    have "\<forall>c \<in> set hi. n < tag_number (any_tag c)"
      using False split(4) order tags by (cases hi) (auto simp: le_less)
    with v split cs' False show thesis by (intro that [of v lo hi hi]) auto
  qed
qed

text \<open>
  C24. Setting a tagged field updates exactly that field: in a SEQUENCE whose context fields close it in
  tag order, the field under the number becomes the new value, every other field and every
  untagged component stays as it was, and the fields are still in tag order.
\<close>

theorem set_tagged_updates_one_field:
  assumes "wire_laws api" and "well_tagged cs" and "set_tagged api n (Inr v) cs = Inr cs'"
  shows "well_tagged cs' \<and> filter untagged cs' = filter untagged cs \<and>
    tagged_field m cs' = (if m = n then Some \<lparr>any_tag = ContextSpecific True n, any_value = v\<rparr> else tagged_field m cs)"
proof -
  obtain us ts where cs: "cs = us @ ts" "list_all untagged us" "tagged_in_order ts"
    using assms(2) by (auto simp: well_tagged_def)
  let ?field = "\<lparr>any_tag = ContextSpecific True n, any_value = v\<rparr>"
  obtain w lo hi hi' where splice: "(Inr v :: wire_error + bytes) = Inr w" "ts = lo @ hi" "cs' = us @ lo @ \<lparr>any_tag = ContextSpecific True n, any_value = w\<rparr> # hi'"
    "\<forall>c \<in> set lo. tag_number (any_tag c) < n" "\<forall>c \<in> set hi'. n < tag_number (any_tag c)"
    "hi = hi' \<or> (\<exists>old. hi = old # hi' \<and> any_tag old = ContextSpecific True n)"
    by (rule set_tagged_splice [OF assms(1) assms(3)[unfolded cs(1)] cs(2,3)])
  then have cs': "cs' = us @ lo @ ?field # hi'" by simp
  have tagged: "list_all (\<lambda>c. \<exists>k. any_tag c = ContextSpecific True k) (lo @ hi)"
    using cs(3) by (simp add: tagged_in_order_def splice(2))
  have "tagged_in_order (lo @ ?field # hi')"
    using cs(3) splice(4,5,6) by (auto simp: tagged_in_order_def splice(2) sorted_wrt_append)
  then have "well_tagged cs'" using cs(2) unfolding cs' well_tagged_def by blast
  moreover have "filter untagged cs' = us" "filter untagged cs = us"
  proof -
    have "filter untagged us = us" using cs(2) by (simp add: list_all_iff)
    moreover have "\<forall>c \<in> set (lo @ hi). \<not> untagged c" using tagged unfolding list_all_iff untagged_def by blast
    then have "filter untagged (lo @ hi) = []" "filter untagged (lo @ ?field # hi') = []"
      using splice(6) by (auto simp: filter_empty_conv untagged_def [of ?field])
    ultimately show "filter untagged cs' = us" "filter untagged cs = us"
      unfolding cs' cs(1) splice(2) by (metis append_Nil2 filter_append)+
  qed
  moreover have "tagged_field m cs' = (if m = n then Some ?field else tagged_field m cs)"
  proof -
    have "tagged_field n lo = None" by (rule tagged_field_None) (use splice(4) in fastforce)
    then show ?thesis
      using splice(6) tagged_field_untagged [OF cs(2)]
      by (auto simp: cs' cs(1) splice(2) tagged_field_append tagged_field_Cons split: option.split)
  qed
  ultimately show ?thesis by simp
qed

section \<open>A concrete encoding\<close>

text \<open>
  The laws can hold: DER with one-octet tags and short lengths, and a frame decoder that reads the
  body and, from the field tagged 1, the signer info. A signer info is a two-octet key identifier
  and the signature.
\<close>

definition byte_tag :: "u8 \<Rightarrow> tag" where
  "byte_tag x =
     (if x = 0x30 then TagSequence else if x = 0x04 then TagOctetString
      else if x = 0xA0 then ContextSpecific True 0 else if x = 0xA1 then ContextSpecific True 1
      else if x = 0xA2 then ContextSpecific True 2 else TagOther (unat x))"

definition tag_byte :: "tag \<Rightarrow> u8 option" where
  "tag_byte t = find (\<lambda>x. byte_tag x = t)
     ([0x30, 0x04, 0xA0, 0xA1, 0xA2] @ (case t of TagOther n \<Rightarrow> [of_nat n] | _ \<Rightarrow> []))"

definition short_encode :: "der_any \<Rightarrow> wire_error + bytes" where
  "short_encode a =
     (case tag_byte (any_tag a) of
        None \<Rightarrow> Inl (Upstream ''tag'')
      | Some x \<Rightarrow> if length (any_value a) < 128 then Inr (x # of_nat (length (any_value a)) # any_value a)
                  else Inl (Upstream ''length''))"

definition short_decode :: "u8 \<Rightarrow> bytes \<Rightarrow> wire_error + der_any \<times> nat" where
  "short_decode x xs =
     (case xs of
        [] \<Rightarrow> Inl (Upstream ''end'')
      | l # ys \<Rightarrow> if unat l < 128 \<and> unat l \<le> length ys
                  then Inr (\<lparr>any_tag = byte_tag x, any_value = take (unat l) ys\<rparr>, Suc (unat l))
                  else Inl (Upstream ''length''))"

definition short_from_der :: "bytes \<Rightarrow> wire_error + der_any" where
  "short_from_der b =
     (case b of
        [] \<Rightarrow> Inl (Upstream ''end'')
      | x # xs \<Rightarrow> and_then (short_decode x xs) (\<lambda>(a, n). if n = length xs then Inr a else Inl (Upstream ''trailing'')))"

definition short_open :: "bytes \<Rightarrow> wire_error + bytes" where
  "short_open b =
     and_then (short_from_der b) (\<lambda>a. if any_tag a = TagSequence then Inr (any_value a) else Inl (Upstream ''tag''))"

definition base_api :: "(bytes, bytes, signer_identifier \<times> bytes) wire_api" where
  "base_api =
     \<lparr>any_decode = short_decode, any_from_der = short_from_der, any_to_der = short_encode,
      any_new = (\<lambda>t v. Inr \<lparr>any_tag = t, any_value = v\<rparr>),
      sequence_open = short_open, sequence_close = (\<lambda>c. short_encode \<lparr>any_tag = TagSequence, any_value = c\<rparr>),
      octets_new = Inr, octets_to_der = (\<lambda>m. short_encode \<lparr>any_tag = TagOctetString, any_value = m\<rparr>),
      body_to_der = Inr, body_from_der = Inr,
      digest_info_to_der = (\<lambda>i. Inr (digest_octets i)), compressed_data_to_der = (\<lambda>c. Inr []),
      envelope_parse = Inr, envelope_to_der = Inr, envelope_algorithm = (\<lambda>_. []),
      parse_salt = (\<lambda>s. if s = [] then Inr Plain else if length s < 16 then Inl (Upstream ''salt'') else Inr Hiding),
      builder_build = (\<lambda>d. Inl InvalidBody), frame_to_der = (\<lambda>f. Inl InvalidBody), frame_from_der = (\<lambda>b. Inl InvalidBody),
      frame_to_tbs = (\<lambda>f. Inr (frame_body f)), attach_signer_info = (\<lambda>f si. Inr (f\<lparr>nonrepudiation := Some si\<rparr>)),
      cms_draft = (\<lambda>sid tbs. Inr (sid, tbs)), draft_prehash = snd,
      draft_complete = (\<lambda>d sg. case fst d of
         SubjectKeyIdentifier k \<Rightarrow> if length k = 2 then Inr (k @ sg) else Inl (Upstream ''key'')
       | IssuerAndSerialNumber k \<Rightarrow> Inl (Upstream ''key'')),
      signer_sid = (\<lambda>si. SubjectKeyIdentifier (take 2 si)), signer_algorithm = (\<lambda>_. []),
      signer_digest_algorithm = (\<lambda>_. []), signer_signature = drop 2, data_oid = []\<rparr>"

definition plain_frame :: "bytes \<Rightarrow> bytes option \<Rightarrow> (bytes, bytes) frame" where
  "plain_frame message signer =
     \<lparr>frame_version = V0, frame_id = [], frame_order = 0, frame_body = message, frame_priority = None,
      frame_lifetime = None, previous_frame = None, frame_matrix = None, frame_compactness = None,
      metadata_integrity = None, frame_confidentiality = None, frame_integrity = None, nonrepudiation = signer\<rparr>"

definition read_frame :: "bytes \<Rightarrow> wire_error + (bytes, bytes) frame" where
  "read_frame b =
     and_then (raw_from_der base_api b) (\<lambda>cs.
       if 3 \<le> length cs \<and> list_all (\<lambda>c. case any_tag c of ContextSpecific _ _ \<Rightarrow> False | _ \<Rightarrow> True) (take 3 cs)
       then Inr (plain_frame (any_value (cs ! 2)) (map_option any_value (find (\<lambda>c. any_tag c = ContextSpecific True 1) cs)))
       else Inl InvalidBody)"

definition show_frame :: "(bytes, bytes) frame \<Rightarrow> wire_error + bytes" where
  "show_frame f =
     and_then (raw_to_der base_api
       ([\<lparr>any_tag = TagOther 2, any_value = [0]\<rparr>,
         \<lparr>any_tag = TagSequence, any_value = [4, 1, 9, 2, 1, 0]\<rparr>,
         \<lparr>any_tag = TagOctetString, any_value = frame_body f\<rparr>] @
        (case nonrepudiation f of None \<Rightarrow> [] | Some si \<Rightarrow> [\<lparr>any_tag = ContextSpecific True 1, any_value = si\<rparr>])))
       (\<lambda>b. and_then (read_frame b) (\<lambda>g. if g = f then Inr b else Inl InvalidBody))"

definition example_api :: "(bytes, bytes, signer_identifier \<times> bytes) wire_api" where
  "example_api = base_api\<lparr>builder_build := \<lambda>d. Inr (plain_frame (draft_message d) None),
     frame_to_der := show_frame, frame_from_der := read_frame\<rparr>"

lemma raw_from_der_example: "raw_from_der example_api = raw_from_der base_api"
proof -
  have "decode_value example_api b = decode_value base_api b" for b
    by (induction "base_api" b rule: decode_value.induct) (auto simp: example_api_def intro!: and_then_cong)
  then have "decode_value example_api = decode_value base_api" by (rule ext)
  then show ?thesis by (intro ext) (simp add: raw_from_der_def, simp add: example_api_def)
qed

lemma tag_byte_byte_tag: "tag_byte (byte_tag x) = Some x"
  unfolding byte_tag_def [of x] tag_byte_def by (auto simp: byte_tag_def)

lemma tag_byte_Some: "tag_byte t = Some x \<longleftrightarrow> byte_tag x = t"
  using tag_byte_byte_tag [of x] by (auto simp: tag_byte_def dest: find_Some_iff [THEN iffD1])

lemma short_decode_encode:
  assumes "short_encode a = Inr b"
  shows "\<exists>x xs. b = x # xs \<and> (\<forall>rest. short_decode x (xs @ rest) = Inr (a, length xs))"
proof -
  obtain x where "tag_byte (any_tag a) = Some x" "length (any_value a) < 128"
    "b = x # of_nat (length (any_value a)) # any_value a"
    using assms by (auto simp: short_encode_def split: option.splits if_splits)
  moreover from this(2) have "unat (of_nat (length (any_value a)) :: u8) = length (any_value a)"
    by (simp add: unat_of_nat)
  ultimately show ?thesis by (auto simp: short_decode_def tag_byte_Some)
qed

lemma short_canonical: "short_encode a = Inr b \<longleftrightarrow> short_from_der b = Inr a"
proof
  assume "short_encode a = Inr b"
  from short_decode_encode [OF this] obtain x xs where "b = x # xs" "\<forall>rest. short_decode x (xs @ rest) = Inr (a, length xs)"
    by blast
  then show "short_from_der b = Inr a" using append_Nil2 [of xs] by (auto simp: short_from_der_def dest: spec [of _ "[]"])
next
  assume "short_from_der b = Inr a"
  then obtain x l ys where "b = x # l # ys" "unat l < 128" "unat l = length ys" "a = \<lparr>any_tag = byte_tag x, any_value = ys\<rparr>"
    by (auto simp: short_from_der_def short_decode_def result_simps split: list.splits if_splits)
  moreover have "(of_nat (unat l) :: u8) = l" by simp
  moreover have "tag_byte (byte_tag x) = Some x" by (simp add: tag_byte_Some)
  ultimately show "short_encode a = Inr b" by (simp add: short_encode_def)
qed

lemma example_wire_laws: "wire_laws example_api"
proof -
  have "list_all untagged cs" if "list_all (\<lambda>c. case any_tag c of ContextSpecific _ _ \<Rightarrow> False | _ \<Rightarrow> True) cs" for cs
    using that by (auto simp: list_all_iff untagged_def)
  then have frames: "3 \<le> length cs \<and> list_all untagged (take 3 cs) \<and> frame_body f = any_value (cs ! 2)"
    if "read_frame b = Inr f" "raw_from_der base_api b = Inr cs" for b f cs
    using that by (auto simp: read_frame_def plain_frame_def result_simps split: if_splits)
  have sequences: "short_open b = Inr c" if "short_encode \<lparr>any_tag = TagSequence, any_value = c\<rparr> = Inr b" for c b
    using that by (simp add: short_open_def short_canonical)
  show ?thesis
    unfolding wire_laws_def raw_from_der_example
    using short_decode_encode short_canonical frames sequences
    by (simp add: example_api_def base_api_def)
qed

lemma read_show_frame: "show_frame f = Inr b \<Longrightarrow> read_frame b = Inr f"
  unfolding show_frame_def by (auto simp: result_simps split: if_split_asm)

lemma example_signing_laws: "signing_laws example_api"
  unfolding signing_laws_def
  by (auto simp: example_api_def base_api_def read_show_frame split: if_splits signer_identifier.splits)

section \<open>The body, the witness and the signature\<close>

lemma set_message_Inr:
  assumes "wire_laws api" and "set_message api m w = Inr w'"
  shows "w' = w\<lparr>frame_components := (frame_components w)[FRAME_MESSAGE := \<lparr>any_tag = TagOctetString, any_value = m\<rparr>]\<rparr> \<and>
    FRAME_MESSAGE < length (frame_components w)"
  using assms any_to_der_inj [OF assms(1)]
  by (auto simp: set_message_def result_simps get_at_Some wire_law_simps(2,4) [OF assms(1)])

lemma finish_body:
  assumes laws: "wire_laws api" and set: "set_message api m w = Inr w'" and fin: "wire_finish api w' = Inr b"
  shows "\<exists>f. frame_from_der api b = Inr f \<and> frame_body f = m"
proof -
  from fin obtain metadata f where raw: "raw_from_der api b = Inr ((frame_components w')[FRAME_METADATA := metadata])"
    and f: "frame_from_der api b = Inr f" by (rule finish_parse [OF laws])
  from wire_law_simps(6) [OF laws f raw] set_message_Inr [OF laws set]
  have "frame_body f = m" by (simp add: FRAME_METADATA_def FRAME_MESSAGE_def)
  with f show ?thesis by blast
qed

lemma config_body:
  assumes "wire_laws api" and "config_build api c = Inr b"
  shows "\<exists>f. frame_from_der api b = Inr f \<and> frame_body f = config_message c"
  using finish_body [OF assms(1)] assms(2) by (auto simp: config_build_def result_simps)

text \<open>
  The body travels untouched: whatever octets a caller gives a new frame, a sealed frame or a
  compressed frame, the frame that comes out decodes to exactly those octets.
\<close>

lemma spliced_body_is_exact:
  assumes "wire_laws api"
  shows "(config_build api c = Inr b \<longrightarrow> (\<exists>f. frame_from_der api b = Inr f \<and> frame_body f = config_message c)) \<and>
    (set_confidentiality api der envelope ciphertext = Inr b \<longrightarrow>
       (\<exists>f. frame_from_der api b = Inr f \<and> frame_body f = ciphertext)) \<and>
    (set_compactness api der content oid parameters compressed = Inr b \<longrightarrow>
       (\<exists>f. frame_from_der api b = Inr f \<and> frame_body f = compressed))"
  using finish_body [OF assms] config_body [OF assms]
  by (auto simp: set_confidentiality_def set_compactness_def result_simps Let_def)

definition example_der_frame :: bytes where
  "example_der_frame = [48, 16, 2, 1, 0, 48, 6, 4, 1, 9, 2, 1, 0, 4, 3, 1, 2, 3]"

text \<open>The witness of the tagged-field property: a metadata SEQUENCE with fields 0 and 1 gets a new field 0.\<close>

theorem set_tagged_updates_one_field_witness:
  "tagged_field 1 [\<lparr>any_tag = TagOctetString, any_value = [9]\<rparr>, \<lparr>any_tag = ContextSpecific True 0, any_value = [3]\<rparr>,
     \<lparr>any_tag = ContextSpecific True 1, any_value = [2]\<rparr>] = Some \<lparr>any_tag = ContextSpecific True 1, any_value = [2]\<rparr>"
proof -
  let ?id = "\<lparr>any_tag = TagOctetString, any_value = [9]\<rparr>"
  let ?cs = "[?id, \<lparr>any_tag = ContextSpecific True 0, any_value = [1]\<rparr>, \<lparr>any_tag = ContextSpecific True 1, any_value = [2]\<rparr>]"
  have "well_tagged ?cs"
    unfolding well_tagged_def
    by (intro exI [of _ "[?id]"] exI [of _ "tl ?cs"]) (simp add: untagged_def tagged_in_order_def)
  moreover have "set_tagged example_api 0 (Inr [3]) ?cs =
      Inr [?id, \<lparr>any_tag = ContextSpecific True 0, any_value = [3]\<rparr>, \<lparr>any_tag = ContextSpecific True 1, any_value = [2]\<rparr>]"
    by (simp add: set_tagged_def example_api_def base_api_def)
  ultimately show ?thesis
    using set_tagged_updates_one_field [OF example_wire_laws, of ?cs 0 "[3]" _ 1] by (auto simp: tagged_field_Cons)
qed

lemma attach_witness_parts:
  assumes "wire_laws api" and "attach_witness api der oid digest = Inr der'"
  obtains w w' value_der cs where "wire_parse api der = Inr w" and "wire_parse api der' = Inr w'"
    and "set_tagged api INTEGRITY_FIELD value_der (frame_components w) = Inr cs"
    and "take 1 (frame_components w') = take 1 cs" and "metadata_components w' = metadata_components w"
proof -
  from assms(2) obtain w value_der cs where steps: "wire_parse api der = Inr w"
    "set_tagged api INTEGRITY_FIELD value_der (frame_components w) = Inr cs"
    "wire_finish api (w\<lparr>frame_components := cs\<rparr>) = Inr der'"
    by (auto simp: attach_witness_def result_simps Let_def)
  from steps(3) obtain m f where "wire_parse api der' =
      Inr ((w\<lparr>frame_components := cs\<rparr>)\<lparr>frame_components := (frame_components (w\<lparr>frame_components := cs\<rparr>))[FRAME_METADATA := m]\<rparr>)"
    by (rule finish_parse [OF assms(1)])
  with steps show thesis
    by (intro that [of w "w\<lparr>frame_components := cs[FRAME_METADATA := m]\<rparr>" value_der cs]) (simp_all add: FRAME_METADATA_def)
qed

text \<open>
  A witness does not disturb what it covers: the preimage a verifier recomputes from the
  witnessed frame is the preimage that was hashed before the witness was attached.
\<close>

lemma witness_survives_attachment:
  assumes "wire_laws api" and "attach_witness api der oid digest = Inr der'"
  shows "witness_input api der' = witness_input api der"
proof -
  obtain w w' value_der cs where parts: "wire_parse api der = Inr w" "wire_parse api der' = Inr w'"
    "set_tagged api INTEGRITY_FIELD value_der (frame_components w) = Inr cs"
    "take 1 (frame_components w') = take 1 cs" "metadata_components w' = metadata_components w"
    by (rule attach_witness_parts [OF assms])
  note front = parse_components [OF assms(1) parts(1)]
  have "list_all untagged (take 1 (frame_components w))" "1 \<le> length (frame_components w)"
    using front by (cases "frame_components w"; simp)+
  from set_tagged_keeps_front [OF assms(1) parts(3) this]
  have "take 1 (frame_components w') = take 1 (frame_components w)" using parts(4) by simp
  then have "get_at 0 (frame_components w') = get_at 0 (frame_components w)"
    by (cases "frame_components w"; cases "frame_components w'") (auto simp: get_at_def)
  with parts show ?thesis by (simp add: witness_input_def wire_witness_input_def)
qed

text \<open>
  C25. The digest a verifier checks is the digest the signer signed: attaching a signature leaves the
  bytes to be signed alone, and the prehash drawn from the signed frame, for the signer it names,
  is the one computed for the unsigned frame under the signer's key identifier.
\<close>

theorem verifier_prehash_is_signer_prehash:
  assumes "signing_laws api" and "attach_signature api der signature key = Inr der'"
  shows "signature_prehash api der' = signing_prehash api der key \<and> tbs_bytes api der' = tbs_bytes api der"
proof -
  from assms(2) obtain f sid d si g where steps: "frame_from_der api der = Inr f" "signer_identifier_of api key = Inr sid"
    "signature_draft api f sid = Inr d" "draft_complete api d signature = Inr si"
    "attach_signer_info api f si = Inr g" "frame_to_der api g = Inr der'"
    by (auto simp: attach_signature_def result_simps)
  then have "frame_from_der api der' = Inr g" "g = f\<lparr>nonrepudiation := Some si\<rparr>" "signer_sid api si = sid"
    using assms(1) by (auto simp: signing_laws_def signature_draft_def result_simps)
  moreover have "frame_to_tbs api (f\<lparr>nonrepudiation := x\<rparr>) = frame_to_tbs api f" for x
    using assms(1) by (simp add: signing_laws_def)
  ultimately show ?thesis
    using steps(1-3) by (simp add: signature_prehash_def signing_prehash_def signature_draft_def tbs_bytes_def ok_or_def)
qed

theorem verifier_prehash_is_signer_prehash_witness:
  "signature_prehash example_api [48, 22, 2, 1, 0, 48, 6, 4, 1, 9, 2, 1, 0, 4, 3, 1, 2, 3, 161, 4, 5, 6, 9, 9] =
     signing_prehash example_api example_der_frame [5, 6]"
proof -
  have "attach_signature example_api example_der_frame [9, 9] [5, 6] =
      Inr [48, 22, 2, 1, 0, 48, 6, 4, 1, 9, 2, 1, 0, 4, 3, 1, 2, 3, 161, 4, 5, 6, 9, 9]"
    by code_simp
  from verifier_prehash_is_signer_prehash [OF example_signing_laws this] show ?thesis ..
qed

section \<open>Commitments\<close>

lemma to_be_bytes_inj: "to_be_bytes a = to_be_bytes b \<longleftrightarrow> a = b"
proof
  assume eq: "to_be_bytes a = to_be_bytes b"
  have digit: "unat (word_of_nat n :: u8) = n mod 256" for n by (simp add: unat_of_nat)
  have digits: "unat a div 256 ^ i mod 256 = unat b div 256 ^ i mod 256" if "i \<in> set [7, 6, 5, 4, 3, 2, 1, 0]" for i
  proof -
    have "(word_of_nat (unat a div 256 ^ i) :: u8) = word_of_nat (unat b div 256 ^ i)"
      using eq that unfolding to_be_bytes_def map_eq_conv by blast
    then show ?thesis using digit by metis
  qed
  have step: "n div 256 ^ i = n div 256 ^ Suc i * 256 + n div 256 ^ i mod 256" for n i :: nat
    by (simp add: div_mult2_eq mult.commute [of 256])
  have down: "unat a div 256 ^ i = unat b div 256 ^ i"
    if "j = Suc i" "i \<in> set [7, 6, 5, 4, 3, 2, 1, 0]" "unat a div 256 ^ j = unat b div 256 ^ j" for i j
  proof -
    have "unat a div 256 ^ i = unat a div 256 ^ j * 256 + unat a div 256 ^ i mod 256" unfolding that(1) by (rule step)
    also have "\<dots> = unat b div 256 ^ j * 256 + unat b div 256 ^ i mod 256" by (simp only: that(3) digits [OF that(2)])
    also have "\<dots> = unat b div 256 ^ i" unfolding that(1) by (rule step [symmetric])
    finally show ?thesis .
  qed
  have "unat a div 256 ^ 8 = 0" "unat b div 256 ^ 8 = 0"
    using unat_less_u64 [of a] unat_less_u64 [of b] by simp_all
  then have e8: "unat a div 256 ^ 8 = unat b div 256 ^ 8" by (simp only:)
  have e7: "unat a div 256 ^ 7 = unat b div 256 ^ 7" by (rule down [OF _ _ e8]) simp_all
  have e6: "unat a div 256 ^ 6 = unat b div 256 ^ 6" by (rule down [OF _ _ e7]) simp_all
  have e5: "unat a div 256 ^ 5 = unat b div 256 ^ 5" by (rule down [OF _ _ e6]) simp_all
  have e4: "unat a div 256 ^ 4 = unat b div 256 ^ 4" by (rule down [OF _ _ e5]) simp_all
  have e3: "unat a div 256 ^ 3 = unat b div 256 ^ 3" by (rule down [OF _ _ e4]) simp_all
  have e2: "unat a div 256 ^ 2 = unat b div 256 ^ 2" by (rule down [OF _ _ e3]) simp_all
  have e1: "unat a div 256 ^ 1 = unat b div 256 ^ 1" by (rule down [OF _ _ e2]) simp_all
  have "unat a div 256 ^ 0 = unat b div 256 ^ 0" by (rule down [OF _ _ e1]) simp_all
  then show "a = b" by (simp add: word_unat_eq_iff)
qed simp

lemma length_to_be_bytes [simp]: "length (to_be_bytes w) = 8"
  by (simp add: to_be_bytes_def)

text \<open>
  C26. The commitment preimage binds salt and body together: two openings with the same preimage have
  the same salt and the same body. A hiding commitment never equals a plain one, and octets cannot
  move between salt and body.
\<close>

theorem commitment_preimage_binds:
  assumes plain: "\<forall>s. parse_salt api s = Inr Plain \<longrightarrow> s = []"
    and len: "length salt < 2 ^ 64" "length salt' < 2 ^ 64"
    and one: "commitment_preimage api salt body = Inr p" and two: "commitment_preimage api salt' body' = Inr p"
  shows "salt = salt' \<and> body = body'"
proof -
  have framed: "salt = salt' \<and> body = body'"
    if "to_be_bytes (of_nat (length salt)) @ salt @ body = to_be_bytes (of_nat (length salt')) @ salt' @ body'"
  proof -
    from that have "(of_nat (length salt) :: u64) = of_nat (length salt')" "salt @ body = salt' @ body'"
      by (auto simp: append_eq_append_conv to_be_bytes_inj)
    moreover from this(1) have "unat (of_nat (length salt) :: u64) = unat (of_nat (length salt') :: u64)" by simp
    then have "length salt = length salt'" using len by (simp add: unat_of_nat)
    ultimately show ?thesis by simp
  qed
  let ?mode = "\<lambda>s parsed. case parsed of Plain \<Rightarrow> [PLAIN_COMMITMENT]
    | Hiding \<Rightarrow> HIDING_COMMITMENT # to_be_bytes (of_nat (length s)) @ s"
  obtain a b where parsed: "parse_salt api salt = Inr a" "parse_salt api salt' = Inr b"
    and same: "?mode salt a @ body = ?mode salt' b @ body'"
    using one two by (auto simp: commitment_preimage_def result_simps)
  consider (plain) "a = Plain" "b = Plain" | (hiding) "a = Hiding" "b = Hiding" | (mixed) "a \<noteq> b"
    by (cases a; cases b) simp_all
  then show ?thesis
  proof cases
    case plain
    with parsed assms(1) have "salt = []" "salt' = []" by blast+
    with plain same show ?thesis by simp
  next
    case hiding
    with same framed show ?thesis by simp
  next
    case mixed
    with same show ?thesis by (cases a; cases b) (simp_all add: PLAIN_COMMITMENT_def HIDING_COMMITMENT_def)
  qed
qed

theorem commitment_preimage_binds_witness:
  "commitment_preimage example_api [] [7] = Inr [0, 7] \<and> ([] :: bytes) = [] \<and> [7] = [7 :: u8]"
proof -
  have "\<forall>s. parse_salt example_api s = Inr Plain \<longrightarrow> s = []" by (simp add: example_api_def base_api_def)
  moreover have "commitment_preimage example_api [] [7] = Inr [0, 7]"
    by (simp add: commitment_preimage_def example_api_def base_api_def PLAIN_COMMITMENT_def)
  ultimately show ?thesis using commitment_preimage_binds [of example_api "[]" "[]" "[7]" "[0, 7]" "[7]"] by simp
qed

end
