(* ===== verification/Ws_Work.thy ===== *)
theory Ws_Work
  imports Wire_Frame_Properties
begin

text \<open>
  The codec of the cluster work plane (\<^verbatim>\<open>ws/tightbeam-ws-wasm/src/work.rs\<close>): a work frame nested in a
  routing envelope and wrapped in a transport frame, and the reply it comes back with. The URN
  type and its encoding are a parameter.
\<close>

section \<open>Statuses and errors\<close>

datatype transit_status =
    TransitOk
  | Cancelled
  | Unknown
  | InvalidArgument
  | DeadlineExceeded
  | NotFound
  | AlreadyExists
  | PermissionDenied
  | ResourceExhausted
  | FailedPrecondition
  | Aborted
  | OutOfRange
  | Unimplemented
  | Internal
  | Unavailable
  | DataLoss
  | Unauthenticated

text \<open>The errors of this module: the two it raises, and what the frame code raised.\<close>

datatype work_error = WorkRefused transit_status | MissingResponse | WorkFrame wire_error

section \<open>The request\<close>

definition WORK_VARIANT_TAG :: nat where "WORK_VARIANT_TAG = 2"

record 'u work_request =
  servlet_type :: 'u
  work_der :: bytes
  correlation_id :: bytes

definition from_encoded :: "'u \<Rightarrow> bytes \<Rightarrow> ('e, 's) frame \<Rightarrow> 'u work_request" where
  "from_encoded servlet der work = \<lparr>servlet_type = servlet, work_der = der, correlation_id = frame_id work\<rparr>"

definition work_request_new ::
  "('e, 's, 'd) wire_api \<Rightarrow> 'u \<Rightarrow> ('e, 's) frame \<Rightarrow> wire_error + 'u work_request" where
  "work_request_new api servlet work = and_then (frame_to_der api work) (\<lambda>der. Inr (from_encoded servlet der work))"

text \<open>The value of the request SEQUENCE: the servlet type, then the work frame as an OCTET STRING.\<close>

definition work_body_value ::
  "('e, 's, 'd) wire_api \<Rightarrow> ('u \<Rightarrow> wire_error + bytes) \<Rightarrow> 'u \<Rightarrow> bytes \<Rightarrow> wire_error + bytes" where
  "work_body_value api urn_to_der servlet payload =
     and_then (urn_to_der servlet) (\<lambda>u. and_then (octets_to_der api payload) (\<lambda>o'. Inr (u @ o')))"

definition into_transport_frame ::
  "('e, 's, 'd) wire_api \<Rightarrow> ('u \<Rightarrow> wire_error + bytes) \<Rightarrow> 'u work_request \<Rightarrow> wire_error + ('e, 's) frame" where
  "into_transport_frame api urn_to_der w =
     and_then (work_body_value api urn_to_der (servlet_type w) (work_der w)) (\<lambda>contents.
     and_then (sequence_close api contents) (\<lambda>body.
     and_then (any_new api (ContextSpecific True WORK_VARIANT_TAG) body) (\<lambda>tagged.
     and_then (any_to_der api tagged) (\<lambda>message.
       let wrapper =
         \<lparr>config_version = Some V0, config_id = correlation_id w, config_order = 0, config_message = message,
          config_priority = None, config_lifetime = None, config_previous_hash = None, config_matrix = None\<rparr>
       in and_then (config_build api wrapper) (frame_from_der api)))))"

section \<open>The reply\<close>

record work_reply =
  reply_status :: transit_status
  reply_payload :: "bytes option"

text \<open>\<^verbatim>\<open>WorkReply::decode_value\<close>: a status, an optional OCTET STRING, and nothing after it.\<close>

fun reply_of_components ::
  "(der_any \<Rightarrow> wire_error + transit_status) \<Rightarrow> der_any list \<Rightarrow> wire_error + work_reply" where
  "reply_of_components status_of [] = Inl (Upstream ''incomplete'')"
| "reply_of_components status_of [s] =
     and_then (status_of s) (\<lambda>st. Inr \<lparr>reply_status = st, reply_payload = None\<rparr>)"
| "reply_of_components status_of (s # p # rest) =
     and_then (status_of s) (\<lambda>st.
       if any_tag p = TagOctetString \<and> rest = []
       then Inr \<lparr>reply_status = st, reply_payload = Some (any_value p)\<rparr>
       else Inl (Upstream ''trailing data''))"

definition reply_from_frame ::
  "('e, 's, 'd) wire_api \<Rightarrow> (der_any \<Rightarrow> wire_error + transit_status) \<Rightarrow> ('e, 's) frame \<Rightarrow> wire_error + work_reply" where
  "reply_from_frame api status_of frame =
     and_then (raw_from_der api (frame_body frame)) (reply_of_components status_of)"

definition refusal_checked :: "work_reply \<Rightarrow> work_error + bytes" where
  "refusal_checked r =
     (if reply_status r \<noteq> TransitOk then Inl (WorkRefused (reply_status r))
      else ok_or MissingResponse (reply_payload r))"

definition served :: "('e, 's, 'd) wire_api \<Rightarrow> work_reply \<Rightarrow> work_error + ('e, 's) frame" where
  "served api r = and_then (refusal_checked r) (\<lambda>payload. map_err WorkFrame (frame_from_der api payload))"

definition served_der :: "('e, 's, 'd) wire_api \<Rightarrow> work_reply \<Rightarrow> work_error + bytes" where
  "served_der api r =
     and_then (refusal_checked r) (\<lambda>payload.
     and_then (map_err WorkFrame (frame_from_der api payload)) (\<lambda>_. Inr payload))"

section \<open>Properties\<close>

text \<open>
  C28. The gateway receives the caller's frame octet for octet: the transport frame's body is the
  tagged \<^verbatim>\<open>Work\<close> variant of a SEQUENCE of exactly two components, the servlet type and an OCTET
  STRING holding the work frame's own encoding.
\<close>

theorem work_frame_nests_untouched:
  assumes laws: "wire_laws api" and urn: "\<forall>u b. urn_to_der u = Inr b \<longrightarrow> (\<exists>a. any_to_der api a = Inr b)"
    and built: "into_transport_frame api urn_to_der w = Inr f"
  shows "\<exists>inner u urn. any_from_der api (frame_body f) = Inr \<lparr>any_tag = ContextSpecific True WORK_VARIANT_TAG, any_value = inner\<rparr> \<and>
    urn_to_der (servlet_type w) = Inr u \<and> any_to_der api urn = Inr u \<and>
    raw_from_der api inner = Inr [urn, \<lparr>any_tag = TagOctetString, any_value = work_der w\<rparr>]"
proof -
  from built obtain u o' inner tagged message b where steps: "urn_to_der (servlet_type w) = Inr u"
    "octets_to_der api (work_der w) = Inr o'" "sequence_close api (u @ o') = Inr inner"
    "any_new api (ContextSpecific True WORK_VARIANT_TAG) inner = Inr tagged" "any_to_der api tagged = Inr message"
    "config_build api \<lparr>config_version = Some V0, config_id = correlation_id w, config_order = 0, config_message = message,
       config_priority = None, config_lifetime = None, config_previous_hash = None, config_matrix = None\<rparr> = Inr b"
    "frame_from_der api b = Inr f"
    by (auto simp: into_transport_frame_def work_body_value_def result_simps Let_def)
  have "frame_body f = message" using config_body [OF laws steps(6)] steps(7) by auto
  moreover have "tagged = \<lparr>any_tag = ContextSpecific True WORK_VARIANT_TAG, any_value = inner\<rparr>"
    using wire_law_simps(5) [OF laws steps(4)] .
  ultimately have outer: "any_from_der api (frame_body f) = Inr \<lparr>any_tag = ContextSpecific True WORK_VARIANT_TAG, any_value = inner\<rparr>"
    using steps(5) wire_law_simps(2) [OF laws] by simp
  obtain a where a: "any_to_der api a = Inr u" using urn steps(1) by blast
  have "raw_from_der api inner = Inr [a, \<lparr>any_tag = TagOctetString, any_value = work_der w\<rparr>]"
  proof (rule raw_round_trip [OF laws])
    show "raw_to_der api [a, \<lparr>any_tag = TagOctetString, any_value = work_der w\<rparr>] = Inr inner"
      using a steps(2,3) unfolding wire_law_simps(4) [OF laws] by (simp add: raw_to_der_def encode_value_def)
  qed
  with outer steps(1) a show ?thesis by blast
qed

definition example_urn_to_der :: "bytes \<Rightarrow> wire_error + bytes" where
  "example_urn_to_der u = any_to_der example_api \<lparr>any_tag = TagOther 12, any_value = u\<rparr>"

definition example_work :: "bytes work_request" where
  "example_work = \<lparr>servlet_type = [80], work_der = [48, 1, 7], correlation_id = []\<rparr>"

theorem work_frame_nests_untouched_witness:
  "\<exists>inner u urn. any_from_der example_api [162, 10, 48, 8, 12, 1, 80, 4, 3, 48, 1, 7] =
      Inr \<lparr>any_tag = ContextSpecific True 2, any_value = inner\<rparr> \<and>
    example_urn_to_der [80] = Inr u \<and> any_to_der example_api urn = Inr u \<and>
    raw_from_der example_api inner = Inr [urn, \<lparr>any_tag = TagOctetString, any_value = [48, 1, 7]\<rparr>]"
proof -
  have "into_transport_frame example_api example_urn_to_der example_work =
      Inr (plain_frame [162, 10, 48, 8, 12, 1, 80, 4, 3, 48, 1, 7] None)"
    by code_simp
  moreover have "\<forall>u b. example_urn_to_der u = Inr b \<longrightarrow> (\<exists>a. any_to_der example_api a = Inr b)"
    by (auto simp: example_urn_to_der_def)
  ultimately show ?thesis
    using work_frame_nests_untouched [OF example_wire_laws, of example_urn_to_der example_work]
    by (simp add: example_work_def plain_frame_def WORK_VARIANT_TAG_def)
qed

text \<open>
  A work reply resolves to the servlet's own octets or to a typed error: octets come back exactly
  when the status is Ok and the payload is a frame, and then they are the payload itself; any
  other status is a refusal, whatever the payload; an Ok without a payload is a missing response.
\<close>

lemma work_reply_resolves:
  "(served_der api r = Inr b \<longleftrightarrow>
      reply_status r = TransitOk \<and> reply_payload r = Some b \<and> (\<exists>f. frame_from_der api b = Inr f)) \<and>
   (served_der api r = Inl (WorkRefused st) \<longleftrightarrow> reply_status r = st \<and> st \<noteq> TransitOk) \<and>
   (served_der api r = Inl MissingResponse \<longleftrightarrow> reply_status r = TransitOk \<and> reply_payload r = None) \<and>
   (served api r = Inr f \<longleftrightarrow> (\<exists>p. served_der api r = Inr p \<and> frame_from_der api p = Inr f))"
proof -
  have wrapped: "map_err WorkFrame x \<noteq> Inl (WorkRefused st)" "map_err WorkFrame x \<noteq> Inl MissingResponse"
    for x :: "wire_error + ('a, 'b) frame" and st
    by (cases x; simp)+
  show ?thesis
    by (auto simp: served_der_def served_def refusal_checked_def result_simps wrapped)
qed

end
