(* ===== verification/Ws_Fault.thy ===== *)
theory Ws_Fault
  imports Js_Value Rust_Text Ws_Work
begin

text \<open>
  The boundary between the wasm client and JavaScript: structured errors
  (\<^verbatim>\<open>ws/tightbeam-ws-wasm/src/fault.rs\<close>), the promise helpers (\<^verbatim>\<open>promise.rs\<close>) and what a caller hands
  a session offer (\<^verbatim>\<open>approver.rs\<close>). A JavaScript call is what the callee does: it throws, returns a
  value, or returns a promise, which settles or never does. A future is its sequence of polls.
\<close>

section \<open>JavaScript calls\<close>

datatype js_call = Throws js_value | Returns js_value | ReturnsPromise "(js_value + js_value) option"

text \<open>Calling a function and awaiting what it returned; \<open>None\<close>: the promise never settles.\<close>

fun settled :: "js_call \<Rightarrow> (js_value + js_value) option" where
  "settled (Throws e) = Some (Inl e)"
| "settled (Returns v) = Some (Inr v)"
| "settled (ReturnsPromise p) = p"

text \<open>
  The host: which values are functions, and the octets of \<^verbatim>\<open>new Uint8Array(v)\<close> and of a value taken
  as a \<^verbatim>\<open>Uint8Array\<close> unchecked.
\<close>

record js_host =
  is_function :: "js_value \<Rightarrow> bool"
  uint8_new :: "js_value \<Rightarrow> bytes"
  uint8_cast :: "js_value \<Rightarrow> bytes"

text \<open>\<^verbatim>\<open>JsValue::as_f64\<close>, \<^verbatim>\<open>JsValue::as_string\<close>; \<^verbatim>\<open>Reflect::get\<close> throws a \<^verbatim>\<open>TypeError\<close> on a primitive.\<close>

fun as_f64 :: "js_value \<Rightarrow> js_number option" where
  "as_f64 (JNumber n) = Some n"
| "as_f64 _ = None"

fun string_value :: "js_value \<Rightarrow> string option" where
  "string_value (JString s) = Some s"
| "string_value _ = None"

definition TYPE_ERROR :: js_value where
  "TYPE_ERROR = JObject [(''name'', JString ''TypeError'')]"

definition js_get :: "js_value \<Rightarrow> string \<Rightarrow> js_value + js_value" where
  "js_get v name = map_err (\<lambda>_. TYPE_ERROR) (reflect_get v name)"

text \<open>\<^verbatim>\<open>let _ = Reflect::set(...)\<close>.\<close>

definition set_property :: "js_value \<Rightarrow> string \<Rightarrow> js_value \<Rightarrow> js_value" where
  "set_property obj name v = (case reflect_set obj name v of Inr obj' \<Rightarrow> obj' | Inl _ \<Rightarrow> obj)"

section \<open>Structured errors\<close>

definition TRANSPORT_ERROR_NAME :: string where
  "TRANSPORT_ERROR_NAME = ''TightbeamTransportError''"

definition fault_to_js :: "string \<Rightarrow> js_value" where
  "fault_to_js display = JString display"

text \<open>\<^verbatim>\<open>Error::new\<close>.\<close>

definition js_error :: "string \<Rightarrow> js_value" where
  "js_error message = JObject [(''message'', JString message)]"

definition coded :: "string \<Rightarrow> string \<Rightarrow> js_value" where
  "coded code display =
     set_property (set_property (js_error display) ''name'' (JString TRANSPORT_ERROR_NAME)) ''code'' (JString code)"

definition validation :: "string \<Rightarrow> string \<Rightarrow> js_value" where
  "validation code message = coded code message"

definition connection_closed :: "string \<Rightarrow> js_value" where
  "connection_closed message = coded ''ConnectionClosed'' message"

definition variant_name :: "string \<Rightarrow> string" where
  "variant_name debug = trim_end (takeWhile (\<lambda>c. c \<notin> set ''({ '') debug)"

definition debug_coded :: "string \<Rightarrow> string \<Rightarrow> js_value" where
  "debug_coded debug display = coded (variant_name debug) display"

text \<open>A transport error: its case, with the \<^verbatim>\<open>Debug\<close> text of the failure inside, and its own texts.\<close>

datatype transport_case = OperationFailed string | MessageNotSent string | OtherTransport

record transport_fault =
  fault_case :: transport_case
  fault_debug :: string
  fault_display :: string

definition transport_to_js :: "transport_fault \<Rightarrow> js_value" where
  "transport_to_js error =
     (case fault_case error of
        OperationFailed failure \<Rightarrow> coded failure (fault_display error)
      | MessageNotSent failure \<Rightarrow> coded failure (fault_display error)
      | OtherTransport \<Rightarrow> debug_coded (fault_debug error) (fault_display error))"

text \<open>The texts upstream gives its errors and statuses.\<close>

record error_texts =
  status_debug :: "transit_status \<Rightarrow> string"
  work_debug :: "work_error \<Rightarrow> string"
  work_display :: "work_error \<Rightarrow> string"
  wire_debug :: "wire_error \<Rightarrow> string"
  wire_display :: "wire_error \<Rightarrow> string"
  urn_display :: "string \<Rightarrow> string"

definition work_error_to_js :: "error_texts \<Rightarrow> work_error \<Rightarrow> js_value" where
  "work_error_to_js texts error =
     (let js_error = debug_coded (work_debug texts error) (work_display texts error)
      in case error of
           WorkRefused status \<Rightarrow> set_property js_error ''status'' (JString (status_debug texts status))
         | _ \<Rightarrow> js_error)"

lemma coded_fields [simp]:
  "reflect_get (coded code display) ''code'' = Inr (JString code)"
  "reflect_get (coded code display) ''message'' = Inr (JString display)"
  by (simp_all add: coded_def js_error_def set_property_def)

lemma debug_coded_code [simp]:
  "reflect_get (debug_coded debug display) ''code'' = Inr (JString (variant_name debug))"
  by (simp add: debug_coded_def)

lemma work_error_fields:
  "reflect_get (work_error_to_js texts e) ''code'' = Inr (JString (variant_name (work_debug texts e)))"
  "reflect_get (work_error_to_js texts (WorkRefused st)) ''status'' = Inr (JString (status_debug texts st))"
  by (simp_all add: work_error_to_js_def debug_coded_def coded_def js_error_def set_property_def Let_def
      split: work_error.split)

lemma variant_name_payload:
  assumes "\<forall>c \<in> set name. c \<notin> set ''({ '' \<and> c \<notin> set (concat white_space)" and "c \<in> set ''({ ''"
  shows "variant_name (name @ c # rest) = name" and "variant_name name = name"
proof -
  have "takeWhile (\<lambda>c. c \<notin> set ''({ '') (name @ c # rest) = name" "takeWhile (\<lambda>c. c \<notin> set ''({ '') name = name"
    using assms by (auto simp: takeWhile_eq_all_conv)
  moreover have "trim_end name = name" using assms(1) by (intro trim_end_visible) blast
  ultimately show "variant_name (name @ c # rest) = name" "variant_name name = name"
    by (simp_all only: variant_name_def)
qed

section \<open>Racing an abort signal\<close>

definition bytes_or_undefined :: "bytes option \<Rightarrow> js_value" where
  "bytes_or_undefined b = (case b of Some b \<Rightarrow> JUint8Array b | None \<Rightarrow> JUndefined)"

text \<open>
  One poll of a race: what the future is ready with, whether the abort promise has resolved, and
  whether the signal reads as aborted by then. The abort event sets the flag and resolves the
  promise, so the promise is never ahead of the flag, and neither is taken back.
\<close>

record 'a poll =
  ready :: "(js_value + 'a) option"
  abort_seen :: bool
  aborted :: bool

definition polls_of_signal :: "bool \<Rightarrow> 'a poll list \<Rightarrow> bool" where
  "polls_of_signal at_start ps \<longleftrightarrow>
     list_all (\<lambda>p. abort_seen p \<longrightarrow> aborted p) ps \<and> (at_start \<longrightarrow> list_all aborted ps) \<and>
     sorted_wrt (\<lambda>p q. aborted p \<longrightarrow> aborted q) ps"

text \<open>\<^verbatim>\<open>select\<close> polls the future before the abort promise. The result is the outcome and the flag when the race ended.\<close>

fun select_abort :: "js_value \<Rightarrow> 'a poll list \<Rightarrow> ((js_value + 'a) \<times> bool) option" where
  "select_abort reason [] = None"
| "select_abort reason (p # ps) =
     (case ready p of
        Some outcome \<Rightarrow> Some (outcome, aborted p)
      | None \<Rightarrow> if abort_seen p then Some (Inl reason, aborted p) else select_abort reason ps)"

definition race_abort :: "js_value \<Rightarrow> bool \<Rightarrow> 'a poll list \<Rightarrow> ((js_value + 'a) \<times> bool) option" where
  "race_abort reason at_start ps = (if at_start then Some (Inl reason, True) else select_abort reason ps)"

fun run_future :: "'a poll list \<Rightarrow> (js_value + 'a) option" where
  "run_future [] = None"
| "run_future (p # ps) = (case ready p of Some outcome \<Rightarrow> Some outcome | None \<Rightarrow> run_future ps)"

text \<open>A signal is its abort reason and whether it is aborted before the race starts.\<close>

definition race_optional_abort :: "(js_value \<times> bool) option \<Rightarrow> 'a poll list \<Rightarrow> (js_value + 'a) option" where
  "race_optional_abort signal ps =
     (case signal of
        Some (reason, at_start) \<Rightarrow> map_option fst (race_abort reason at_start ps)
      | None \<Rightarrow> run_future ps)"

lemma first_match_Cons:
  "(\<exists>before q after. p # ps = before @ q # after \<and> list_all P before \<and> Q q) \<longleftrightarrow>
     Q p \<or> P p \<and> (\<exists>before q after. ps = before @ q # after \<and> list_all P before \<and> Q q)" (is "?L \<longleftrightarrow> ?R")
proof
  assume ?L
  then obtain before q after where split: "p # ps = before @ q # after" "list_all P before" "Q q" by blast
  then show ?R by (cases before) auto
next
  assume ?R
  then consider "Q p" | before q after where "P p" "ps = before @ q # after" "list_all P before" "Q q" by blast
  then show ?L
  proof cases
    case 1
    then show ?L by (intro exI [of _ "[]"] exI [of _ p] exI [of _ ps]) simp
  next
    case 2
    then show ?L by (intro exI [of _ "p # before"] exI [of _ q] exI [of _ after]) simp
  qed
qed

lemma select_abort_Some:
  "select_abort reason ps = Some (outcome, flag) \<longleftrightarrow>
     (\<exists>before p after. ps = before @ p # after \<and> list_all (\<lambda>q. ready q = None \<and> \<not> abort_seen q) before \<and>
        aborted p = flag \<and> (ready p = Some outcome \<or> ready p = None \<and> abort_seen p \<and> outcome = Inl reason))"
proof (induction ps)
  case (Cons p ps)
  show ?case unfolding first_match_Cons using Cons.IH by (auto split: option.split)
qed simp

section \<open>Session offers\<close>

text \<open>\<^verbatim>\<open>f64::fract() != 0.0\<close> and \<^verbatim>\<open>< 0.0\<close>, and the saturating \<^verbatim>\<open>as u64\<close> of a non-negative whole number.\<close>

fun not_whole :: "js_number \<Rightarrow> bool" where
  "not_whole (Finite x) = (fract x \<noteq> 0)"
| "not_whole _ = True"

fun negative :: "js_number \<Rightarrow> bool" where
  "negative (Finite x) = (x < 0)"
| "negative NegInfinity = True"
| "negative _ = False"

fun f64_as_u64 :: "js_number \<Rightarrow> u64" where
  "f64_as_u64 (Finite x) = (if x \<ge> 2 ^ 64 then - 1 else if x < 0 then 0 else word_of_int \<lfloor>x\<rfloor>)"
| "f64_as_u64 Infinity = - 1"
| "f64_as_u64 _ = 0"

record mux_budgets =
  client_to_server :: u64
  server_to_client :: u64

definition budgets_from_js :: "js_value \<Rightarrow> js_value + mux_budgets option" where
  "budgets_from_js v =
     (if is_nullish v then Inr None
      else
        and_then (js_get v ''clientToServer'') (\<lambda>c.
        and_then (ok_or (validation ''InvalidBudgets'' ''budgets.clientToServer must be a number'') (as_f64 c)) (\<lambda>client.
        and_then (js_get v ''serverToClient'') (\<lambda>s.
        and_then (ok_or (validation ''InvalidBudgets'' ''budgets.serverToClient must be a number'') (as_f64 s)) (\<lambda>server.
          if not_whole client \<or> not_whole server \<or> negative client \<or> negative server
          then Inl (validation ''InvalidBudgets'' ''budget credits must be non-negative integers'')
          else Inr (Some \<lparr>client_to_server = f64_as_u64 client, server_to_client = f64_as_u64 server\<rparr>))))))"

definition authorization_from_js ::
  "js_host \<Rightarrow> (bytes \<Rightarrow> wire_error + bytes) \<Rightarrow> js_value \<Rightarrow> js_value + bytes option" where
  "authorization_from_js host octet_string v =
     (if is_nullish v then Inr None
      else
        and_then (map_err (\<lambda>_. validation ''InvalidAuthorization'' ''authorization token is not a valid OCTET STRING'')
          (octet_string (uint8_new host v))) (\<lambda>token. Inr (Some token)))"

text \<open>An approver is the callback it forwards to.\<close>

definition approver_from_js :: "js_host \<Rightarrow> js_value \<Rightarrow> js_value + js_value option" where
  "approver_from_js host v =
     (if is_nullish v then Inr None
      else if is_function host v then Inr (Some v)
      else Inl (validation ''InvalidApproveReceipt'' ''approveReceipt must be a function''))"

definition APPROVER_REFUSAL :: u32 where "APPROVER_REFUSAL = 0x74627761"
definition MAX_SETTLEMENT_ANSWER :: nat where "MAX_SETTLEMENT_ANSWER = 4096"

definition approval_input :: "bytes \<Rightarrow> bytes option \<Rightarrow> js_value" where
  "approval_input receipt_der challenge =
     (let input = set_property (JObject []) ''receiptDer'' (JUint8Array receipt_der)
      in case challenge of Some c \<Rightarrow> set_property input ''challenge'' (JUint8Array c) | None \<Rightarrow> input)"

text \<open>\<^verbatim>\<open>JsReceiptApprover::approve\<close>, given the receipt's encoding and its challenge.\<close>

definition approve ::
  "js_host \<Rightarrow> (bytes \<Rightarrow> wire_error + bytes) \<Rightarrow> (js_value \<Rightarrow> js_call) \<Rightarrow> 'x + bytes \<Rightarrow> bytes option \<Rightarrow>
   (u32 + bytes option) option" where
  "approve host octet_string callback receipt challenge =
     (case receipt of
        Inl _ \<Rightarrow> Some (Inl APPROVER_REFUSAL)
      | Inr receipt_der \<Rightarrow>
          map_option (\<lambda>invoked.
            and_then (map_err (\<lambda>_. APPROVER_REFUSAL) invoked) (\<lambda>resolved.
              if is_nullish resolved then Inr None
              else if length (uint8_new host resolved) > MAX_SETTLEMENT_ANSWER then Inl APPROVER_REFUSAL
              else and_then (map_err (\<lambda>_. APPROVER_REFUSAL) (octet_string (uint8_new host resolved)))
                     (\<lambda>answer. Inr (Some answer))))
            (settled (callback (approval_input receipt_der challenge))))"

record session_offer =
  offer_budgets :: "mux_budgets option"
  offer_authorization :: "bytes option"
  offer_approver :: "js_value option"

definition no_session_offer :: session_offer where
  "no_session_offer = \<lparr>offer_budgets = None, offer_authorization = None, offer_approver = None\<rparr>"

definition session_offer_from_js ::
  "js_host \<Rightarrow> (bytes \<Rightarrow> wire_error + bytes) \<Rightarrow> js_value \<Rightarrow> js_value + session_offer" where
  "session_offer_from_js host octet_string v =
     (if is_nullish v then Inr no_session_offer
      else
        and_then (js_get v ''budgets'') (\<lambda>b. and_then (budgets_from_js b) (\<lambda>budgets.
        and_then (js_get v ''authorization'') (\<lambda>a. and_then (authorization_from_js host octet_string a) (\<lambda>authorization.
        and_then (js_get v ''approveReceipt'') (\<lambda>r. and_then (approver_from_js host r) (\<lambda>approver.
          Inr \<lparr>offer_budgets = budgets, offer_authorization = authorization, offer_approver = approver\<rparr>)))))))"

text \<open>What the mux offer of the handshake was given.\<close>

record transport_offer =
  mux_streams :: u32
  mux_budgets_offered :: "mux_budgets option"
  mux_authorization :: "bytes option"

definition into_offer :: "u32 \<Rightarrow> session_offer \<Rightarrow> transport_offer \<times> js_value option" where
  "into_offer max_peer_streams s =
     (let offer = \<lparr>mux_streams = max_peer_streams, mux_budgets_offered = None, mux_authorization = None\<rparr>;
          offer = (case offer_budgets s of Some b \<Rightarrow> offer\<lparr>mux_budgets_offered := Some b\<rparr> | None \<Rightarrow> offer);
          offer = (case offer_authorization s of Some t \<Rightarrow> offer\<lparr>mux_authorization := Some t\<rparr> | None \<Rightarrow> offer)
      in (offer, offer_approver s))"

lemma whole_credit:
  "\<not> not_whole n \<and> \<not> negative n \<longleftrightarrow> (\<exists>k :: nat. n = Finite (of_nat k))"
proof (cases n rule: js_number.exhaust)
  case (Finite x)
  have "x = of_int \<lfloor>x\<rfloor> \<and> 0 \<le> x \<longleftrightarrow> (\<exists>k :: nat. x = of_nat k)"
    by (metis floor_of_nat of_int_0_le_iff of_int_of_nat_eq of_nat_0_le_iff zero_le_imp_eq_int)
  then show ?thesis by (auto simp: Finite fract_zero)
qed simp_all

lemma credit_saturates: "unat (f64_as_u64 (Finite (of_nat k))) = min k (2 ^ 64 - 1)"
proof -
  have big: "(2 ^ 64 :: rat) \<le> of_nat k \<longleftrightarrow> 2 ^ 64 \<le> k"
    by (metis of_nat_le_iff of_nat_numeral of_nat_power)
  show ?thesis
  proof (cases "2 ^ 64 \<le> k")
    case True
    then show ?thesis using big by (simp add: unat_max_u64)
  next
    case False
    then have "unat (word_of_nat k :: u64) = k" by (simp add: unat_of_nat)
    with False big show ?thesis by simp
  qed
qed

text \<open>
  A budget pair is taken exactly when both credits are non-negative whole numbers, and each
  credit is the number given, capped at the largest 64-bit value: nothing is rounded, negated or
  wrapped around.
\<close>

lemma budgets_taken_exactly:
  "budgets_from_js (JObject entries) = Inr (Some b) \<longleftrightarrow>
     (\<exists>c s :: nat. map_of entries ''clientToServer'' = Some (JNumber (Finite (of_nat c))) \<and>
        map_of entries ''serverToClient'' = Some (JNumber (Finite (of_nat s))) \<and>
        unat (client_to_server b) = min c (2 ^ 64 - 1) \<and> unat (server_to_client b) = min s (2 ^ 64 - 1))"
  (is "?taken \<longleftrightarrow> (\<exists>c s. ?credits c s)")
proof
  have number: "as_f64 v = Some n \<longleftrightarrow> v = JNumber n" for v n by (cases v) auto
  have field: "js_get (JObject entries) name = Inr (JNumber n) \<longleftrightarrow> map_of entries name = Some (JNumber n)" for name n
    by (auto simp: js_get_def split: option.splits)
  {
    assume ?taken
    then obtain c s where steps: "js_get (JObject entries) ''clientToServer'' = Inr (JNumber c)"
      "js_get (JObject entries) ''serverToClient'' = Inr (JNumber s)" "\<not> not_whole c \<and> \<not> negative c" "\<not> not_whole s \<and> \<not> negative s"
      "b = \<lparr>client_to_server = f64_as_u64 c, server_to_client = f64_as_u64 s\<rparr>"
      by (auto simp: budgets_from_js_def is_nullish_def result_simps number split: if_splits)
    then obtain k l :: nat where "c = Finite (of_nat k)" "s = Finite (of_nat l)" unfolding whole_credit by blast
    with steps(1,2,5) have "?credits k l" unfolding field by (simp add: credit_saturates del: f64_as_u64.simps)
    then show "\<exists>c s. ?credits c s" by blast
  next
    assume "\<exists>c s. ?credits c s"
    then obtain c s where credits: "?credits c s" by blast
    then have "b = \<lparr>client_to_server = f64_as_u64 (Finite (of_nat c)), server_to_client = f64_as_u64 (Finite (of_nat s))\<rparr>"
      by (intro mux_budgets.equality) (simp_all add: word_unat_eq_iff credit_saturates del: f64_as_u64.simps)
    moreover have "\<not> not_whole (Finite (of_nat k))" "\<not> negative (Finite (of_nat k))" for k :: nat
      using whole_credit [of "Finite (of_nat k)"] by blast+
    ultimately show ?taken
      using credits field [THEN iffD2]
      by (simp add: budgets_from_js_def is_nullish_def ok_or_def del: f64_as_u64.simps not_whole.simps negative.simps)
  }
qed

end
