(* ===== verification/Paywall.thy ===== *)
theory Paywall
  imports Ws_Fault
begin

text \<open>
  The demo session-budget paywall (\<^verbatim>\<open>ws/tightbeam-ws/src/testing/paywall.rs\<close>): the authorizer that
  invoices every session, its environment switches, and the wallet that pays a fixed number of
  invoices. The wallet's counter is an atomic shared by concurrent approvals, each a loop of a load
  and a compare-and-exchange; the approvals interleave at every atomic access. The environment is a
  parameter, and so is upstream's \<^verbatim>\<open>MuxBudgets::min\<close>.
\<close>

section \<open>Environment\<close>

definition DEMO_INVOICE :: bytes where "DEMO_INVOICE = as_bytes ''tbws-demo-invoice-v1''"
definition DEMO_PAYMENT :: bytes where "DEMO_PAYMENT = as_bytes ''tbws-demo-payment-v1''"
definition DEMO_INVOICE_REFUSAL :: u32 where "DEMO_INVOICE_REFUSAL = 0x74627731"
definition DEMO_WALLET_EMPTY :: u32 where "DEMO_WALLET_EMPTY = 0x74627732"
definition DEMO_BUDGET_CREDITS :: u64 where "DEMO_BUDGET_CREDITS = 4096"

text \<open>\<^verbatim>\<open>str::trim\<close>, \<^verbatim>\<open>eq_ignore_ascii_case\<close>, and \<^verbatim>\<open>str::parse\<close> of an unsigned integer: an optional plus sign and decimal digits, in range.\<close>

definition ascii_lower :: "char \<Rightarrow> char" where
  "ascii_lower c = (let n = of_char c :: nat in if 65 \<le> n \<and> n \<le> 90 then char_of (n + 32) else c)"

definition eq_ignore_ascii_case :: "string \<Rightarrow> string \<Rightarrow> bool" where
  "eq_ignore_ascii_case s t \<longleftrightarrow> map ascii_lower s = map ascii_lower t"

definition is_digit :: "char \<Rightarrow> bool" where
  "is_digit c \<longleftrightarrow> (48 :: nat) \<le> of_char c \<and> (of_char c :: nat) \<le> 57"

definition decimal :: "string \<Rightarrow> nat" where
  "decimal s = foldl (\<lambda>a c. a * 10 + (of_char c - 48)) 0 s"

definition parse_unsigned :: "nat \<Rightarrow> string \<Rightarrow> nat option" where
  "parse_unsigned bound s =
     (let digits = (if s \<noteq> [] \<and> hd s = CHR ''+'' then tl s else s)
      in if digits = [] \<or> \<not> list_all is_digit digits then None
         else if decimal digits < bound then Some (decimal digits) else None)"

type_synonym environment = "string \<Rightarrow> string option"

definition paywall_enabled :: "environment \<Rightarrow> bool" where
  "paywall_enabled env =
     (case env ''TBWS_PAYWALL'' of
        Some value' \<Rightarrow>
          (let trimmed = trim_end (trim_start value')
           in trimmed \<noteq> ''0'' \<and> \<not> eq_ignore_ascii_case trimmed ''false'' \<and> trimmed \<noteq> [])
      | None \<Rightarrow> False)"

definition env_u64 :: "environment \<Rightarrow> string \<Rightarrow> u64 \<Rightarrow> u64" where
  "env_u64 env name fallback =
     (case Option.bind (env name) (parse_unsigned (2 ^ 64)) of Some n \<Rightarrow> of_nat n | None \<Rightarrow> fallback)"

definition budget_ceiling :: "environment \<Rightarrow> mux_budgets" where
  "budget_ceiling env =
     \<lparr>client_to_server = env_u64 env ''TBWS_MUX_BUDGET_C2S'' DEMO_BUDGET_CREDITS,
      server_to_client = env_u64 env ''TBWS_MUX_BUDGET_S2C'' DEMO_BUDGET_CREDITS\<rparr>"

section \<open>The authorizer\<close>

record demo_paywall =
  invoice :: bytes
  expected_payment :: bytes
  ceiling :: mux_budgets

definition paywall_open :: "(bytes \<Rightarrow> wire_error + bytes) \<Rightarrow> environment \<Rightarrow> wire_error + demo_paywall" where
  "paywall_open octet_string env =
     and_then (octet_string DEMO_INVOICE) (\<lambda>inv.
     and_then (octet_string DEMO_PAYMENT) (\<lambda>payment.
       Inr \<lparr>invoice = inv, expected_payment = payment, ceiling = budget_ceiling env\<rparr>))"

record authorization_grant =
  granted_budgets :: "mux_budgets option"
  grant_challenge :: "bytes option"

definition authorize ::
  "(mux_budgets \<Rightarrow> mux_budgets \<Rightarrow> mux_budgets) \<Rightarrow> demo_paywall \<Rightarrow> mux_budgets option \<Rightarrow> u32 + authorization_grant" where
  "authorize budgets_min p requested =
     Inr \<lparr>granted_budgets = map_option (\<lambda>r. budgets_min r (ceiling p)) requested, grant_challenge = Some (invoice p)\<rparr>"

definition challenge_renewal :: "demo_paywall \<Rightarrow> u32 + bytes option" where
  "challenge_renewal p = Inr (Some (invoice p))"

definition settle_payment :: "demo_paywall \<Rightarrow> bytes option \<Rightarrow> u32 + unit" where
  "settle_payment p response = (if response = Some (expected_payment p) then Inr () else Inl DEMO_INVOICE_REFUSAL)"

section \<open>The wallet\<close>

text \<open>Where one \<^verbatim>\<open>approve\<close> stands: before its load, before its exchange with the value it loaded, or returned.\<close>

datatype approval = AtLoad | AtExchange nat | Returned "u32 + bytes option"

record wallet =
  payment :: bytes
  remaining :: nat
  approvals :: "approval list"

definition wallet_with_payments :: "(bytes \<Rightarrow> wire_error + bytes) \<Rightarrow> nat \<Rightarrow> wire_error + wallet" where
  "wallet_with_payments octet_string payments =
     and_then (octet_string DEMO_PAYMENT) (\<lambda>pay. Inr \<lparr>payment = pay, remaining = payments, approvals = []\<rparr>)"

text \<open>One atomic access of one approval: the approval's next point, and the counter after it.\<close>

fun approve_access :: "bytes \<Rightarrow> nat \<Rightarrow> approval \<Rightarrow> approval \<times> nat" where
  "approve_access pay left AtLoad =
     (if left = 0 then (Returned (Inl DEMO_WALLET_EMPTY), left) else (AtExchange left, left))"
| "approve_access pay left (AtExchange seen) =
     (if left = seen then (Returned (Inr (Some pay)), seen - 1) else (AtLoad, left))"
| "approve_access pay left (Returned r) = (Returned r, left)"

definition approve_step :: "nat \<Rightarrow> wallet \<Rightarrow> wallet" where
  "approve_step i w =
     (let (a, left) = approve_access (payment w) (remaining w) (approvals w ! i)
      in w\<lparr>remaining := left, approvals := (approvals w)[i := a]\<rparr>)"

text \<open>Any number of approvals start at any time, and any of them takes the next atomic access.\<close>

inductive wallet_run :: "wallet \<Rightarrow> wallet \<Rightarrow> bool" for start where
  wallet_start: "wallet_run start start"
| wallet_called: "wallet_run start w \<Longrightarrow> wallet_run start (w\<lparr>approvals := approvals w @ [AtLoad]\<rparr>)"
| wallet_access: "wallet_run start w \<Longrightarrow> i < length (approvals w) \<Longrightarrow> wallet_run start (approve_step i w)"

section \<open>Properties\<close>

definition paid :: "bytes \<Rightarrow> wallet \<Rightarrow> nat" where
  "paid pay w = length (filter (\<lambda>a. a = Returned (Inr (Some pay))) (approvals w))"

lemma filter_update_length:
  "i < length xs \<Longrightarrow>
     length (filter P (xs[i := y])) + (if P (xs ! i) then 1 else 0) = length (filter P xs) + (if P y then 1 else 0)"
proof (induction xs arbitrary: i)
  case (Cons x xs)
  then show ?case by (cases i) (auto split: if_splits)
qed simp

text \<open>
  Whatever the interleaving, the counter and the payments made add up to the payments provided, an
  exchange only ever takes a positive value, and a returned approval is a payment or a refusal.
\<close>

definition wallet_inv :: "bytes \<Rightarrow> nat \<Rightarrow> wallet \<Rightarrow> bool" where
  "wallet_inv pay payments w \<longleftrightarrow> payment w = pay \<and> remaining w + paid pay w = payments \<and>
     (\<forall>n. AtExchange n \<in> set (approvals w) \<longrightarrow> 0 < n) \<and>
     (\<forall>r. Returned r \<in> set (approvals w) \<longrightarrow> r = Inr (Some pay) \<or> r = Inl DEMO_WALLET_EMPTY)"

lemma approve_step_fields [simp]:
  "payment (approve_step i w) = payment w"
  by (simp add: approve_step_def Let_def split: prod.split)

lemma approve_step_inv:
  assumes inv: "wallet_inv pay payments w" and i: "i < length (approvals w)"
  shows "wallet_inv pay payments (approve_step i w)"
proof -
  obtain a left where access: "approve_access (payment w) (remaining w) (approvals w ! i) = (a, left)" by fastforce
  have step: "approve_step i w = w\<lparr>remaining := left, approvals := (approvals w)[i := a]\<rparr>"
    by (simp add: approve_step_def access)
  let ?old = "approvals w ! i" and ?P = "\<lambda>a. a = Returned (Inr (Some pay))"
  have old: "?old \<in> set (approvals w)" using i by simp
  have count: "length (filter ?P ((approvals w)[i := a])) + (if ?P ?old then 1 else 0) =
      length (filter ?P (approvals w)) + (if ?P a then 1 else 0)"
    using filter_update_length [OF i, of ?P a] .
  have local: "left + (if ?P a then 1 else 0) = remaining w + (if ?P ?old then 1 else 0)"
    "\<forall>n. a = AtExchange n \<longrightarrow> 0 < n" "\<forall>r. a = Returned r \<longrightarrow> r = Inr (Some pay) \<or> r = Inl DEMO_WALLET_EMPTY"
    using access inv old by (cases ?old; force simp: wallet_inv_def split: if_splits)+
  have "remaining (approve_step i w) + paid pay (approve_step i w) = payments"
    using count local(1) inv by (simp add: step paid_def wallet_inv_def)
  then show ?thesis
    using inv local(2,3) by (auto simp: wallet_inv_def step dest!: set_update_subset_insert [THEN subsetD])
qed

lemma wallet_never_overspends:
  assumes start: "wallet_with_payments octet_string payments = Inr start" and run: "wallet_run start w"
  obtains pay where "octet_string DEMO_PAYMENT = Inr pay" "paid pay w \<le> payments"
    "remaining w = payments - paid pay w"
    "\<And>r. Returned r \<in> set (approvals w) \<Longrightarrow> r = Inr (Some pay) \<or> r = Inl DEMO_WALLET_EMPTY"
proof -
  from start obtain pay where pay: "octet_string DEMO_PAYMENT = Inr pay"
    and fresh: "start = \<lparr>payment = pay, remaining = payments, approvals = []\<rparr>"
    by (cases "octet_string DEMO_PAYMENT") (auto simp: wallet_with_payments_def)
  from run have "wallet_inv pay payments w"
  proof induction
    case wallet_start
    then show ?case by (simp add: wallet_inv_def fresh paid_def)
  next
    case (wallet_called w)
    then show ?case by (auto simp: wallet_inv_def paid_def)
  next
    case (wallet_access w i)
    then show ?case using approve_step_inv by blast
  qed
  then show thesis using that [OF pay] by (auto simp: wallet_inv_def)
qed

text \<open>An approval alone on the counter returns after one load and one exchange.\<close>

lemma lone_approval_returns:
  assumes "i < length (approvals w)" "approvals w ! i = AtLoad"
  shows "\<exists>r. approvals (approve_step i (approve_step i w)) ! i = Returned r"
  using assms by (simp add: approve_step_def)

text \<open>The authorizer accepts the invoiced payment and nothing else, and always invoices.\<close>

lemma settle_payment_iff:
  "settle_payment p response = Inr () \<longleftrightarrow> response = Some (expected_payment p)"
  by (simp add: settle_payment_def)

end
