(* ===== verification/Ws_Stream.thy ===== *)
theory Ws_Stream
  imports Prelude
begin

text \<open>
  Envelopes over a WebSocket, one per binary message: the native stream
  (\<^verbatim>\<open>ws/tightbeam-ws/src/io.rs\<close>) and the browser stream (\<^verbatim>\<open>ws/tightbeam-ws-wasm/src/stream.rs\<close>). The
  socket's source is the list of items it will yield, in order, and a source that has run dry has
  ended; its sink is a parameter. \<open>framed_stream\<close> is the contract of tightbeam's
  \<^verbatim>\<open>AsyncProtocolStream\<close>, interpreted on both streams.
\<close>

section \<open>Errors\<close>

text \<open>The variants of \<^verbatim>\<open>TransportError\<close> the streams raise; \<open>'io\<close> is an I/O error.\<close>

datatype 'io stream_error = ConnectionClosed | IoError 'io | SizeExceeded | InvalidMessage

text \<open>Tungstenite's and gloo's errors as the mappings tell them apart.\<close>

datatype 'io ws_error = WsConnectionClosed | WsAlreadyClosed | WsIo 'io | WsCapacity | WsOther

datatype gloo_error = GlooConnectionClose | GlooOther

datatype ws_message = WsText string | WsBinary bytes | WsPing bytes | WsPong bytes | WsClose | WsRawFrame

datatype gloo_message = GlooText string | GlooBytes bytes

fun map_ws_error :: "'io ws_error \<Rightarrow> 'io stream_error" where
  "map_ws_error WsConnectionClosed = ConnectionClosed"
| "map_ws_error WsAlreadyClosed = ConnectionClosed"
| "map_ws_error (WsIo io) = IoError io"
| "map_ws_error WsCapacity = SizeExceeded"
| "map_ws_error WsOther = InvalidMessage"

fun map_gloo_error :: "gloo_error \<Rightarrow> 'io stream_error" where
  "map_gloo_error GlooConnectionClose = ConnectionClosed"
| "map_gloo_error GlooOther = InvalidMessage"

section \<open>Reading and writing one envelope\<close>

type_synonym ('e, 'm) items = "('e + 'm) list"

fun read_binary_frame ::
  "nat \<Rightarrow> ('io ws_error, ws_message) items \<Rightarrow> ('io stream_error + bytes) \<times> ('io ws_error, ws_message) items" where
  "read_binary_frame cap [] = (Inl ConnectionClosed, [])"
| "read_binary_frame cap (Inl e # source) = (Inl (map_ws_error e), source)"
| "read_binary_frame cap (Inr (WsBinary payload) # source) =
     (if length payload > cap then Inl SizeExceeded else Inr payload, source)"
| "read_binary_frame cap (Inr WsClose # source) = (Inl ConnectionClosed, source)"
| "read_binary_frame cap (Inr _ # source) = read_binary_frame cap source"

fun read_gloo_frame ::
  "nat \<Rightarrow> (gloo_error, gloo_message) items \<Rightarrow> ('io stream_error + bytes) \<times> (gloo_error, gloo_message) items" where
  "read_gloo_frame cap [] = (Inl ConnectionClosed, [])"
| "read_gloo_frame cap (Inl e # source) = (Inl (map_gloo_error e), source)"
| "read_gloo_frame cap (Inr (GlooBytes payload) # source) =
     (if length payload > cap then Inl SizeExceeded else Inr payload, source)"
| "read_gloo_frame cap (Inr (GlooText t) # source) = read_gloo_frame cap source"

text \<open>A sink takes a message, leaves its next state and says whether the send went through.\<close>

type_synonym ('e, 'm, 'k) sink = "'m \<Rightarrow> 'k \<Rightarrow> ('e + unit) \<times> 'k"

definition write_binary_frame ::
  "('io ws_error, ws_message, 'k) sink \<Rightarrow> bytes \<Rightarrow> 'k \<Rightarrow> ('io stream_error + unit) \<times> 'k" where
  "write_binary_frame send buffer k = (let (r, k') = send (WsBinary buffer) k in (map_err map_ws_error r, k'))"

definition write_gloo_frame ::
  "(gloo_error, gloo_message, 'k) sink \<Rightarrow> bytes \<Rightarrow> 'k \<Rightarrow> ('io stream_error + unit) \<times> 'k" where
  "write_gloo_frame send buffer k = (let (r, k') = send (GlooBytes buffer) k in (map_err map_gloo_error r, k'))"

section \<open>The streams\<close>

record ('i, 'k) ws_stream =
  source :: "'i list"
  sink_state :: 'k
  alive :: bool

definition ws_stream_new :: "'i list \<Rightarrow> 'k \<Rightarrow> ('i, 'k) ws_stream" where
  "ws_stream_new src k = \<lparr>source = src, sink_state = k, alive = True\<rparr>"

definition settle_stream :: "'x + 'a \<Rightarrow> ('i, 'k) ws_stream \<Rightarrow> ('x + 'a) \<times> ('i, 'k) ws_stream" where
  "settle_stream outcome s = (outcome, case outcome of Inl _ \<Rightarrow> s\<lparr>alive := False\<rparr> | Inr _ \<Rightarrow> s)"

definition ws_read_frame ::
  "nat \<Rightarrow> ('io ws_error + ws_message, 'k) ws_stream \<Rightarrow>
   ('io stream_error + bytes) \<times> ('io ws_error + ws_message, 'k) ws_stream" where
  "ws_read_frame cap s =
     (let (outcome, rest) = read_binary_frame cap (source s) in settle_stream outcome (s\<lparr>source := rest\<rparr>))"

definition ws_write_frame ::
  "('io ws_error, ws_message, 'k) sink \<Rightarrow> bytes \<Rightarrow> ('io ws_error + ws_message, 'k) ws_stream \<Rightarrow>
   ('io stream_error + unit) \<times> ('io ws_error + ws_message, 'k) ws_stream" where
  "ws_write_frame send buffer s =
     (let (outcome, k) = write_binary_frame send buffer (sink_state s)
      in settle_stream outcome (s\<lparr>sink_state := k\<rparr>))"

definition gloo_read_frame ::
  "nat \<Rightarrow> (gloo_error + gloo_message, 'k) ws_stream \<Rightarrow>
   ('io stream_error + bytes) \<times> (gloo_error + gloo_message, 'k) ws_stream" where
  "gloo_read_frame cap s =
     (let (outcome, rest) = read_gloo_frame cap (source s) in settle_stream outcome (s\<lparr>source := rest\<rparr>))"

definition gloo_write_frame ::
  "(gloo_error, gloo_message, 'k) sink \<Rightarrow> bytes \<Rightarrow> (gloo_error + gloo_message, 'k) ws_stream \<Rightarrow>
   ('io stream_error + unit) \<times> (gloo_error + gloo_message, 'k) ws_stream" where
  "gloo_write_frame send buffer s =
     (let (outcome, k) = write_gloo_frame send buffer (sink_state s)
      in settle_stream outcome (s\<lparr>sink_state := k\<rparr>))"

definition is_alive :: "('i, 'k) ws_stream \<Rightarrow> bool" where
  "is_alive s = alive s"

text \<open>
  Splitting hands the source to one half and the sink to the other; a half reads or writes as the
  stream does, and keeps no flag.
\<close>

definition into_split :: "('i, 'k) ws_stream \<Rightarrow> 'i list \<times> 'k" where
  "into_split s = (source s, sink_state s)"

definition ws_half_read ::
  "nat \<Rightarrow> ('io ws_error, ws_message) items \<Rightarrow> ('io stream_error + bytes) \<times> ('io ws_error, ws_message) items" where
  "ws_half_read cap half = read_binary_frame cap half"

definition ws_half_write ::
  "('io ws_error, ws_message, 'k) sink \<Rightarrow> bytes \<Rightarrow> 'k \<Rightarrow> ('io stream_error + unit) \<times> 'k" where
  "ws_half_write send buffer half = write_binary_frame send buffer half"

definition gloo_half_read ::
  "nat \<Rightarrow> (gloo_error, gloo_message) items \<Rightarrow> ('io stream_error + bytes) \<times> (gloo_error, gloo_message) items" where
  "gloo_half_read cap half = read_gloo_frame cap half"

definition gloo_half_write ::
  "(gloo_error, gloo_message, 'k) sink \<Rightarrow> bytes \<Rightarrow> 'k \<Rightarrow> ('io stream_error + unit) \<times> 'k" where
  "gloo_half_write send buffer half = write_gloo_frame send buffer half"

text \<open>The browser's stream is made, probed and split as the native one.\<close>

definition gloo_stream_from :: "'i list \<Rightarrow> 'k \<Rightarrow> ('i, 'k) ws_stream" where
  "gloo_stream_from src k = \<lparr>source = src, sink_state = k, alive = True\<rparr>"

definition gloo_is_alive :: "('i, 'k) ws_stream \<Rightarrow> bool" where
  "gloo_is_alive s = alive s"

definition gloo_into_split :: "('i, 'k) ws_stream \<Rightarrow> 'i list \<times> 'k" where
  "gloo_into_split s = (source s, sink_state s)"

text \<open>The socket ceilings of a listener or a dial.\<close>

record ws_config =
  max_message_size :: "nat option"
  max_frame_size :: "nat option"

definition bounded_config :: "ws_config \<Rightarrow> nat \<Rightarrow> ws_config" where
  "bounded_config defaults max_envelope =
     (let ceiling = Some max_envelope
      in defaults\<lparr>max_message_size := ceiling, max_frame_size := ceiling\<rparr>)"

section \<open>The contract\<close>

text \<open>What arrives on a stream, once everything that is no envelope is skipped.\<close>

datatype 'x arrival = Payload bytes | Fault 'x

definition arrive :: "nat \<Rightarrow> 'io stream_error arrival list \<Rightarrow> 'io stream_error + bytes" where
  "arrive cap incoming =
     (case incoming of
        [] \<Rightarrow> Inl ConnectionClosed
      | Payload p # _ \<Rightarrow> if length p > cap then Inl SizeExceeded else Inr p
      | Fault e # _ \<Rightarrow> Inl e)"

datatype stream_call = CallRead nat | CallWrite bytes

text \<open>Results and final stream of a sequence of calls.\<close>

fun run_calls ::
  "(nat \<Rightarrow> 's \<Rightarrow> ('e + bytes) \<times> 's) \<Rightarrow> (bytes \<Rightarrow> 's \<Rightarrow> ('e + unit) \<times> 's) \<Rightarrow>
   stream_call list \<Rightarrow> 's \<Rightarrow> bool list \<times> 's" where
  "run_calls take_in emit [] s = ([], s)"
| "run_calls take_in emit (CallRead cap # calls) s =
     (let (r, s') = take_in cap s; (rs, s'') = run_calls take_in emit calls s' in (isl r # rs, s''))"
| "run_calls take_in emit (CallWrite b # calls) s =
     (let (r, s') = emit b s; (rs, s'') = run_calls take_in emit calls s' in (isl r # rs, s''))"

fun read_many :: "(nat \<Rightarrow> 's \<Rightarrow> ('e + bytes) \<times> 's) \<Rightarrow> nat \<Rightarrow> nat \<Rightarrow> 's \<Rightarrow> ('e + bytes) list \<times> 's" where
  "read_many take_in cap 0 s = ([], s)"
| "read_many take_in cap (Suc n) s =
     (let (r, s') = take_in cap s; (rs, s'') = read_many take_in cap n s' in (r # rs, s''))"

locale framed_stream =
  fixes incoming :: "'s \<Rightarrow> 'io stream_error arrival list"
    and live :: "'s \<Rightarrow> bool"
    and take_in :: "nat \<Rightarrow> 's \<Rightarrow> ('io stream_error + bytes) \<times> 's"
    and emit :: "bytes \<Rightarrow> 's \<Rightarrow> ('io stream_error + unit) \<times> 's"
  assumes read_result: "fst (take_in cap s) = arrive cap (incoming s)"
    and read_rest: "incoming (snd (take_in cap s)) = tl (incoming s)"
    and read_live: "live (snd (take_in cap s)) \<longleftrightarrow> live s \<and> \<not> isl (fst (take_in cap s))"
    and write_live: "live (snd (emit b s)) \<longleftrightarrow> live s \<and> \<not> isl (fst (emit b s))"
    and write_rest: "incoming (snd (emit b s)) = incoming s"
begin

lemma live_iff_no_error:
  "live (snd (run_calls take_in emit calls s)) \<longleftrightarrow> live s \<and> list_all (\<lambda>failed. \<not> failed) (fst (run_calls take_in emit calls s))"
proof (induction calls arbitrary: s)
  case (Cons call calls)
  show ?case
  proof (cases call)
    case (CallRead cap)
    then show ?thesis using Cons.IH [of "snd (take_in cap s)"] read_live [of cap s] by (auto simp: split_beta Let_def)
  next
    case (CallWrite b)
    then show ?thesis using Cons.IH [of "snd (emit b s)"] write_live [of b s] by (auto simp: split_beta Let_def)
  qed
qed simp

lemma read_many_payloads:
  "incoming s = map Payload ps @ rest \<Longrightarrow> list_all (\<lambda>p. length p \<le> cap) ps \<Longrightarrow> live s \<Longrightarrow>
   fst (read_many take_in cap (length ps) s) = map Inr ps \<and>
   incoming (snd (read_many take_in cap (length ps) s)) = rest \<and> live (snd (read_many take_in cap (length ps) s))"
proof (induction ps arbitrary: s)
  case (Cons p ps)
  have r: "fst (take_in cap s) = Inr p" using Cons.prems by (simp add: read_result arrive_def)
  have "incoming (snd (take_in cap s)) = map Payload ps @ rest" using Cons.prems by (simp add: read_rest)
  moreover have "live (snd (take_in cap s))" using Cons.prems r by (simp add: read_live)
  ultimately show ?case using Cons.IH [of "snd (take_in cap s)"] Cons.prems r by (simp add: split_beta Let_def)
qed simp

end

section \<open>Both streams keep it\<close>

fun ws_arrival :: "'io ws_error + ws_message \<Rightarrow> 'io stream_error arrival list" where
  "ws_arrival (Inl e) = [Fault (map_ws_error e)]"
| "ws_arrival (Inr (WsBinary p)) = [Payload p]"
| "ws_arrival (Inr WsClose) = [Fault ConnectionClosed]"
| "ws_arrival (Inr _) = []"

fun gloo_arrival :: "gloo_error + gloo_message \<Rightarrow> 'io stream_error arrival list" where
  "gloo_arrival (Inl e) = [Fault (map_gloo_error e)]"
| "gloo_arrival (Inr (GlooBytes p)) = [Payload p]"
| "gloo_arrival (Inr (GlooText t)) = []"

definition ws_incoming :: "('io ws_error + ws_message, 'k) ws_stream \<Rightarrow> 'io stream_error arrival list" where
  "ws_incoming s = concat (map ws_arrival (source s))"

definition gloo_incoming :: "(gloo_error + gloo_message, 'k) ws_stream \<Rightarrow> 'io stream_error arrival list" where
  "gloo_incoming s = concat (map gloo_arrival (source s))"

lemma read_binary_frame_arrives:
  "fst (read_binary_frame cap src) = arrive cap (concat (map ws_arrival src)) \<and>
   concat (map ws_arrival (snd (read_binary_frame cap src))) = tl (concat (map ws_arrival src))"
  by (induction cap src rule: read_binary_frame.induct) (simp_all add: arrive_def)

lemma read_gloo_frame_arrives:
  "fst (read_gloo_frame cap src) = arrive cap (concat (map gloo_arrival src)) \<and>
   concat (map (gloo_arrival :: _ \<Rightarrow> 'io stream_error arrival list)
     (snd (read_gloo_frame cap src :: ('io stream_error + bytes) \<times> _))) = tl (concat (map gloo_arrival src))"
  by (induction cap src rule: read_gloo_frame.induct) (simp_all add: arrive_def)

lemma settle_stream_simps [simp]:
  "fst (settle_stream r s) = r" "source (snd (settle_stream r s)) = source s"
  "alive (snd (settle_stream r s)) \<longleftrightarrow> alive s \<and> \<not> isl r"
  by (auto simp: settle_stream_def split: sum.split)

interpretation ws: framed_stream ws_incoming is_alive ws_read_frame "ws_write_frame send" for send
  by unfold_locales
     (simp_all add: ws_read_frame_def ws_write_frame_def ws_incoming_def is_alive_def split_beta Let_def read_binary_frame_arrives)

interpretation gloo: framed_stream gloo_incoming is_alive gloo_read_frame "gloo_write_frame send" for send
  by unfold_locales
     (simp_all add: gloo_read_frame_def gloo_write_frame_def gloo_incoming_def is_alive_def split_beta Let_def read_gloo_frame_arrives)

section \<open>Properties\<close>



text \<open>
  The liveness flag tells the truth: after any sequence of reads and writes a stream is alive
  exactly if it was alive before and not one of the calls failed. A dead stream never revives.
\<close>

lemma stream_alive_iff_no_failure:
  "is_alive (snd (run_calls ws_read_frame (ws_write_frame send) calls s)) =
     (is_alive s \<and> list_all (\<lambda>failed. \<not> failed) (fst (run_calls ws_read_frame (ws_write_frame send) calls s))) \<and>
   is_alive (snd (run_calls (gloo_read_frame :: _ \<Rightarrow> _ \<Rightarrow> ('io stream_error + bytes) \<times> _) (gloo_write_frame put) calls t)) =
     (is_alive t \<and> list_all (\<lambda>failed. \<not> failed)
       (fst (run_calls (gloo_read_frame :: _ \<Rightarrow> _ \<Rightarrow> ('io stream_error + bytes) \<times> _) (gloo_write_frame put) calls t)))"
  using ws.live_iff_no_error gloo.live_iff_no_error by blast

end
