(* ===== verification/Ws_Listener.thy ===== *)
theory Ws_Listener
  imports Ws_Stream
begin

text \<open>
  The native listener (\<^verbatim>\<open>ws/tightbeam-ws/src/protocol.rs\<close>) and the crate's errors (\<^verbatim>\<open>error.rs\<close>): binding,
  accepting and dialing. The operating system's sockets, the WebSocket upgrade and the endpoint
  configuration are parameters, the fields of \<open>network\<close>; a transport is the stream and the
  configuration it was built from. Accepting changes the network, whose state is \<open>'w\<close>.
\<close>

section \<open>Errors\<close>

datatype ('io, 'tb) ws_lib_error = Io 'io | Tungstenite "'io ws_error" | Tightbeam 'tb | Transport "'io stream_error"

definition io_error :: "'io \<Rightarrow> 'io stream_error" where
  "io_error e = IoError e"

definition lib_error_of_ws :: "'io ws_error \<Rightarrow> ('io, 'tb) ws_lib_error" where
  "lib_error_of_ws e = Tungstenite e"

section \<open>The listener\<close>

record ('a, 'l, 't, 'c, 'e, 'io, 'i, 'k, 'w) network =
  tcp_bind :: "'a \<Rightarrow> 'w \<Rightarrow> ('io + 'l) \<times> 'w"
  tcp_local_addr :: "'l \<Rightarrow> 'io + 'a"
  tcp_accept :: "'l \<Rightarrow> 'w \<Rightarrow> ('io + 't \<times> 'a) \<times> 'w"
  ws_accept :: "'t \<Rightarrow> ws_config \<Rightarrow> 'w \<Rightarrow> ('io ws_error + 'i list \<times> 'k) \<times> 'w"
  ws_connect :: "string \<Rightarrow> ws_config \<Rightarrow> 'w \<Rightarrow> ('io ws_error + 'i list \<times> 'k) \<times> 'w"
  show_addr :: "'a \<Rightarrow> string"
  parse_addr :: "string \<Rightarrow> 'io + 'a"
  cleartext_config :: 'c
  config_of_encryption :: "'e \<Rightarrow> 'io stream_error + 'c"
  max_envelope :: "'c \<Rightarrow> nat"
  default_envelope :: nat
  default_ws_config :: ws_config

record ('l, 'c) ws_listener =
  tcp_listener :: 'l
  listener_config :: 'c

record ('i, 'k, 'c) ws_transport =
  transport_stream :: "('i, 'k) ws_stream"
  transport_config :: 'c

definition bind_cleartext_named ::
  "('a, 'l, 't, 'c, 'e, 'io, 'i, 'k, 'w) network \<Rightarrow> 'a \<Rightarrow> 'w \<Rightarrow> (('io, 'tb) ws_lib_error + ('l, 'c) ws_listener) \<times> 'w" where
  "bind_cleartext_named net addr w =
     (case tcp_bind net addr w of
        (Inl e, w') \<Rightarrow> (Inl (Io e), w')
      | (Inr l, w') \<Rightarrow> (Inr \<lparr>tcp_listener = l, listener_config = cleartext_config net\<rparr>, w'))"

definition local_addr ::
  "('a, 'l, 't, 'c, 'e, 'io, 'i, 'k, 'w) network \<Rightarrow> ('l, 'c) ws_listener \<Rightarrow> ('io, 'tb) ws_lib_error + 'a" where
  "local_addr net l = map_err Io (tcp_local_addr net (tcp_listener l))"

definition create_transport :: "('i, 'k) ws_stream \<Rightarrow> 'c \<Rightarrow> ('i, 'k, 'c) ws_transport" where
  "create_transport stream config = \<lparr>transport_stream = stream, transport_config = config\<rparr>"

definition accept ::
  "('a, 'l, 't, 'c, 'e, 'io, 'i, 'k, 'w) network \<Rightarrow> ('l, 'c) ws_listener \<Rightarrow> 'w \<Rightarrow>
   ('io stream_error + ('i, 'k, 'c) ws_transport \<times> 'a) \<times> 'w" where
  "accept net l w =
     (case tcp_accept net (tcp_listener l) w of
        (Inl e, w') \<Rightarrow> (Inl (io_error e), w')
      | (Inr (tcp, addr), w') \<Rightarrow>
          (let ceilings = bounded_config (default_ws_config net) (max_envelope net (listener_config l))
           in case ws_accept net tcp ceilings w' of
                (Inl e, w'') \<Rightarrow> (Inl (map_ws_error e), w'')
              | (Inr (src, k), w'') \<Rightarrow> (Inr (create_transport (ws_stream_new src k) (listener_config l), addr), w'')))"

definition default_bind_address ::
  "('a, 'l, 't, 'c, 'e, 'io, 'i, 'k, 'w) network \<Rightarrow> 'io stream_error + 'a" where
  "default_bind_address net = map_err io_error (parse_addr net ''127.0.0.1:0'')"

definition bind_socket ::
  "('a, 'l, 't, 'c, 'e, 'io, 'i, 'k, 'w) network \<Rightarrow> 'a \<Rightarrow> 'w \<Rightarrow> ('io stream_error + 'l \<times> 'a) \<times> 'w" where
  "bind_socket net addr w =
     (case tcp_bind net addr w of
        (Inl e, w') \<Rightarrow> (Inl (io_error e), w')
      | (Inr l, w') \<Rightarrow> (and_then (map_err io_error (tcp_local_addr net l)) (\<lambda>bound. Inr (l, bound)), w'))"

definition bind_cleartext ::
  "('a, 'l, 't, 'c, 'e, 'io, 'i, 'k, 'w) network \<Rightarrow> 'a \<Rightarrow> 'w \<Rightarrow> ('io stream_error + ('l, 'c) ws_listener \<times> 'a) \<times> 'w" where
  "bind_cleartext net addr w =
     (let (r, w') = bind_socket net addr w
      in (and_then r (\<lambda>(l, bound). Inr (\<lparr>tcp_listener = l, listener_config = cleartext_config net\<rparr>, bound)), w'))"

definition bind_with ::
  "('a, 'l, 't, 'c, 'e, 'io, 'i, 'k, 'w) network \<Rightarrow> 'a \<Rightarrow> 'e \<Rightarrow> 'w \<Rightarrow> ('io stream_error + ('l, 'c) ws_listener \<times> 'a) \<times> 'w" where
  "bind_with net addr encryption w =
     (let (r, w') = bind_socket net addr w
      in (and_then r (\<lambda>(l, bound). and_then (config_of_encryption net encryption) (\<lambda>config.
            Inr (\<lparr>tcp_listener = l, listener_config = config\<rparr>, bound))), w'))"

definition connect_stream ::
  "('a, 'l, 't, 'c, 'e, 'io, 'i, 'k, 'w) network \<Rightarrow> 'a \<Rightarrow> 'w \<Rightarrow> ('io stream_error + ('i, 'k) ws_stream) \<times> 'w" where
  "connect_stream net addr w =
     (let url = ''ws://'' @ show_addr net addr @ ''/'';
          ceilings = bounded_config (default_ws_config net) (default_envelope net)
      in case ws_connect net url ceilings w of
           (Inl e, w') \<Rightarrow> (Inl (map_ws_error e), w')
         | (Inr (src, k), w') \<Rightarrow> (Inr (ws_stream_new src k), w'))"

text \<open>The listener trait, and the hooks of a connection pool; \<open>leasable\<close> is upstream's \<^verbatim>\<open>is_leasable\<close>.\<close>

definition listener_accept ::
  "('a, 'l, 't, 'c, 'e, 'io, 'i, 'k, 'w) network \<Rightarrow> ('l, 'c) ws_listener \<Rightarrow> 'w \<Rightarrow>
   ('io stream_error + ('i, 'k, 'c) ws_transport \<times> 'a) \<times> 'w" where
  "listener_accept net l w =
     (let (accepted, w') = accept net l w in (and_then accepted (\<lambda>(transport, addr). Inr (transport, addr)), w'))"

definition is_connected :: "(('i, 'k, 'c) ws_transport \<Rightarrow> bool) \<Rightarrow> ('i, 'k, 'c) ws_transport \<Rightarrow> bool" where
  "is_connected leasable transport = leasable transport"

definition try_close :: "('i, 'k, 'c) ws_transport \<Rightarrow> ('i, 'k, 'c) ws_transport" where
  "try_close transport = transport"

section \<open>Properties\<close>

lemma bounded_config_eq: "bounded_config defaults n = \<lparr>max_message_size = Some n, max_frame_size = Some n\<rparr>"
  by (cases defaults) (simp add: bounded_config_def Let_def)

text \<open>
  The listener's provisioning reaches every connection: a transport accepted from an encrypted
  bind carries the configuration made from the given encryption settings, never the cleartext one,
  over a fresh live stream, and its socket was upgraded under that configuration's own ceilings; an
  encryption configuration that is refused binds no listener.
\<close>

lemma accepted_transport_is_provisioned:
  assumes "bind_with net addr encryption w = (Inr (l, bound), w1)"
    and "accept net l w2 = (Inr (t, peer), w3)"
  shows "config_of_encryption net encryption = Inr (transport_config t) \<and> listener_config l = transport_config t \<and>
    is_alive (transport_stream t) \<and>
    (\<exists>tcp w' ceilings items k. tcp_accept net (tcp_listener l) w2 = (Inr (tcp, peer), w') \<and>
       ws_accept net tcp ceilings w' = (Inr (items, k), w3) \<and>
       max_message_size ceilings = Some (max_envelope net (transport_config t)) \<and>
       max_frame_size ceilings = Some (max_envelope net (transport_config t)) \<and>
       transport_stream t = ws_stream_new items k)"
proof -
  from assms(1) have "config_of_encryption net encryption = Inr (listener_config l)"
    by (auto simp: bind_with_def Let_def result_simps split: prod.splits)
  moreover obtain tcp w' items k where steps: "tcp_accept net (tcp_listener l) w2 = (Inr (tcp, peer), w')"
    "ws_accept net tcp (bounded_config (default_ws_config net) (max_envelope net (listener_config l))) w' = (Inr (items, k), w3)"
    "t = create_transport (ws_stream_new items k) (listener_config l)"
    using assms(2) by (auto simp: accept_def Let_def split: prod.splits sum.splits)
  ultimately show ?thesis
    by (simp add: create_transport_def is_alive_def ws_stream_new_def bounded_config_eq)
       (metis ws_config.select_convs(1,2))
qed

text \<open>A dial takes the default ceilings, and its failure is the mapped socket error.\<close>

lemma connect_ceilings:
  "fst (connect_stream net addr w) =
     (case fst (ws_connect net (''ws://'' @ show_addr net addr @ ''/'')
          \<lparr>max_message_size = Some (default_envelope net), max_frame_size = Some (default_envelope net)\<rparr> w) of
        Inl e \<Rightarrow> Inl (map_ws_error e) | Inr (src, k) \<Rightarrow> Inr (ws_stream_new src k))"
  by (auto simp: connect_stream_def bounded_config_eq Let_def split: prod.split sum.split)

end
