(* ===== verification/Identity.thy ===== *)
theory Identity
  imports Paywall Ws_Listener
begin

text \<open>
  Provisioned X.509 identities (\<^verbatim>\<open>ws/tightbeam-ws/src/testing/fixtures.rs\<close>, \<^verbatim>\<open>handshake.rs\<close> there and the
  generator \<^verbatim>\<open>examples/gen_certs.rs\<close>): issuing, writing to files, reloading, and pinning trust. Keys,
  certificates, trust stores and the operating system's files are parameters, the fields of
  \<open>identity_api\<close>; the process's surroundings (randomness, clock, files) are its state \<open>'w\<close>.
\<close>

section \<open>Surroundings\<close>

text \<open>An operating system error, or one of the errors this code makes itself.\<close>

datatype 'os io_failure = OsFailure 'os | IoNotFound string | IoInvalidData string

record ('cert, 'key, 'ident, 'trust, 'tb, 'os, 'w) identity_api =
  random_key :: "'w \<Rightarrow> 'key \<times> 'w"
  spki_from_key :: "'key \<Rightarrow> 'tb + bytes"
  issue_leaf :: "string \<Rightarrow> string \<Rightarrow> u32 \<Rightarrow> nat \<Rightarrow> bytes \<Rightarrow> 'key \<Rightarrow> 'w \<Rightarrow> ('tb + 'cert) \<times> 'w"
  leaf_to_der :: "'cert \<Rightarrow> 'tb + bytes"
  leaf_from_der :: "bytes \<Rightarrow> 'tb + 'cert"
  key_to_bytes :: "'key \<Rightarrow> bytes"
  key_from_bytes :: "bytes \<Rightarrow> 'tb + 'key"
  signing_identity_new :: "'cert \<Rightarrow> 'key \<Rightarrow> 'tb + 'ident"
  anchor_with :: "'cert \<Rightarrow> 'tb + 'trust"
  fs_read :: "'w \<Rightarrow> string \<Rightarrow> 'os + bytes"
  fs_write :: "string \<Rightarrow> bytes \<Rightarrow> 'w \<Rightarrow> ('os + unit) \<times> 'w"
  fs_create_dir_all :: "string \<Rightarrow> 'w \<Rightarrow> ('os + unit) \<times> 'w"

type_synonym ('os, 'tb) fixture_error = "('os io_failure, 'tb) ws_lib_error"

section \<open>Identities\<close>

definition SIGNING_KEY_LEN :: nat where "SIGNING_KEY_LEN = 32"
definition SERVER_CERT_ENV :: string where "SERVER_CERT_ENV = ''TBWS_SERVER_CERT''"
definition SERVER_KEY_ENV :: string where "SERVER_KEY_ENV = ''TBWS_SERVER_KEY''"

record ('cert, 'key) identity =
  certificate :: 'cert
  signing_key :: 'key

definition mint_identity ::
  "('cert, 'key, 'ident, 'trust, 'tb, 'os, 'w) identity_api \<Rightarrow> string \<Rightarrow> u32 \<Rightarrow> nat \<Rightarrow> 'w \<Rightarrow>
   ('tb + ('cert, 'key) identity) \<times> 'w" where
  "mint_identity api subject serial validity w =
     (let (key, w1) = random_key api w
      in case spki_from_key api key of
           Inl e \<Rightarrow> (Inl e, w1)
         | Inr spki \<Rightarrow>
             (let (issued, w2) = issue_leaf api subject subject serial validity spki key w1
              in (and_then issued (\<lambda>cert. Inr \<lparr>certificate = cert, signing_key = key\<rparr>), w2)))"

definition identity_mint ::
  "('cert, 'key, 'ident, 'trust, 'tb, 'os, 'w) identity_api \<Rightarrow> string \<Rightarrow> u32 \<Rightarrow> nat \<Rightarrow> 'w \<Rightarrow>
   (('os, 'tb) fixture_error + ('cert, 'key) identity) \<times> 'w" where
  "identity_mint api subject serial validity w = apfst (map_err Tightbeam) (mint_identity api subject serial validity w)"

definition load_identity ::
  "('cert, 'key, 'ident, 'trust, 'tb, 'os, 'w) identity_api \<Rightarrow> bytes \<Rightarrow> bytes \<Rightarrow> 'tb + ('cert, 'key) identity" where
  "load_identity api certificate_der key_bytes =
     and_then (leaf_from_der api certificate_der) (\<lambda>cert.
     and_then (key_from_bytes api key_bytes) (\<lambda>key. Inr \<lparr>certificate = cert, signing_key = key\<rparr>))"

text \<open>The key is an array of exactly \<open>SIGNING_KEY_LEN\<close> octets: its callers convert their slice first.\<close>

definition identity_from_der ::
  "('cert, 'key, 'ident, 'trust, 'tb, 'os, 'w) identity_api \<Rightarrow> bytes \<Rightarrow> bytes \<Rightarrow>
   ('os, 'tb) fixture_error + ('cert, 'key) identity" where
  "identity_from_der api certificate_der key_bytes = map_err Tightbeam (load_identity api certificate_der key_bytes)"

text \<open>A slice as an array of \<open>SIGNING_KEY_LEN\<close> octets (\<^verbatim>\<open>try_into\<close>).\<close>

definition key_array :: "'e \<Rightarrow> bytes \<Rightarrow> 'e + bytes" where
  "key_array e b = (if length b = SIGNING_KEY_LEN then Inr b else Inl e)"

definition required_path :: "environment \<Rightarrow> string \<Rightarrow> 'os io_failure + string" where
  "required_path env name = ok_or (IoNotFound (name @ '' is not set'')) (env name)"

definition identity_from_env ::
  "('cert, 'key, 'ident, 'trust, 'tb, 'os, 'w) identity_api \<Rightarrow> environment \<Rightarrow> 'w \<Rightarrow>
   ('os, 'tb) fixture_error + ('cert, 'key) identity" where
  "identity_from_env api env w =
     and_then (map_err Io (required_path env SERVER_CERT_ENV)) (\<lambda>cert_path.
     and_then (map_err (Io \<circ> OsFailure) (fs_read api w cert_path)) (\<lambda>certificate_der.
     and_then (map_err Io (required_path env SERVER_KEY_ENV)) (\<lambda>key_path.
     and_then (map_err (Io \<circ> OsFailure) (fs_read api w key_path)) (\<lambda>key_bytes.
     and_then (key_array (Io (IoInvalidData ''signing key file must hold exactly 32 bytes'')) key_bytes) (\<lambda>key.
       identity_from_der api certificate_der key)))))"

definition certificate_der ::
  "('cert, 'key, 'ident, 'trust, 'tb, 'os, 'w) identity_api \<Rightarrow> ('cert, 'key) identity \<Rightarrow> ('os, 'tb) fixture_error + bytes" where
  "certificate_der api i = map_err Tightbeam (leaf_to_der api (certificate i))"

definition signing_key_bytes ::
  "('cert, 'key, 'ident, 'trust, 'tb, 'os, 'w) identity_api \<Rightarrow> ('cert, 'key) identity \<Rightarrow> bytes" where
  "signing_key_bytes api i = key_to_bytes api (signing_key i)"

definition signing_identity ::
  "('cert, 'key, 'ident, 'trust, 'tb, 'os, 'w) identity_api \<Rightarrow> ('cert, 'key) identity \<Rightarrow> ('os, 'tb) fixture_error + 'ident" where
  "signing_identity api i = map_err Tightbeam (signing_identity_new api (certificate i) (signing_key i))"

text \<open>The encryption settings of a server: the identity it presents and the checks on client certificates.\<close>

record ('ident, 'val) encryption_config =
  presented :: 'ident
  client_validators_of :: "'val list"

definition server_config ::
  "('cert, 'key, 'ident, 'trust, 'tb, 'os, 'w) identity_api \<Rightarrow> ('cert, 'key) identity \<Rightarrow>
   ('os, 'tb) fixture_error + ('ident, 'val) encryption_config" where
  "server_config api i = and_then (signing_identity api i) (\<lambda>ident. Inr \<lparr>presented = ident, client_validators_of = []\<rparr>)"

section \<open>Trust\<close>

definition pin :: "('cert, 'key, 'ident, 'trust, 'tb, 'os, 'w) identity_api \<Rightarrow> 'cert \<Rightarrow> 'tb + 'trust" where
  "pin api cert = anchor_with api cert"

definition trust_anchor ::
  "('cert, 'key, 'ident, 'trust, 'tb, 'os, 'w) identity_api \<Rightarrow> ('cert, 'key) identity \<Rightarrow> ('os, 'tb) fixture_error + 'trust" where
  "trust_anchor api i = map_err Tightbeam (pin api (certificate i))"

definition pinned_trust ::
  "('cert, 'key, 'ident, 'trust, 'tb, 'os, 'w) identity_api \<Rightarrow> bytes \<Rightarrow> ('os, 'tb) fixture_error + 'trust" where
  "pinned_trust api der =
     and_then (map_err Tightbeam (leaf_from_der api der)) (\<lambda>cert. map_err Tightbeam (pin api cert))"

section \<open>The generator\<close>

definition ONE_YEAR :: nat where "ONE_YEAR = 365 * 24 * 60 * 60"

text \<open>\<^verbatim>\<open>Path::join\<close> on Unix: an absolute name replaces the path, otherwise one separator stands between them.\<close>

definition path_join :: "string \<Rightarrow> string \<Rightarrow> string" where
  "path_join dir name =
     (if starts_with name ''/'' then name
      else if dir = [] \<or> last dir = CHR ''/'' then dir @ name
      else dir @ ''/'' @ name)"

definition write_identity ::
  "('cert, 'key, 'ident, 'trust, 'tb, 'os, 'w) identity_api \<Rightarrow> string \<Rightarrow> string \<Rightarrow> ('cert, 'key) identity \<Rightarrow> 'w \<Rightarrow>
   (('os, 'tb) fixture_error + unit) \<times> 'w" where
  "write_identity api dir name i w =
     (let cert_path = path_join dir (name @ ''.cert.der''); key_path = path_join dir (name @ ''.key'')
      in case certificate_der api i of
           Inl e \<Rightarrow> (Inl e, w)
         | Inr der \<Rightarrow>
             (case fs_write api cert_path der w of
                (Inl e, w') \<Rightarrow> (Inl (Io (OsFailure e)), w')
              | (Inr _, w') \<Rightarrow>
                  (case fs_write api key_path (signing_key_bytes api i) w' of
                     (Inl e, w'') \<Rightarrow> (Inl (Io (OsFailure e)), w'')
                   | (Inr _, w'') \<Rightarrow> (Inr (), w''))))"

definition cert_dir :: "environment \<Rightarrow> string" where
  "cert_dir env = (case env ''CERT_DIR'' of Some dir \<Rightarrow> dir | None \<Rightarrow> ''./.dev/certs'')"

definition gen_certs ::
  "('cert, 'key, 'ident, 'trust, 'tb, 'os, 'w) identity_api \<Rightarrow> environment \<Rightarrow> 'w \<Rightarrow>
   (('os, 'tb) fixture_error + unit) \<times> 'w" where
  "gen_certs api env w =
     (let dir = cert_dir env
      in case fs_create_dir_all api dir w of
           (Inl e, w1) \<Rightarrow> (Inl (Io (OsFailure e)), w1)
         | (Inr _, w1) \<Rightarrow>
      (case identity_mint api ''CN=tightbeam-ws echo,O=tightbeam-ws,C=US'' 1 ONE_YEAR w1 of
           (Inl e, w2) \<Rightarrow> (Inl e, w2)
         | (Inr server, w2) \<Rightarrow>
      (case identity_mint api ''CN=tightbeam-ws client,O=tightbeam-ws,C=US'' 2 ONE_YEAR w2 of
           (Inl e, w3) \<Rightarrow> (Inl e, w3)
         | (Inr client, w3) \<Rightarrow>
      (case write_identity api dir ''server'' server w3 of
           (Inl e, w4) \<Rightarrow> (Inl e, w4)
         | (Inr _, w4) \<Rightarrow> write_identity api dir ''client'' client w4))))"

section \<open>Loading by other variables\<close>

text \<open>The boxed errors of the example programs: a message, an unset variable, or an error of one of the layers below.\<close>

datatype ('os, 'tb) box_error =
    BoxText string
  | BoxVar
  | BoxOs 'os
  | BoxFixture "('os, 'tb) fixture_error"
  | BoxStream "'os stream_error"
  | BoxWs "'os ws_error"
  | BoxCert 'tb
  | BoxTightbeam wire_error

definition relay_client_identity ::
  "('cert, 'key, 'ident, 'trust, 'tb, 'os, 'w) identity_api \<Rightarrow> environment \<Rightarrow> 'w \<Rightarrow>
   ('os, 'tb) box_error + ('cert, 'key) identity" where
  "relay_client_identity api env w =
     and_then (ok_or BoxVar (env ''TBWS_CLIENT_CERT'')) (\<lambda>cert_path.
     and_then (map_err BoxOs (fs_read api w cert_path)) (\<lambda>certificate_der.
     and_then (ok_or BoxVar (env ''TBWS_CLIENT_KEY'')) (\<lambda>key_path.
     and_then (map_err BoxOs (fs_read api w key_path)) (\<lambda>key_bytes.
     and_then (key_array (BoxText ''TBWS_CLIENT_KEY must hold exactly 32 bytes'') key_bytes) (\<lambda>key.
       map_err BoxFixture (identity_from_der api certificate_der key))))))"

definition load_work_identity ::
  "('cert, 'key, 'ident, 'trust, 'tb, 'os, 'w) identity_api \<Rightarrow> environment \<Rightarrow> 'w \<Rightarrow>
   ('os, 'tb) box_error + ('cert, 'key) identity" where
  "load_work_identity api env w =
     and_then (ok_or (BoxText ''TBWS_WORK_CERT is not set'') (env ''TBWS_WORK_CERT'')) (\<lambda>cert_path.
     and_then (ok_or (BoxText ''TBWS_WORK_KEY is not set'') (env ''TBWS_WORK_KEY'')) (\<lambda>key_path.
     and_then (map_err BoxOs (fs_read api w cert_path)) (\<lambda>certificate.
     and_then (map_err BoxOs (fs_read api w key_path)) (\<lambda>key_bytes.
     and_then (key_array (BoxText ''work key file must hold exactly 32 bytes'') key_bytes) (\<lambda>scalar.
       map_err BoxFixture (identity_from_der api certificate scalar))))))"

section \<open>Reloading what was written\<close>

text \<open>
  What the generator relies on: a certificate and a key come back from their own encoding, a key
  encodes as 32 octets, a file holds what was last written to it, and writing one entry of the
  directory leaves its other entries alone.
\<close>

definition encoding_laws :: "('cert, 'key, 'ident, 'trust, 'tb, 'os, 'w) identity_api \<Rightarrow> bool" where
  "encoding_laws api \<longleftrightarrow>
     (\<forall>c d. leaf_to_der api c = Inr d \<longrightarrow> leaf_from_der api d = Inr c) \<and>
     (\<forall>k. key_from_bytes api (key_to_bytes api k) = Inr k \<and> length (key_to_bytes api k) = 32)"

definition file_laws :: "('cert, 'key, 'ident, 'trust, 'tb, 'os, 'w) identity_api \<Rightarrow> string \<Rightarrow> bool" where
  "file_laws api dir \<longleftrightarrow>
     (\<forall>p b w w'. fs_write api p b w = (Inr (), w') \<longrightarrow> fs_read api w' p = Inr b) \<and>
     (\<forall>n m b w w'. n \<noteq> m \<longrightarrow> \<not> starts_with n ''/'' \<longrightarrow> \<not> starts_with m ''/'' \<longrightarrow>
        fs_write api (path_join dir n) b w = (Inr (), w') \<longrightarrow>
        fs_read api w' (path_join dir m) = fs_read api w (path_join dir m))"

lemma path_join_inj: "\<not> starts_with n ''/'' \<Longrightarrow> \<not> starts_with m ''/'' \<Longrightarrow> path_join dir n = path_join dir m \<longleftrightarrow> n = m"
  by (auto simp: path_join_def)

text \<open>The two files of an identity, and what stays of the others.\<close>

lemma write_identity_files:
  assumes "encoding_laws api" and "file_laws api dir" and "write_identity api dir name i w = (Inr (), w')"
    and "\<not> starts_with (name @ ''.cert.der'') ''/''" and "\<not> starts_with (name @ ''.key'') ''/''"
  obtains der where "leaf_from_der api der = Inr (certificate i)"
    "fs_read api w' (path_join dir (name @ ''.cert.der'')) = Inr der"
    "fs_read api w' (path_join dir (name @ ''.key'')) = Inr (signing_key_bytes api i)"
    "\<forall>m. \<not> starts_with m ''/'' \<and> m \<noteq> name @ ''.cert.der'' \<and> m \<noteq> name @ ''.key'' \<longrightarrow>
       fs_read api w' (path_join dir m) = fs_read api w (path_join dir m)"
proof -
  let ?cert = "name @ ''.cert.der''" and ?key = "name @ ''.key''"
  obtain der w1 where steps: "certificate_der api i = Inr der" "fs_write api (path_join dir ?cert) der w = (Inr (), w1)"
    "fs_write api (path_join dir ?key) (signing_key_bytes api i) w1 = (Inr (), w')"
    using assms(3) by (auto simp: write_identity_def Let_def split: sum.splits prod.splits)
  have read: "fs_write api p b v = (Inr (), v') \<Longrightarrow> fs_read api v' p = Inr b" for p b v v'
    using assms(2) by (auto simp: file_laws_def)
  have keep: "n \<noteq> m \<Longrightarrow> \<not> starts_with n ''/'' \<Longrightarrow> \<not> starts_with m ''/'' \<Longrightarrow> fs_write api (path_join dir n) b v = (Inr (), v') \<Longrightarrow>
      fs_read api v' (path_join dir m) = fs_read api v (path_join dir m)" for n m b v v'
    using assms(2) by (auto simp: file_laws_def)
  have "leaf_to_der api (certificate i) = Inr der" using steps(1) by (simp add: certificate_der_def result_simps)
  then have reread: "leaf_from_der api der = Inr (certificate i)" using assms(1) by (auto simp: encoding_laws_def)
  have "?key \<noteq> ?cert" by simp
  then have "fs_read api w' (path_join dir ?cert) = Inr der" using keep [OF _ assms(5,4) steps(3)] read [OF steps(2)] by simp
  moreover have "fs_read api w' (path_join dir m) = fs_read api w (path_join dir m)" if "\<not> starts_with m ''/''" "m \<noteq> ?cert" "m \<noteq> ?key" for m
    using keep [OF _ assms(5) _ steps(3), of m] keep [OF _ assms(4) _ steps(2), of m] that by metis
  ultimately show thesis using that reread read [OF steps(3)] by blast
qed

lemma identity_from_files:
  assumes "encoding_laws api" "leaf_from_der api der = Inr (certificate i)"
  shows "identity_from_der api der (signing_key_bytes api i) = Inr (i :: ('cert, 'key) identity)"
    and "key_array e (signing_key_bytes api i) = Inr (signing_key_bytes api i)"
  using assms
  by (auto simp: identity_from_der_def load_identity_def signing_key_bytes_def key_array_def SIGNING_KEY_LEN_def encoding_laws_def)

text \<open>An identity written under a name is what the three loaders read from its two files.\<close>

lemma written_identity_loads:
  assumes "encoding_laws api" and "leaf_from_der api der = Inr (certificate i)"
    and "fs_read api w cert_path = Inr der" and "fs_read api w key_path = Inr (signing_key_bytes api i)"
  shows "env SERVER_CERT_ENV = Some cert_path \<Longrightarrow> env SERVER_KEY_ENV = Some key_path \<Longrightarrow> identity_from_env api env w = Inr i"
    and "env ''TBWS_CLIENT_CERT'' = Some cert_path \<Longrightarrow> env ''TBWS_CLIENT_KEY'' = Some key_path \<Longrightarrow>
      relay_client_identity api env w = Inr i"
    and "env ''TBWS_WORK_CERT'' = Some cert_path \<Longrightarrow> env ''TBWS_WORK_KEY'' = Some key_path \<Longrightarrow>
      load_work_identity api env w = Inr i"
  using assms(3,4)
  by (simp_all add: identity_from_files [OF assms(1,2)] identity_from_env_def relay_client_identity_def load_work_identity_def required_path_def ok_or_def)

text \<open>The two identities a successful run makes, and what their four files hold.\<close>

lemma gen_certs_files:
  assumes laws: "encoding_laws api" "file_laws api (cert_dir env)" and run: "gen_certs api env w = (Inr (), w')"
  obtains server client w1 w2 w3 server_der client_der where
    "identity_mint api ''CN=tightbeam-ws echo,O=tightbeam-ws,C=US'' 1 ONE_YEAR w1 = (Inr server, w2)"
    "identity_mint api ''CN=tightbeam-ws client,O=tightbeam-ws,C=US'' 2 ONE_YEAR w2 = (Inr client, w3)"
    "leaf_from_der api server_der = Inr (certificate server)" "leaf_from_der api client_der = Inr (certificate client)"
    "fs_read api w' (path_join (cert_dir env) ''server.cert.der'') = Inr server_der"
    "fs_read api w' (path_join (cert_dir env) ''server.key'') = Inr (signing_key_bytes api server)"
    "fs_read api w' (path_join (cert_dir env) ''client.cert.der'') = Inr client_der"
    "fs_read api w' (path_join (cert_dir env) ''client.key'') = Inr (signing_key_bytes api client)"
proof -
  let ?dir = "cert_dir env"
  obtain w1 server w2 client w3 w4 where made:
    "identity_mint api ''CN=tightbeam-ws echo,O=tightbeam-ws,C=US'' 1 ONE_YEAR w1 = (Inr server, w2)"
    "identity_mint api ''CN=tightbeam-ws client,O=tightbeam-ws,C=US'' 2 ONE_YEAR w2 = (Inr client, w3)"
    and ws: "write_identity api ?dir ''server'' server w3 = (Inr (), w4)"
    and wc: "write_identity api ?dir ''client'' client w4 = (Inr (), w')"
    using run by (auto simp: gen_certs_def Let_def split: sum.splits prod.splits)
  have names: "\<not> starts_with (''server'' @ ''.cert.der'') ''/''" "\<not> starts_with (''server'' @ ''.key'') ''/''"
    "\<not> starts_with (''client'' @ ''.cert.der'') ''/''" "\<not> starts_with (''client'' @ ''.key'') ''/''"
    by (simp_all add: starts_with_iff)
  obtain server_der where s: "leaf_from_der api server_der = Inr (certificate server)"
    "fs_read api w4 (path_join ?dir (''server'' @ ''.cert.der'')) = Inr server_der"
    "fs_read api w4 (path_join ?dir (''server'' @ ''.key'')) = Inr (signing_key_bytes api server)"
    by (rule write_identity_files [OF laws ws names(1,2)])
  obtain client_der where c: "leaf_from_der api client_der = Inr (certificate client)"
    "fs_read api w' (path_join ?dir (''client'' @ ''.cert.der'')) = Inr client_der"
    "fs_read api w' (path_join ?dir (''client'' @ ''.key'')) = Inr (signing_key_bytes api client)"
    and keep: "\<forall>m. \<not> starts_with m ''/'' \<and> m \<noteq> ''client'' @ ''.cert.der'' \<and> m \<noteq> ''client'' @ ''.key'' \<longrightarrow>
      fs_read api w' (path_join ?dir m) = fs_read api w4 (path_join ?dir m)"
    by (rule write_identity_files [OF laws wc names(3,4)])
  have "fs_read api w' (path_join ?dir ''server.cert.der'') = Inr server_der"
    "fs_read api w' (path_join ?dir ''server.key'') = Inr (signing_key_bytes api server)"
    using keep names(1,2) s(2,3) by simp_all
  with made s(1) c show thesis using that by simp
qed

text \<open>
  What the generator writes is what the servers load: after a successful run, a process whose
  environment names the server's two files loads exactly the server identity that was issued, one
  that names the client's files exactly the client identity, and the trust store made from the
  client's certificate file is the anchor of that identity. Writing the client does not disturb the
  server's files.
\<close>

lemma generated_identities_reload:
  assumes "encoding_laws api" and "file_laws api (cert_dir env)" and "gen_certs api env w = (Inr (), w')"
    and "env' SERVER_CERT_ENV = Some (path_join (cert_dir env) ''server.cert.der'')"
    and "env' SERVER_KEY_ENV = Some (path_join (cert_dir env) ''server.key'')"
    and "env' ''TBWS_CLIENT_CERT'' = Some (path_join (cert_dir env) ''client.cert.der'')"
    and "env' ''TBWS_CLIENT_KEY'' = Some (path_join (cert_dir env) ''client.key'')"
  shows "\<exists>server client w1 w2 w3 der.
    identity_mint api ''CN=tightbeam-ws echo,O=tightbeam-ws,C=US'' 1 ONE_YEAR w1 = (Inr server, w2) \<and>
    identity_mint api ''CN=tightbeam-ws client,O=tightbeam-ws,C=US'' 2 ONE_YEAR w2 = (Inr client, w3) \<and>
    identity_from_env api env' w' = Inr server \<and> relay_client_identity api env' w' = Inr client \<and>
    fs_read api w' (path_join (cert_dir env) ''client.cert.der'') = Inr der \<and>
    pinned_trust api der = trust_anchor api client"
proof -
  obtain server client w1 w2 w3 server_der client_der where made:
    "identity_mint api ''CN=tightbeam-ws echo,O=tightbeam-ws,C=US'' 1 ONE_YEAR w1 = (Inr server, w2)"
    "identity_mint api ''CN=tightbeam-ws client,O=tightbeam-ws,C=US'' 2 ONE_YEAR w2 = (Inr client, w3)"
    and s: "leaf_from_der api server_der = Inr (certificate server)"
    and c: "leaf_from_der api client_der = Inr (certificate client)"
    and files: "fs_read api w' (path_join (cert_dir env) ''server.cert.der'') = Inr server_der"
    "fs_read api w' (path_join (cert_dir env) ''server.key'') = Inr (signing_key_bytes api server)"
    "fs_read api w' (path_join (cert_dir env) ''client.cert.der'') = Inr client_der"
    "fs_read api w' (path_join (cert_dir env) ''client.key'') = Inr (signing_key_bytes api client)"
    by (rule gen_certs_files [OF assms(1-3)])
  have "identity_from_env api env' w' = Inr server"
    using written_identity_loads(1) [OF assms(1) s files(1,2)] assms(4,5) .
  moreover have "relay_client_identity api env' w' = Inr client"
    using written_identity_loads(2) [OF assms(1) c files(3,4)] assms(6,7) .
  moreover have "pinned_trust api client_der = trust_anchor api client"
    using c by (simp add: pinned_trust_def trust_anchor_def)
  ultimately show ?thesis using made files(3) by blast
qed

text \<open>Certificates as their octets, keys as 32 equal octets counted up, files as a map.\<close>

definition example_identity_api :: "(bytes, u8, bytes \<times> u8, bytes, unit, unit, u8 \<times> (string \<Rightarrow> bytes option)) identity_api" where
  "example_identity_api =
     \<lparr>random_key = (\<lambda>(n, fs). (n, n + 1, fs)), spki_from_key = (\<lambda>k. Inr [k]),
      issue_leaf = (\<lambda>subject issuer serial validity spki key w. (Inr (as_bytes subject @ spki), w)),
      leaf_to_der = Inr, leaf_from_der = Inr, key_to_bytes = replicate 32, key_from_bytes = (\<lambda>b. Inr (hd b)),
      signing_identity_new = (\<lambda>c k. Inr (c, k)), anchor_with = Inr,
      fs_read = (\<lambda>(n, fs) p. case fs p of Some b \<Rightarrow> Inr b | None \<Rightarrow> Inl ()),
      fs_write = (\<lambda>p b (n, fs). (Inr (), n, fs(p \<mapsto> b))), fs_create_dir_all = (\<lambda>p w. (Inr (), w))\<rparr>"

lemma example_identity_laws: "encoding_laws example_identity_api" "file_laws example_identity_api dir"
  by (auto simp: encoding_laws_def file_laws_def example_identity_api_def path_join_inj)

lemma generated_identities_example:
  "\<exists>server client w'. gen_certs example_identity_api (\<lambda>_. None) (7, \<lambda>_. None) = (Inr (), w') \<and>
     identity_from_env example_identity_api
       [''TBWS_SERVER_CERT'' \<mapsto> ''./.dev/certs/server.cert.der'', ''TBWS_SERVER_KEY'' \<mapsto> ''./.dev/certs/server.key'',
        ''TBWS_CLIENT_CERT'' \<mapsto> ''./.dev/certs/client.cert.der'', ''TBWS_CLIENT_KEY'' \<mapsto> ''./.dev/certs/client.key''] w' = Inr server \<and>
     relay_client_identity example_identity_api
       [''TBWS_SERVER_CERT'' \<mapsto> ''./.dev/certs/server.cert.der'', ''TBWS_SERVER_KEY'' \<mapsto> ''./.dev/certs/server.key'',
        ''TBWS_CLIENT_CERT'' \<mapsto> ''./.dev/certs/client.cert.der'', ''TBWS_CLIENT_KEY'' \<mapsto> ''./.dev/certs/client.key''] w' = Inr client"
proof -
  let ?env = "[''TBWS_SERVER_CERT'' \<mapsto> ''./.dev/certs/server.cert.der'', ''TBWS_SERVER_KEY'' \<mapsto> ''./.dev/certs/server.key'',
        ''TBWS_CLIENT_CERT'' \<mapsto> ''./.dev/certs/client.cert.der'', ''TBWS_CLIENT_KEY'' \<mapsto> ''./.dev/certs/client.key''] :: environment"
  let ?dir = "cert_dir (\<lambda>_. None)"
  have "fst (gen_certs example_identity_api (\<lambda>_. None) (7, \<lambda>_. None)) = Inr ()"
    by (simp add: gen_certs_def identity_mint_def mint_identity_def write_identity_def certificate_der_def
        example_identity_api_def Let_def)
  then obtain w' where ok: "gen_certs example_identity_api (\<lambda>_. None) (7, \<lambda>_. None) = (Inr (), w')"
    by (metis prod.collapse)
  have paths: "path_join ?dir ''server.cert.der'' = ''./.dev/certs/server.cert.der''"
    "path_join ?dir ''server.key'' = ''./.dev/certs/server.key''"
    "path_join ?dir ''client.cert.der'' = ''./.dev/certs/client.cert.der''"
    "path_join ?dir ''client.key'' = ''./.dev/certs/client.key''"
    by (simp_all add: path_join_def cert_dir_def starts_with_iff)
  from generated_identities_reload [OF example_identity_laws ok, of ?env] ok show ?thesis
    by (auto simp: paths SERVER_CERT_ENV_def SERVER_KEY_ENV_def)
qed

end
