(* ===== verification/Ws_Mux.thy ===== *)
theory Ws_Mux
  imports Ws_Fault
begin

text \<open>
  The multiplexed browser client (\<^verbatim>\<open>ws/tightbeam-ws-wasm/src/mux.rs\<close>): opening a session under an
  abort signal, the peer-serve mode and its one serve loop, unary handlers and their statuses, GoAway
  reasons, and work submission. The mux driver, the handshake and the URN type are parameters.
\<close>

section \<open>Statuses\<close>

definition STATUS_CODES :: "(string \<times> transit_status) list" where
  "STATUS_CODES =
     [(''Cancelled'', Cancelled), (''InvalidArgument'', InvalidArgument), (''DeadlineExceeded'', DeadlineExceeded),
      (''NotFound'', NotFound), (''AlreadyExists'', AlreadyExists), (''PermissionDenied'', PermissionDenied),
      (''ResourceExhausted'', ResourceExhausted), (''FailedPrecondition'', FailedPrecondition), (''Aborted'', Aborted),
      (''OutOfRange'', OutOfRange), (''Unimplemented'', Unimplemented), (''Internal'', Internal),
      (''Unavailable'', Unavailable), (''DataLoss'', DataLoss), (''Unauthenticated'', Unauthenticated)]"

definition status_from_code :: "string \<Rightarrow> transit_status" where
  "status_from_code name = (case map_of STATUS_CODES name of Some status \<Rightarrow> status | None \<Rightarrow> Unknown)"

text \<open>\<^verbatim>\<open>Reflect::get(rejection, "code").ok().and_then(as_string)\<close>.\<close>

definition rejection_code :: "js_value \<Rightarrow> string option" where
  "rejection_code rejection = (case reflect_get rejection ''code'' of Inr v \<Rightarrow> string_value v | Inl _ \<Rightarrow> None)"

definition refusal_for :: "js_value \<Rightarrow> transit_status" where
  "refusal_for rejection =
     (case rejection_code rejection of Some name \<Rightarrow> status_from_code name | None \<Rightarrow> Unknown)"

lemma status_from_code_not_Ok: "status_from_code name \<noteq> TransitOk"
  by (auto simp: status_from_code_def STATUS_CODES_def split: option.split if_splits)

lemma refusal_for_not_Ok: "refusal_for rejection \<noteq> TransitOk"
  by (auto simp: refusal_for_def status_from_code_not_Ok split: option.split)

section \<open>Unary handlers\<close>

record ('e, 's) stream_response =
  response_status :: transit_status
  response_frame :: "('e, 's) frame option"

definition call_handler ::
  "('e, 's, 'd) wire_api \<Rightarrow> error_texts \<Rightarrow> js_host \<Rightarrow> (js_value \<Rightarrow> js_call) \<Rightarrow> ('e, 's) frame \<Rightarrow>
   (js_value + ('e, 's) stream_response) option" where
  "call_handler api texts host handler frame =
     (case frame_to_der api frame of
        Inl e \<Rightarrow> Some (Inl (fault_to_js (wire_display texts e)))
      | Inr request_der \<Rightarrow>
          map_option (\<lambda>outcome.
            and_then outcome (\<lambda>v.
              if is_nullish v then Inr \<lparr>response_status = TransitOk, response_frame = None\<rparr>
              else
                and_then (map_err (\<lambda>e. fault_to_js (wire_display texts e)) (frame_from_der api (uint8_cast host v)))
                  (\<lambda>response. Inr \<lparr>response_status = TransitOk, response_frame = Some response\<rparr>)))
            (settled (handler (JUint8Array request_der))))"

definition respond_via_js ::
  "('e, 's, 'd) wire_api \<Rightarrow> error_texts \<Rightarrow> js_host \<Rightarrow> (js_value \<Rightarrow> js_call) \<Rightarrow> ('e, 's) frame \<Rightarrow>
   ('e, 's) stream_response option" where
  "respond_via_js api texts host handler frame =
     map_option (\<lambda>outcome. case outcome of
         Inr response \<Rightarrow> response
       | Inl rejection \<Rightarrow> \<lparr>response_status = refusal_for rejection, response_frame = None\<rparr>)
       (call_handler api texts host handler frame)"

section \<open>The serve mode\<close>

datatype serve_mode = Unary | Streaming | Duplex

fun serve_mode_label :: "serve_mode \<Rightarrow> string" where
  "serve_mode_label Unary = ''unary''"
| "serve_mode_label Streaming = ''streaming''"
| "serve_mode_label Duplex = ''duplex''"

text \<open>The client's serving state: the responder slot, the shared handler slot, the mode, and the serve loops it has spawned.\<close>

record 'h mux_client =
  responder :: bool
  handler_slot :: 'h
  serving_mode :: "serve_mode option"
  serve_loops :: "serve_mode list"

definition assemble :: "'h \<Rightarrow> 'h mux_client" where
  "assemble inert = \<lparr>responder = True, handler_slot = inert, serving_mode = None, serve_loops = []\<rparr>"

definition claim_serve :: "serve_mode \<Rightarrow> 'h mux_client \<Rightarrow> js_value + 'h mux_client" where
  "claim_serve mode c =
     (case serving_mode c of
        None \<Rightarrow> Inr (c\<lparr>serving_mode := Some mode\<rparr>)
      | Some current \<Rightarrow>
          if current = mode then Inr c
          else Inl (validation ''ServeModeConflict''
            (''peer serve mode is '' @ serve_mode_label current @ ''. Cannot switch to '' @ serve_mode_label mode @
             '' after the responder started'')))"

text \<open>The tail the three calls share: store the handler, and on the first call spawn the loop.\<close>

definition install_handler :: "serve_mode \<Rightarrow> 'h \<Rightarrow> 'h mux_client \<Rightarrow> 'h mux_client" where
  "install_handler mode h c =
     (let c = c\<lparr>handler_slot := h\<rparr>
      in if responder c then c\<lparr>responder := False, serve_loops := serve_loops c @ [mode]\<rparr> else c)"

definition serve_unary :: "'h \<Rightarrow> 'h mux_client \<Rightarrow> js_value + 'h mux_client" where
  "serve_unary h c = and_then (claim_serve Unary c) (\<lambda>c. Inr (install_handler Unary h c))"

definition serve_streaming :: "'h \<Rightarrow> 'h mux_client \<Rightarrow> js_value + 'h mux_client" where
  "serve_streaming h c = and_then (claim_serve Streaming c) (\<lambda>c. Inr (install_handler Streaming h c))"

definition serve_duplex :: "'h \<Rightarrow> 'h mux_client \<Rightarrow> js_value + 'h mux_client" where
  "serve_duplex h c = and_then (claim_serve Duplex c) (\<lambda>c. Inr (install_handler Duplex h c))"

fun serve_call :: "serve_mode \<Rightarrow> 'h \<Rightarrow> 'h mux_client \<Rightarrow> js_value + 'h mux_client" where
  "serve_call Unary h c = serve_unary h c"
| "serve_call Streaming h c = serve_streaming h c"
| "serve_call Duplex h c = serve_duplex h c"

text \<open>A sequence of calls; a rejected call leaves the client as it was.\<close>

fun serve_calls :: "(serve_mode \<times> 'h) list \<Rightarrow> 'h mux_client \<Rightarrow> js_value option list \<times> 'h mux_client" where
  "serve_calls [] c = ([], c)"
| "serve_calls ((mode, h) # calls) c =
     (case serve_call mode h c of
        Inl e \<Rightarrow> (let (rs, c') = serve_calls calls c in (Some e # rs, c'))
      | Inr d \<Rightarrow> (let (rs, c') = serve_calls calls d in (None # rs, c')))"

lemma serve_call_cases:
  "serve_call mode h c =
     (case claim_serve mode c of Inl e \<Rightarrow> Inl e | Inr d \<Rightarrow> Inr (install_handler mode h d))"
  by (cases mode; cases "claim_serve mode c") (simp_all add: serve_unary_def serve_streaming_def serve_duplex_def)

lemma serve_calls_serving:
  assumes "serving_mode c = Some first" "\<not> responder c"
  shows "serve_calls calls c =
    (map (\<lambda>(mode, h). if mode = first then None else Some (projl (claim_serve mode c))) calls,
     c\<lparr>handler_slot := last (handler_slot c # map snd (filter (\<lambda>(mode, h). mode = first) calls))\<rparr>)"
  using assms
proof (induction calls arbitrary: c)
  case (Cons call calls)
  obtain mode h where call: "call = (mode, h)" by (cases call)
  have projl: "projl (claim_serve m (c\<lparr>handler_slot := h\<rparr>)) = projl (claim_serve m c)" if "m \<noteq> first" for m
    using Cons.prems that by (simp add: claim_serve_def)
  show ?case
  proof (cases "mode = first")
    case True
    with Cons.prems have step: "serve_call mode h c = Inr (c\<lparr>handler_slot := h\<rparr>)"
      by (simp add: serve_call_cases claim_serve_def install_handler_def)
    have "serve_calls calls (c\<lparr>handler_slot := h\<rparr>) =
        (map (\<lambda>(mode, h'). if mode = first then None else Some (projl (claim_serve mode (c\<lparr>handler_slot := h\<rparr>)))) calls,
         c\<lparr>handler_slot := last (h # map snd (filter (\<lambda>(mode, h). mode = first) calls))\<rparr>)"
      using Cons.IH [of "c\<lparr>handler_slot := h\<rparr>"] Cons.prems by simp
    with step projl show ?thesis by (auto simp: call True)
  next
    case False
    with Cons.prems have "serve_call mode h c = Inl (projl (claim_serve mode c))"
      by (simp add: serve_call_cases claim_serve_def)
    with Cons False show ?thesis by (simp add: call)
  qed
qed simp

text \<open>
  C29. The serve modes exclude each other: whatever sequence of \<^verbatim>\<open>serve\<close>, \<^verbatim>\<open>serveStreaming\<close> and
  \<^verbatim>\<open>serveDuplex\<close> calls a fresh client gets, it spawns exactly one serve loop, of the first call's
  mode; the calls in that mode succeed and the last of them holds the handler slot; every call in
  another mode is rejected with code \<^verbatim>\<open>ServeModeConflict\<close> and changes nothing.
\<close>

theorem serve_modes_exclusive:
  assumes "serve_calls ((first, h) # calls) (assemble inert) = (results, c)"
  shows "serve_loops c = [first] \<and> serving_mode c = Some first \<and>
    handler_slot c = last (h # map snd (filter (\<lambda>(mode, h). mode = first) calls)) \<and>
    list_all2 (\<lambda>(mode, h) r. if mode = first then r = None
       else \<exists>e. r = Some e \<and> reflect_get e ''code'' = Inr (JString ''ServeModeConflict'')) ((first, h) # calls) results"
proof -
  let ?c = "\<lparr>responder = False, handler_slot = h, serving_mode = Some first, serve_loops = [first]\<rparr>"
  have "serve_call first h (assemble inert) = Inr ?c"
    by (simp add: serve_call_cases claim_serve_def install_handler_def assemble_def)
  then have run: "results = None # map (\<lambda>(mode, h). if mode = first then None else Some (projl (claim_serve mode ?c))) calls"
    "c = ?c\<lparr>handler_slot := last (h # map snd (filter (\<lambda>(mode, h). mode = first) calls))\<rparr>"
    using assms serve_calls_serving [of ?c first calls] by auto
  have "reflect_get (projl (claim_serve mode ?c)) ''code'' = Inr (JString ''ServeModeConflict'')" if "mode \<noteq> first" for mode
    using that by (simp add: claim_serve_def validation_def)
  then show ?thesis
    unfolding run by (auto simp: list_all2_map2 list_all2_same)
qed

theorem serve_modes_exclusive_witness:
  "serve_loops (snd (serve_calls [(Streaming, 1), (Unary, 2), (Streaming, 3)] (assemble (0 :: nat)))) = [Streaming] \<and>
   handler_slot (snd (serve_calls [(Streaming, 1), (Unary, 2), (Streaming, 3)] (assemble (0 :: nat)))) = 3"
  using serve_modes_exclusive [of Streaming 1 "[(Unary, 2), (Streaming, 3)]" 0
      "fst (serve_calls [(Streaming, 1), (Unary, 2), (Streaming, 3)] (assemble (0 :: nat)))"
      "snd (serve_calls [(Streaming, 1), (Unary, 2), (Streaming, 3)] (assemble (0 :: nat)))"]
  by simp

section \<open>GoAway reasons\<close>

datatype client_goaway =
  Shutdown | ProtocolError | EnhanceYourCalm | BudgetExhausted | SettlementFailed | Application u32

fun goaway_label :: "client_goaway \<Rightarrow> string" where
  "goaway_label Shutdown = ''Shutdown''"
| "goaway_label ProtocolError = ''ProtocolError''"
| "goaway_label EnhanceYourCalm = ''EnhanceYourCalm''"
| "goaway_label BudgetExhausted = ''BudgetExhausted''"
| "goaway_label SettlementFailed = ''SettlementFailed''"
| "goaway_label (Application _) = ''Application''"

text \<open>\<^verbatim>\<open>!(0.0..=f64::from(u32::MAX)).contains(&code)\<close>, and the cast to \<^verbatim>\<open>u32\<close>.\<close>

fun outside_u32 :: "js_number \<Rightarrow> bool" where
  "outside_u32 (Finite x) = (x < 0 \<or> x > 4294967295)"
| "outside_u32 _ = True"

fun f64_as_u32 :: "js_number \<Rightarrow> u32" where
  "f64_as_u32 (Finite x) = (if x \<ge> 2 ^ 32 then - 1 else if x < 0 then 0 else word_of_int \<lfloor>x\<rfloor>)"
| "f64_as_u32 Infinity = - 1"
| "f64_as_u32 _ = 0"

definition reason_from_js :: "(u32 \<Rightarrow> client_goaway) \<Rightarrow> js_value \<Rightarrow> js_value + client_goaway" where
  "reason_from_js reason_of_code v =
     (case as_f64 v of
        Some code \<Rightarrow>
          if not_whole code \<or> outside_u32 code
          then Inl (JString ''a numeric GoAway reason must be a u32 code'')
          else Inr (reason_of_code (f64_as_u32 code))
      | None \<Rightarrow>
          ok_or (JString (concat
              [''a GoAway reason is '', QUOTE, ''Shutdown'', QUOTE, '', '', QUOTE, ''ProtocolError'', QUOTE, '', '',
               QUOTE, ''EnhanceYourCalm'', QUOTE, '', '', QUOTE, ''BudgetExhausted'', QUOTE, '', '',
               QUOTE, ''SettlementFailed'', QUOTE, '', or a numeric code'']))
            (Option.bind (string_value v) (map_of
              [(''Shutdown'', Shutdown), (''ProtocolError'', ProtocolError), (''EnhanceYourCalm'', EnhanceYourCalm),
               (''BudgetExhausted'', BudgetExhausted), (''SettlementFailed'', SettlementFailed)])))"

text \<open>The two getters of a client whose peer sent \<open>reason\<close>.\<close>

definition goaway_reason_getter :: "client_goaway option \<Rightarrow> string option" where
  "goaway_reason_getter reason = map_option goaway_label reason"

definition goaway_code_getter :: "(client_goaway \<Rightarrow> u32) \<Rightarrow> client_goaway option \<Rightarrow> u32 option" where
  "goaway_code_getter code_of reason = map_option code_of reason"

section \<open>Opening a session\<close>

definition abort_reason :: "(js_value \<times> bool) option \<Rightarrow> js_value option" where
  "abort_reason signal =
     (case signal of Some (reason, True) \<Rightarrow> Some reason | _ \<Rightarrow> None)"

text \<open>
  \<^verbatim>\<open>establish\<close> and \<^verbatim>\<open>await_open\<close> around the future they race: the outcome, and whether they closed the
  socket, which they do exactly when the signal reads as aborted once the race is over.
\<close>

definition establish ::
  "(js_value \<times> bool) option \<Rightarrow> 'a poll list \<Rightarrow> ((js_value + 'a) \<times> bool) option" where
  "establish signal polls =
     (case signal of
        None \<Rightarrow> map_option (\<lambda>outcome. (outcome, False)) (run_future polls)
      | Some (reason, at_start) \<Rightarrow>
          race_abort reason at_start polls)"

definition await_open ::
  "(js_value \<times> bool) option \<Rightarrow> unit poll list \<Rightarrow> ((js_value + unit) \<times> bool) option" where
  "await_open signal polls =
     (case signal of
        None \<Rightarrow> map_option (\<lambda>outcome. (outcome, False)) (run_future polls)
      | Some (reason, at_start) \<Rightarrow>
          race_abort reason at_start polls)"

text \<open>\<^verbatim>\<open>negotiate\<close>, given what the handshake, the settings and the split answer.\<close>

definition NOT_NEGOTIATED :: js_value where
  "NOT_NEGOTIATED = JString ''the server did not negotiate multiplexing''"

definition split_mux ::
  "'n option \<Rightarrow> (transport_fault + 'm) \<Rightarrow> js_value + 'm" where
  "split_mux negotiated into_mux =
     (if negotiated = None then Inl NOT_NEGOTIATED else map_err transport_to_js into_mux)"

definition negotiate ::
  "(transport_offer \<Rightarrow> js_value option \<Rightarrow> transport_fault + 'n option) \<Rightarrow> ('n \<Rightarrow> u64 option) \<Rightarrow>
   (transport_fault + 'm) \<Rightarrow> u32 \<Rightarrow> session_offer \<Rightarrow> js_value + 'm \<times> u64 option" where
  "negotiate handshake usable_budget into_mux max_peer_streams session =
     (let (offer, approver) = into_offer max_peer_streams session
      in and_then (map_err transport_to_js (handshake offer approver)) (\<lambda>negotiated.
         and_then (ok_or NOT_NEGOTIATED negotiated) (\<lambda>settings.
         and_then (split_mux negotiated into_mux) (\<lambda>m. Inr (m, usable_budget settings)))))"

text \<open>
  A signal aborts the opening of a session: an already aborted signal rejects at once with its
  reason; an abort the race sees before the handshake is done rejects with the reason and closes
  the socket. A handshake that completed without an abort leaves the socket alone.
\<close>

lemma abort_rejects_opening:
  assumes "polls_of_signal at_start polls" and "establish (Some (reason, at_start)) polls = Some (outcome, shut)"
  shows "(at_start \<longrightarrow> outcome = Inl reason \<and> shut) \<and>
    (\<not> at_start \<longrightarrow> (\<exists>before p after. polls = before @ p # after \<and>
        list_all (\<lambda>q. ready q = None \<and> \<not> abort_seen q) before \<and> shut = aborted p \<and>
        (ready p = None \<longrightarrow> outcome = Inl reason \<and> shut) \<and> (ready p \<noteq> None \<longrightarrow> ready p = Some outcome)))"
proof (cases at_start)
  case True
  with assms(2) show ?thesis by (simp add: establish_def race_abort_def)
next
  case False
  with assms(2) have "select_abort reason polls = Some (outcome, shut)"
    by (auto simp: establish_def race_abort_def)
  then obtain before p after where ended: "polls = before @ p # after"
    "list_all (\<lambda>q. ready q = None \<and> \<not> abort_seen q) before" "aborted p = shut"
    "ready p = Some outcome \<or> ready p = None \<and> abort_seen p \<and> outcome = Inl reason"
    unfolding select_abort_Some by blast
  moreover have "abort_seen p \<longrightarrow> aborted p" using assms(1) by (simp add: polls_of_signal_def ended(1))
  ultimately have "shut = aborted p \<and> (ready p = None \<longrightarrow> outcome = Inl reason \<and> shut) \<and>
      (ready p \<noteq> None \<longrightarrow> ready p = Some outcome)" by auto
  with ended(1,2) have "\<exists>before p after. polls = before @ p # after \<and>
        list_all (\<lambda>q. ready q = None \<and> \<not> abort_seen q) before \<and> shut = aborted p \<and>
        (ready p = None \<longrightarrow> outcome = Inl reason \<and> shut) \<and> (ready p \<noteq> None \<longrightarrow> ready p = Some outcome)"
    by (rule_tac exI [of _ before], rule_tac exI [of _ p], rule_tac exI [of _ after]) auto
  with False show ?thesis by simp
qed

text \<open>
  C30. The race is polled future first, and the socket is closed on the signal's flag: the promise
  resolves with a client whose socket the abort path has just closed, instead of rejecting with the
  abort reason, exactly when the abort lands in the very poll in which the handshake completes, with
  no abort seen before it; and a signal that is not aborted at the start can behave so.
\<close>

theorem abort_can_resolve_a_closed_client:
  "(establish (Some (reason, False)) polls = Some (Inr client, True) \<longleftrightarrow>
     (\<exists>before p after. polls = before @ p # after \<and> list_all (\<lambda>q. ready q = None \<and> \<not> abort_seen q) before \<and>
        ready p = Some (Inr client) \<and> aborted p)) \<and>
   (\<exists>ps. polls_of_signal False ps \<and> establish (Some (reason, False)) ps = Some (Inr client, True))"
proof
  show "establish (Some (reason, False)) polls = Some (Inr client, True) \<longleftrightarrow>
     (\<exists>before p after. polls = before @ p # after \<and> list_all (\<lambda>q. ready q = None \<and> \<not> abort_seen q) before \<and>
        ready p = Some (Inr client) \<and> aborted p)"
    by (auto simp: establish_def race_abort_def select_abort_Some)
  let ?late = "\<lparr>ready = Some (Inr client), abort_seen = True, aborted = True\<rparr>"
  have "polls_of_signal False [?late]" "establish (Some (reason, False)) [?late] = Some (Inr client, True)"
    by (simp_all add: polls_of_signal_def establish_def race_abort_def)
  then show "\<exists>ps. polls_of_signal False ps \<and> establish (Some (reason, False)) ps = Some (Inr client, True)" by blast
qed

section \<open>Requests and work\<close>

definition response_der ::
  "('e, 's, 'd) wire_api \<Rightarrow> error_texts \<Rightarrow> ('e, 's) frame option \<Rightarrow> js_value + bytes option" where
  "response_der api texts response =
     (case response of
        Some frame \<Rightarrow>
          and_then (map_err (\<lambda>e. fault_to_js (wire_display texts e)) (frame_to_der api frame)) (\<lambda>der. Inr (Some der))
      | None \<Rightarrow> Inr None)"

text \<open>\<open>emit\<close>: the mux handle's \<^verbatim>\<open>emit_on_stream\<close>, awaited.\<close>

type_synonym ('e, 's) emitter = "('e, 's) frame \<Rightarrow> (transport_fault + ('e, 's) frame option) option"

definition run_stream_emit ::
  "('e, 's, 'd) wire_api \<Rightarrow> error_texts \<Rightarrow> ('e, 's) emitter \<Rightarrow> bytes \<Rightarrow> (js_value + js_value) option" where
  "run_stream_emit api texts emit frame_der =
     (case map_err (\<lambda>e. fault_to_js (wire_display texts e)) (frame_from_der api frame_der) of
        Inl e \<Rightarrow> Some (Inl e)
      | Inr frame \<Rightarrow>
          map_option (\<lambda>answer.
            and_then (map_err transport_to_js answer) (\<lambda>response.
            and_then (response_der api texts response) (\<lambda>der. Inr (bytes_or_undefined der)))) (emit frame))"

definition parse_stream_target :: "error_texts \<Rightarrow> (string \<Rightarrow> 'u option) \<Rightarrow> string \<Rightarrow> js_value + 'u" where
  "parse_stream_target texts urn_from_str target =
     ok_or (validation ''InvalidStreamRoute''
       (''stream target must be a URN (urn:<nid>:<nss>): '' @ urn_display texts target)) (urn_from_str target)"

text \<open>The URN type as the client uses it, and the decoder of a reply's status.\<close>

record 'u urn_api =
  urn_from_str :: "string \<Rightarrow> 'u option"
  urn_to_der :: "'u \<Rightarrow> wire_error + bytes"
  urn_nid :: "'u \<Rightarrow> string"
  urn_nss :: "'u \<Rightarrow> string"

definition run_submit_work ::
  "('e, 's, 'd) wire_api \<Rightarrow> error_texts \<Rightarrow> 'u urn_api \<Rightarrow> (der_any \<Rightarrow> wire_error + transit_status) \<Rightarrow>
   ('e, 's) emitter \<Rightarrow> string \<Rightarrow> bytes \<Rightarrow> (js_value + js_value) option" where
  "run_submit_work api texts urns status_of emit target work_frame_der =
     (case
        and_then (parse_stream_target texts (urn_from_str urns) target) (\<lambda>servlet_type.
        and_then (map_err (\<lambda>e. fault_to_js (wire_display texts e)) (frame_from_der api work_frame_der)) (\<lambda>work.
        map_err (\<lambda>e. work_error_to_js texts (WorkFrame e))
          (into_transport_frame api (urn_to_der urns) (from_encoded servlet_type work_frame_der work)))) of
        Inl e \<Rightarrow> Some (Inl e)
      | Inr transport \<Rightarrow>
          map_option (\<lambda>answer.
            and_then (map_err transport_to_js answer) (\<lambda>reply.
            and_then (ok_or (work_error_to_js texts MissingResponse) reply) (\<lambda>reply.
            and_then (map_err (work_error_to_js texts)
                (and_then (map_err WorkFrame (reply_from_frame api status_of reply)) (served_der api)))
              (\<lambda>served. Inr (JUint8Array served))))) (emit transport))"

text \<open>
  C31. A submitted work frame that reaches the gateway settles as the gateway's reply says: with the
  servlet's own octets when the status is Ok and the payload is a frame; and when the reply is a
  refusal, with an error whose \<^verbatim>\<open>code\<close> is \<^verbatim>\<open>WorkRefused\<close> and whose \<^verbatim>\<open>status\<close> names the gateway's status.
\<close>

theorem submit_work_settles:
  assumes "urn_from_str urns target = Some servlet" and "frame_from_der api der = Inr work"
    and "into_transport_frame api (urn_to_der urns) (from_encoded servlet der work) = Inr transport"
    and "emit transport = Some (Inr (Some reply))" and "reply_from_frame api status_of reply = Inr r"
    and "work_debug texts (WorkRefused (reply_status r)) = ''WorkRefused('' @ status_debug texts (reply_status r) @ '')''"
  shows "(run_submit_work api texts urns status_of emit target der = Some (Inr (JUint8Array b)) \<longleftrightarrow>
      reply_status r = TransitOk \<and> reply_payload r = Some b \<and> (\<exists>f. frame_from_der api b = Inr f)) \<and>
    (reply_status r \<noteq> TransitOk \<longrightarrow>
      (\<exists>e. run_submit_work api texts urns status_of emit target der = Some (Inl e) \<and>
         reflect_get e ''code'' = Inr (JString ''WorkRefused'') \<and>
         reflect_get e ''status'' = Inr (JString (status_debug texts (reply_status r)))))"
proof -
  have run: "run_submit_work api texts urns status_of emit target der =
      Some (and_then (map_err (work_error_to_js texts) (served_der api r)) (\<lambda>served. Inr (JUint8Array served)))"
    using assms by (simp add: run_submit_work_def parse_stream_target_def ok_or_def)
  have "variant_name (''WorkRefused'' @ CHR ''('' # status_debug texts (reply_status r) @ '')'') = ''WorkRefused''"
    by (rule variant_name_payload) (simp_all add: white_space_def)
  then have code: "variant_name (work_debug texts (WorkRefused (reply_status r))) = ''WorkRefused''"
    using assms(6) by simp
  have served: "served_der api r = Inr b \<longleftrightarrow>
      reply_status r = TransitOk \<and> reply_payload r = Some b \<and> (\<exists>f. frame_from_der api b = Inr f)"
    by (auto simp: served_der_def refusal_checked_def result_simps)
  moreover have "served_der api r = Inl (WorkRefused (reply_status r))" if "reply_status r \<noteq> TransitOk"
    using that by (simp add: served_der_def refusal_checked_def)
  ultimately show ?thesis
    unfolding run by (auto simp: result_simps code work_error_fields)
qed

definition example_texts :: error_texts where
  "example_texts =
     \<lparr>status_debug = (\<lambda>st. ''Unavailable''),
      work_debug = (\<lambda>e. case e of WorkRefused st \<Rightarrow> ''WorkRefused(Unavailable)'' | _ \<Rightarrow> ''MissingResponse''),
      work_display = (\<lambda>e. []), wire_debug = (\<lambda>e. []), wire_display = (\<lambda>e. []), urn_display = (\<lambda>e. [])\<rparr>"

definition example_urns :: "bytes urn_api" where
  "example_urns = \<lparr>urn_from_str = (\<lambda>t. Some (as_bytes t)), urn_to_der = example_urn_to_der, urn_nid = (\<lambda>_. []), urn_nss = (\<lambda>_. [])\<rparr>"

definition example_status_of :: "der_any \<Rightarrow> wire_error + transit_status" where
  "example_status_of c = (if any_value c = [0] then Inr TransitOk else Inr Unavailable)"

definition example_reply :: "(bytes, bytes) frame" where
  "example_reply = plain_frame ([48, 23, 10, 1, 0, 4, 18] @ example_der_frame) None"

theorem submit_work_settles_witness:
  "run_submit_work example_api example_texts example_urns example_status_of (\<lambda>_. Some (Inr (Some example_reply)))
     ''P'' example_der_frame = Some (Inr (JUint8Array example_der_frame))"
proof -
  let ?work = "plain_frame [1, 2, 3] None" and ?r = "\<lparr>reply_status = TransitOk, reply_payload = Some example_der_frame\<rparr>"
  have urn: "urn_from_str example_urns ''P'' = Some [80]" by code_simp
  have work: "frame_from_der example_api example_der_frame = Inr ?work" by code_simp
  have transport: "into_transport_frame example_api (urn_to_der example_urns) (from_encoded [80] example_der_frame ?work) =
      Inr (plain_frame ([162, 25, 48, 23, 12, 1, 80, 4, 18] @ example_der_frame) None)" by code_simp
  have reply: "reply_from_frame example_api example_status_of example_reply = Inr ?r" by code_simp
  have named: "work_debug example_texts (WorkRefused (reply_status ?r)) =
      ''WorkRefused('' @ status_debug example_texts (reply_status ?r) @ '')''" by (simp add: example_texts_def)
  show ?thesis
    using submit_work_settles [OF urn work transport refl reply named, of example_der_frame] work by simp
qed

end
