(* ===== verification/Ws_Handles.thy ===== *)
theory Ws_Handles
  imports Ws_Mux
begin

text \<open>
  Progressive bodies over one stream (\<^verbatim>\<open>ws/tightbeam-ws-wasm/src/streaming.rs\<close>). A method takes the
  upstream half out of its slot when its promise first runs, awaits the upstream call, and puts the
  half back unless the call consumed it. The steps of different promises interleave freely; the
  locale \<open>slot_handle\<close> proves once what the slot guarantees, and every handle is an instance.
\<close>

section \<open>Slots\<close>

definition stream_closed :: js_value where
  "stream_closed = validation ''StreamClosed'' ''the streaming handle is closed''"

text \<open>The slot, the call that holds its contents, and the upstream calls that have returned.\<close>

record 'c slot =
  present :: bool
  running :: "'c option"
  returned :: "'c list"

definition slot_new :: "'c slot" where
  "slot_new = \<lparr>present = True, running = None, returned = []\<rparr>"

definition slot_take :: "'c \<Rightarrow> 'c slot \<Rightarrow> js_value + 'c slot" where
  "slot_take c s = (if present s then Inr (s\<lparr>present := False, running := Some c\<rparr>) else Inl stream_closed)"

definition slot_settle :: "('c \<Rightarrow> bool) \<Rightarrow> 'c slot \<Rightarrow> 'c slot" where
  "slot_settle consumes s =
     (case running s of
        Some c \<Rightarrow> s\<lparr>present := \<not> consumes c, running := None, returned := returned s @ [c]\<rparr>
      | None \<Rightarrow> s)"

datatype 'c slot_event = Began 'c | Refused 'c js_value | Settled 'c

inductive slot_run :: "('c \<Rightarrow> bool) \<Rightarrow> 'c slot_event list \<Rightarrow> 'c slot \<Rightarrow> bool" for consumes where
  slot_start: "slot_run consumes [] slot_new"
| slot_began: "slot_run consumes tr s \<Longrightarrow> slot_take c s = Inr s' \<Longrightarrow> slot_run consumes (tr @ [Began c]) s'"
| slot_refused: "slot_run consumes tr s \<Longrightarrow> slot_take c s = Inl e \<Longrightarrow> slot_run consumes (tr @ [Refused c e]) s"
| slot_settled: "slot_run consumes tr s \<Longrightarrow> running s = Some c \<Longrightarrow> slot_run consumes (tr @ [Settled c]) (slot_settle consumes s)"

definition begun :: "'c slot_event list \<Rightarrow> 'c list" where
  "begun tr = concat (map (\<lambda>e. case e of Began c \<Rightarrow> [c] | _ \<Rightarrow> []) tr)"

definition settled_calls :: "'c slot_event list \<Rightarrow> 'c list" where
  "settled_calls tr = concat (map (\<lambda>e. case e of Settled c \<Rightarrow> [c] | _ \<Rightarrow> []) tr)"

lemma begun_simps [simp]:
  "begun [] = []" "begun (tr @ [Began c]) = begun tr @ [c]" "begun (tr @ [Refused c e]) = begun tr"
  "begun (tr @ [Settled c]) = begun tr"
  by (simp_all add: begun_def)

lemma settled_simps [simp]:
  "settled_calls [] = []" "settled_calls (tr @ [Began c]) = settled_calls tr" "settled_calls (tr @ [Refused c e]) = settled_calls tr"
  "settled_calls (tr @ [Settled c]) = settled_calls tr @ [c]"
  by (simp_all add: settled_calls_def)

locale slot_handle =
  fixes consumes :: "'c \<Rightarrow> bool" and acquire :: "'c \<Rightarrow> 's \<Rightarrow> js_value + 's" and release :: "'s \<Rightarrow> 's"
    and view :: "'s \<Rightarrow> 'c slot"
  assumes acquire_view: "map_sum (\<lambda>e. e) view (acquire c s) = slot_take c (view s)"
    and release_view: "running (view s) = Some c \<Longrightarrow> view (release s) = slot_settle consumes (view s)"
begin

lemma run_invariant:
  assumes "slot_run consumes tr s"
  shows "begun tr = settled_calls tr @ (case running s of None \<Rightarrow> [] | Some c \<Rightarrow> [c]) \<and>
    returned s = settled_calls tr \<and>
    (present s \<longleftrightarrow> running s = None \<and> (\<forall>c \<in> set (settled_calls tr). \<not> consumes c)) \<and>
    (\<forall>c \<in> set (butlast (begun tr)). \<not> consumes c) \<and>
    (\<forall>c e. Refused c e \<in> set tr \<longrightarrow> e = stream_closed)"
  using assms
proof induction
  case slot_start
  then show ?case by (simp add: slot_new_def)
next
  case (slot_began tr s c s')
  then show ?case by (auto simp: slot_take_def split: if_splits)
next
  case (slot_refused tr s c e)
  then show ?case by (auto simp: slot_take_def split: if_splits)
next
  case (slot_settled tr s c)
  then show ?case by (auto simp: slot_settle_def)
qed

lemma acquire_refused: "acquire c s = Inl e \<longleftrightarrow> \<not> present (view s) \<and> e = stream_closed"
  using acquire_view [of c s] by (cases "acquire c s") (auto simp: slot_take_def split: if_splits)

lemma acquire_view_Inr: "acquire c s = Inr s' \<Longrightarrow> slot_take c (view s) = Inr (view s')"
  using acquire_view [of c s] by simp

lemma acquire_view_Inl: "acquire c s = Inl e \<Longrightarrow> slot_take c (view s) = Inl e"
  using acquire_view [of c s] by simp

end

section \<open>Request streams\<close>

datatype body_call = Push bytes | Close | CloseWith bytes

fun is_close :: "body_call \<Rightarrow> bool" where
  "is_close (Push _) = False"
| "is_close Close = True"
| "is_close (CloseWith _) = True"

record request_inner =
  request_sink :: "body_call slot"
  response_slot :: bool

definition request_from_parts :: request_inner where
  "request_from_parts = \<lparr>request_sink = slot_new, response_slot = True\<rparr>"

text \<open>
  \<^verbatim>\<open>push\<close>, \<^verbatim>\<open>close\<close> and \<^verbatim>\<open>closeWith\<close> up to their first await, and what they do with the upstream
  outcome. A result of \<open>None\<close>: the promise goes on to await the response.
\<close>

definition request_call :: "body_call \<Rightarrow> request_inner \<Rightarrow> js_value + request_inner" where
  "request_call c r = and_then (slot_take c (request_sink r)) (\<lambda>s. Inr (r\<lparr>request_sink := s\<rparr>))"

definition resolve_response :: "request_inner \<Rightarrow> (js_value + js_value) option \<times> request_inner" where
  "resolve_response r =
     (if response_slot r then (None, r\<lparr>response_slot := False\<rparr>) else (Some (Inl stream_closed), r))"

definition release_request :: "request_inner \<Rightarrow> request_inner" where
  "release_request r = r\<lparr>request_sink := slot_settle is_close (request_sink r)\<rparr>"

definition request_settle ::
  "body_call \<Rightarrow> transport_fault + unit \<Rightarrow> request_inner \<Rightarrow> (js_value + js_value) option \<times> request_inner" where
  "request_settle c outcome r =
     (let r = release_request r
      in case map_err transport_to_js outcome of
           Inl e \<Rightarrow> (Some (Inl e), r)
         | Inr _ \<Rightarrow> if is_close c then resolve_response r else (Some (Inr JUndefined), r))"

definition response_settle ::
  "('e, 's, 'd) wire_api \<Rightarrow> error_texts \<Rightarrow> transport_fault + ('e, 's) frame option \<Rightarrow> js_value + js_value" where
  "response_settle api texts answer =
     and_then (map_err transport_to_js answer) (\<lambda>frame.
     and_then (response_der api texts frame) (\<lambda>der. Inr (bytes_or_undefined der)))"

section \<open>Duplex streams, bodies and reply sinks\<close>

datatype chunk_call = NextChunk

definition next_chunk_result :: "transport_fault + bytes option \<Rightarrow> js_value + js_value" where
  "next_chunk_result outcome =
     and_then (map_err transport_to_js outcome) (\<lambda>chunk.
       Inr (case chunk of Some b \<Rightarrow> JUint8Array b | None \<Rightarrow> JUndefined))"

definition call_result :: "transport_fault + unit \<Rightarrow> js_value + js_value" where
  "call_result outcome = and_then (map_err transport_to_js outcome) (\<lambda>_. Inr JUndefined)"

record duplex_inner =
  duplex_sink :: "body_call slot"
  duplex_body :: "chunk_call slot"

definition duplex_from_parts :: duplex_inner where
  "duplex_from_parts = \<lparr>duplex_sink = slot_new, duplex_body = slot_new\<rparr>"

definition duplex_call :: "body_call \<Rightarrow> duplex_inner \<Rightarrow> js_value + duplex_inner" where
  "duplex_call c d = and_then (slot_take c (duplex_sink d)) (\<lambda>s. Inr (d\<lparr>duplex_sink := s\<rparr>))"

definition duplex_settle :: "duplex_inner \<Rightarrow> duplex_inner" where
  "duplex_settle d = d\<lparr>duplex_sink := slot_settle is_close (duplex_sink d)\<rparr>"

definition duplex_next_chunk :: "chunk_call \<Rightarrow> duplex_inner \<Rightarrow> js_value + duplex_inner" where
  "duplex_next_chunk c d = and_then (slot_take c (duplex_body d)) (\<lambda>s. Inr (d\<lparr>duplex_body := s\<rparr>))"

definition duplex_chunk_settle :: "duplex_inner \<Rightarrow> duplex_inner" where
  "duplex_chunk_settle d = d\<lparr>duplex_body := slot_settle (\<lambda>_. False) (duplex_body d)\<rparr>"

record body_inner =
  body_slot :: "chunk_call slot"

definition body_wrap :: body_inner where "body_wrap = \<lparr>body_slot = slot_new\<rparr>"

definition body_next_chunk :: "chunk_call \<Rightarrow> body_inner \<Rightarrow> js_value + body_inner" where
  "body_next_chunk c b = and_then (slot_take c (body_slot b)) (\<lambda>s. Inr (b\<lparr>body_slot := s\<rparr>))"

definition body_settle :: "body_inner \<Rightarrow> body_inner" where
  "body_settle b = b\<lparr>body_slot := slot_settle (\<lambda>_. False) (body_slot b)\<rparr>"

record reply_inner =
  reply_slot :: "bytes slot"

definition reply_wrap :: reply_inner where "reply_wrap = \<lparr>reply_slot = slot_new\<rparr>"

definition reply_push :: "bytes \<Rightarrow> reply_inner \<Rightarrow> js_value + reply_inner" where
  "reply_push chunk r = and_then (slot_take chunk (reply_slot r)) (\<lambda>s. Inr (r\<lparr>reply_slot := s\<rparr>))"

definition reply_settle :: "reply_inner \<Rightarrow> reply_inner" where
  "reply_settle r = r\<lparr>reply_slot := slot_settle (\<lambda>_. False) (reply_slot r)\<rparr>"

lemma slot_take_update:
  "map_sum (\<lambda>e. e) get (and_then (slot_take c s) (\<lambda>t. Inr (put t))) =
     (if present s then Inr (get (put (s\<lparr>present := False, running := Some c\<rparr>))) else Inl stream_closed)"
  by (simp add: slot_take_def)

lemmas handle_simps = slot_take_update slot_take_def request_call_def duplex_call_def duplex_next_chunk_def body_next_chunk_def
  reply_push_def release_request_def duplex_settle_def duplex_chunk_settle_def body_settle_def reply_settle_def

interpretation request: slot_handle is_close request_call release_request request_sink
  by unfold_locales (simp_all add: handle_simps)

interpretation duplex_out: slot_handle is_close duplex_call duplex_settle duplex_sink
  by unfold_locales (simp_all add: handle_simps)

interpretation duplex_in: slot_handle "\<lambda>_. False" duplex_next_chunk duplex_chunk_settle duplex_body
  by unfold_locales (simp_all add: handle_simps)

interpretation stream_body: slot_handle "\<lambda>_. False" body_next_chunk body_settle body_slot
  by unfold_locales (simp_all add: handle_simps)

interpretation reply_sink: slot_handle "\<lambda>_. False" reply_push reply_settle reply_slot
  by unfold_locales (simp_all add: handle_simps)

text \<open>Runs of a request stream: promises begin, are refused, and settle with any upstream outcome.\<close>

inductive request_run :: "body_call slot_event list \<Rightarrow> request_inner \<Rightarrow> bool" where
  request_start: "request_run [] request_from_parts"
| request_began: "request_run tr r \<Longrightarrow> request_call c r = Inr r' \<Longrightarrow> request_run (tr @ [Began c]) r'"
| request_refused: "request_run tr r \<Longrightarrow> request_call c r = Inl e \<Longrightarrow> request_run (tr @ [Refused c e]) r"
| request_settled: "request_run tr r \<Longrightarrow> running (request_sink r) = Some c \<Longrightarrow>
    request_settle c outcome r = (result, r') \<Longrightarrow> request_run (tr @ [Settled c]) r'"

lemma request_run_slot:
  assumes "request_run tr r"
  shows "slot_run is_close tr (request_sink r) \<and> (present (request_sink r) \<or> running (request_sink r) \<noteq> None \<longrightarrow> response_slot r)"
  using assms
proof induction
  case request_start
  then show ?case by (simp add: request_from_parts_def slot_start)
next
  case (request_began tr r c r')
  moreover from request_began.hyps(2) have "response_slot r' = response_slot r" "present (request_sink r)"
    by (auto simp: request_call_def slot_take_def split: if_splits)
  ultimately show ?case by (auto intro: slot_began dest: request.acquire_view_Inr)
next
  case (request_refused tr r c e)
  then show ?case by (auto intro: slot_refused dest: request.acquire_view_Inl)
next
  case (request_settled tr r c outcome result r')
  then have "request_sink r' = slot_settle is_close (request_sink r)"
    and "\<not> is_close c \<longrightarrow> response_slot r' = response_slot r"
    by (auto simp: request_settle_def release_request_def resolve_response_def Let_def split: sum.splits if_splits)
  moreover have "slot_run is_close (tr @ [Settled c]) (slot_settle is_close (request_sink r))"
    using request_settled by (intro slot_run.slot_settled) simp_all
  ultimately show ?case using request_settled by (auto simp: slot_settle_def)
qed

text \<open>
  C32. A request body is a single orderly sequence of upstream calls, however the promises
  interleave: calls reach the sink one at a time in the order they began, nothing begins after a
  close, a call that finds the slot taken or spent is rejected with \<^verbatim>\<open>StreamClosed\<close>, and a close the
  upstream accepts always finds the response to await.
\<close>

theorem request_calls_never_overlap:
  assumes "request_run tr r"
  shows "begun tr = settled_calls tr @ (case running (request_sink r) of None \<Rightarrow> [] | Some c \<Rightarrow> [c]) \<and>
    (\<forall>c \<in> set (butlast (begun tr)). \<not> is_close c) \<and>
    (\<forall>c e. Refused c e \<in> set tr \<longrightarrow> e = stream_closed) \<and>
    (request_call c r = Inl stream_closed \<longleftrightarrow> running (request_sink r) \<noteq> None \<or> (\<exists>c \<in> set (settled_calls tr). is_close c)) \<and>
    (running (request_sink r) = Some c \<and> is_close c \<longrightarrow> fst (request_settle c (Inr ()) r) = None)"
proof -
  note slot = request_run_slot [OF assms]
  from slot have inv: "begun tr = settled_calls tr @ (case running (request_sink r) of None \<Rightarrow> [] | Some c \<Rightarrow> [c])"
    "present (request_sink r) \<longleftrightarrow> running (request_sink r) = None \<and> (\<forall>c \<in> set (settled_calls tr). \<not> is_close c)"
    "\<forall>c \<in> set (butlast (begun tr)). \<not> is_close c" "\<forall>c e. Refused c e \<in> set tr \<longrightarrow> e = stream_closed"
    using request.run_invariant by blast+
  have "request_call c r = Inl stream_closed \<longleftrightarrow> \<not> present (request_sink r)"
    using request.acquire_refused by blast
  moreover have "fst (request_settle c (Inr ()) r) = None" if "running (request_sink r) = Some c" "is_close c"
    using that slot by (simp add: request_settle_def release_request_def resolve_response_def Let_def)
  ultimately show ?thesis using inv(2-4) by (intro conjI inv(1)) auto
qed

theorem request_calls_never_overlap_witness:
  "\<exists>r. request_run [Began (Push [1]), Refused Close stream_closed, Settled (Push [1]), Began Close] r \<and>
     fst (request_settle Close (Inr ()) r) = None"
proof -
  let ?r1 = "request_from_parts\<lparr>request_sink := \<lparr>present = False, running = Some (Push [1]), returned = []\<rparr>\<rparr>"
  let ?r2 = "request_from_parts\<lparr>request_sink := \<lparr>present = True, running = None, returned = [Push [1]]\<rparr>\<rparr>"
  let ?r3 = "request_from_parts\<lparr>request_sink := \<lparr>present = False, running = Some Close, returned = [Push [1]]\<rparr>\<rparr>"
  have "request_run [] request_from_parts" by (rule request_start)
  then have "request_run ([] @ [Began (Push [1])]) ?r1"
    by (rule request_began) (simp add: handle_simps request_from_parts_def slot_new_def)
  then have "request_run (([] @ [Began (Push [1])]) @ [Refused Close stream_closed]) ?r1"
    by (rule request_refused) (simp add: handle_simps)
  then have "request_run ((([] @ [Began (Push [1])]) @ [Refused Close stream_closed]) @ [Settled (Push [1])]) ?r2"
    by (rule request_settled [where outcome = "Inr ()" and result = "Some (Inr JUndefined)"])
       (simp_all add: request_settle_def release_request_def slot_settle_def)
  then have run: "request_run (((([] @ [Began (Push [1])]) @ [Refused Close stream_closed]) @ [Settled (Push [1])]) @ [Began Close]) ?r3"
    by (rule request_began) (simp add: handle_simps)
  with request_calls_never_overlap [OF run, of Close] show ?thesis by auto
qed

section \<open>Routes and handlers\<close>

record 'u stream_route =
  route_target :: "'u option"
  hops_remaining :: u8

definition urn_target_string :: "'u urn_api \<Rightarrow> 'u \<Rightarrow> string" where
  "urn_target_string urns urn = ''urn:'' @ urn_nid urns urn @ '':'' @ urn_nss urns urn"

definition route_to_js :: "'u urn_api \<Rightarrow> 'u stream_route \<Rightarrow> js_value" where
  "route_to_js urns route =
     (let obj = JObject [];
          obj = (case route_target route of
                   Some target \<Rightarrow> set_property obj ''target'' (JString (urn_target_string urns target))
                 | None \<Rightarrow> obj)
      in set_property obj ''hopsRemaining'' (JNumber (number_of_unsigned (hops_remaining route))))"

definition refusal_status :: "js_value \<Rightarrow> transit_status" where
  "refusal_status rejection =
     (case rejection_code rejection of Some name \<Rightarrow> status_from_code name | None \<Rightarrow> Unknown)"

definition call_streaming_handler ::
  "('e, 's, 'd) wire_api \<Rightarrow> error_texts \<Rightarrow> js_host \<Rightarrow> ('b \<Rightarrow> js_value \<Rightarrow> js_call) \<Rightarrow> 'b \<Rightarrow> js_value \<Rightarrow>
   (js_value + ('e, 's) stream_response) option" where
  "call_streaming_handler api texts host handler body route =
     map_option (\<lambda>outcome.
       and_then outcome (\<lambda>v.
         if is_nullish v then Inr \<lparr>response_status = TransitOk, response_frame = None\<rparr>
         else
           and_then (map_err (\<lambda>e. debug_coded (wire_debug texts e) (wire_display texts e)) (frame_from_der api (uint8_cast host v)))
             (\<lambda>response. Inr \<lparr>response_status = TransitOk, response_frame = Some response\<rparr>)))
       (settled (handler body route))"

definition respond_streaming_via_js ::
  "('e, 's, 'd) wire_api \<Rightarrow> error_texts \<Rightarrow> js_host \<Rightarrow> 'u urn_api \<Rightarrow> (body_inner \<Rightarrow> js_value \<Rightarrow> js_call) \<Rightarrow>
   'u stream_route \<Rightarrow> ('e, 's) stream_response option" where
  "respond_streaming_via_js api texts host urns handler route =
     map_option (\<lambda>outcome. case outcome of
         Inr response \<Rightarrow> response
       | Inl _ \<Rightarrow> \<lparr>response_status = Unknown, response_frame = None\<rparr>)
       (call_streaming_handler api texts host handler body_wrap (route_to_js urns route))"

definition call_duplex_handler ::
  "('b \<Rightarrow> 'r \<Rightarrow> js_value \<Rightarrow> js_call) \<Rightarrow> 'b \<Rightarrow> 'r \<Rightarrow> js_value \<Rightarrow> (js_value + transit_status) option" where
  "call_duplex_handler handler body reply route =
     map_option (\<lambda>outcome.
       and_then outcome (\<lambda>v.
         if is_nullish v then Inr TransitOk
         else
           and_then (ok_or (validation ''InvalidDuplexStatus'' ''serveDuplex handler must resolve with a status name or undefined'')
               (string_value v)) (\<lambda>label.
             if label = ''Ok'' then Inr TransitOk else Inr (status_from_code label))))
       (settled (handler body reply route))"

definition respond_duplex_via_js ::
  "'u urn_api \<Rightarrow> (body_inner \<Rightarrow> reply_inner \<Rightarrow> js_value \<Rightarrow> js_call) \<Rightarrow> 'u stream_route \<Rightarrow> transit_status option" where
  "respond_duplex_via_js urns handler route =
     map_option (\<lambda>outcome. case outcome of Inr status \<Rightarrow> status | Inl rejection \<Rightarrow> refusal_status rejection)
       (call_duplex_handler handler body_wrap reply_wrap (route_to_js urns route))"

text \<open>
  The dispatches of the two serve loops: a stream runs on the handler that is installed when it is
  dispatched. \<open>None\<close> while the handler's promise is pending.
\<close>

definition js_streaming_dispatch ::
  "('e, 's, 'd) wire_api \<Rightarrow> error_texts \<Rightarrow> js_host \<Rightarrow> 'u urn_api \<Rightarrow> (body_inner \<Rightarrow> js_value \<Rightarrow> js_call) mux_client \<Rightarrow>
   'u stream_route \<Rightarrow> (transport_fault + ('e, 's) stream_response) option" where
  "js_streaming_dispatch api texts host urns client route =
     map_option Inr (respond_streaming_via_js api texts host urns (handler_slot client) route)"

definition js_duplex_dispatch ::
  "'u urn_api \<Rightarrow> (body_inner \<Rightarrow> reply_inner \<Rightarrow> js_value \<Rightarrow> js_call) mux_client \<Rightarrow> 'u stream_route \<Rightarrow>
   (transport_fault + transit_status) option" where
  "js_duplex_dispatch urns client route = map_option Inr (respond_duplex_via_js urns (handler_slot client) route)"

text \<open>The gRPC canonical names.\<close>

fun status_name :: "transit_status \<Rightarrow> string" where
  "status_name TransitOk = ''Ok''"
| "status_name Cancelled = ''Cancelled''"
| "status_name Unknown = ''Unknown''"
| "status_name InvalidArgument = ''InvalidArgument''"
| "status_name DeadlineExceeded = ''DeadlineExceeded''"
| "status_name NotFound = ''NotFound''"
| "status_name AlreadyExists = ''AlreadyExists''"
| "status_name PermissionDenied = ''PermissionDenied''"
| "status_name ResourceExhausted = ''ResourceExhausted''"
| "status_name FailedPrecondition = ''FailedPrecondition''"
| "status_name Aborted = ''Aborted''"
| "status_name OutOfRange = ''OutOfRange''"
| "status_name Unimplemented = ''Unimplemented''"
| "status_name Internal = ''Internal''"
| "status_name Unavailable = ''Unavailable''"
| "status_name DataLoss = ''DataLoss''"
| "status_name Unauthenticated = ''Unauthenticated''"

lemma status_from_name: "status_from_code (status_name st) = (if st = TransitOk then Unknown else st)"
  by (cases st) (simp_all add: status_from_code_def STATUS_CODES_def)

lemma status_of_other:
  assumes "\<nexists>st. status_name st = name"
  shows "status_from_code name = Unknown"
proof -
  have "map_of STATUS_CODES name = None"
  proof (rule ccontr)
    assume "map_of STATUS_CODES name \<noteq> None"
    then obtain st where "(name, st) \<in> set STATUS_CODES" by (auto dest: map_of_SomeD)
    then have "status_name st = name" by (auto simp: STATUS_CODES_def)
    with assms show False by blast
  qed
  then show ?thesis by (simp add: status_from_code_def)
qed

text \<open>
  C33. A handler that throws or rejects never answers a stream with success. A unary and a duplex
  handler answer the status their rejection's \<^verbatim>\<open>code\<close> names, and \<^verbatim>\<open>Unknown\<close> for any other rejection,
  a claimed \<^verbatim>\<open>Ok\<close> included; a streaming handler answers \<^verbatim>\<open>Unknown\<close> whatever the code.
\<close>

theorem rejections_never_succeed:
  assumes "frame_to_der api frame = Inr der" and "settled (unary (JUint8Array der)) = Some (Inl rejection)"
    and "settled (streaming body_wrap (route_to_js urns route)) = Some (Inl rejection)"
    and "settled (duplex body_wrap reply_wrap (route_to_js urns route)) = Some (Inl rejection)"
  shows "\<exists>answer. answer \<noteq> TransitOk \<and>
    respond_via_js api texts host unary frame = Some \<lparr>response_status = answer, response_frame = None\<rparr> \<and>
    respond_duplex_via_js urns duplex route = Some answer \<and>
    respond_streaming_via_js api texts host urns streaming route = Some \<lparr>response_status = Unknown, response_frame = None\<rparr> \<and>
    (\<forall>st. reflect_get rejection ''code'' = Inr (JString (status_name st)) \<longrightarrow>
       answer = (if st = TransitOk then Unknown else st)) \<and>
    ((\<nexists>st. reflect_get rejection ''code'' = Inr (JString (status_name st))) \<longrightarrow> answer = Unknown)"
proof (intro exI [of _ "refusal_for rejection"] conjI allI impI)
  show "refusal_for rejection \<noteq> TransitOk" by (rule refusal_for_not_Ok)
  show "respond_via_js api texts host unary frame = Some \<lparr>response_status = refusal_for rejection, response_frame = None\<rparr>"
    using assms(1,2) by (simp add: respond_via_js_def call_handler_def)
  show "respond_duplex_via_js urns duplex route = Some (refusal_for rejection)"
    using assms(4) by (simp add: respond_duplex_via_js_def call_duplex_handler_def refusal_status_def refusal_for_def)
  show "respond_streaming_via_js api texts host urns streaming route = Some \<lparr>response_status = Unknown, response_frame = None\<rparr>"
    using assms(3) by (simp add: respond_streaming_via_js_def call_streaming_handler_def)
  show "refusal_for rejection = (if st = TransitOk then Unknown else st)"
    if "reflect_get rejection ''code'' = Inr (JString (status_name st))" for st
    using that by (simp add: refusal_for_def rejection_code_def status_from_name)
  show "refusal_for rejection = Unknown" if other: "\<nexists>st. reflect_get rejection ''code'' = Inr (JString (status_name st))"
  proof (cases "rejection_code rejection")
    case (Some name)
    then have "reflect_get rejection ''code'' = Inr (JString name)"
      by (auto simp: rejection_code_def split: sum.splits elim: string_value.elims)
    with other have "\<nexists>st. status_name st = name" by blast
    with Some show ?thesis by (simp add: refusal_for_def status_of_other)
  qed (simp add: refusal_for_def)
qed

theorem rejections_never_succeed_witness:
  "\<exists>answer. answer \<noteq> TransitOk \<and>
     respond_via_js example_api example_texts \<lparr>is_function = (\<lambda>_. False), uint8_new = (\<lambda>_. []), uint8_cast = (\<lambda>_. [])\<rparr>
       (\<lambda>_. Throws (JObject [(''code'', JString ''NotFound'')])) (plain_frame [1, 2, 3] None) =
       Some \<lparr>response_status = answer, response_frame = None\<rparr> \<and>
     answer = NotFound"
proof -
  let ?rejection = "JObject [(''code'', JString ''NotFound'')]"
  let ?host = "\<lparr>is_function = (\<lambda>_. False), uint8_new = (\<lambda>_. []), uint8_cast = (\<lambda>_. [])\<rparr>"
  let ?route = "\<lparr>route_target = None, hops_remaining = 255\<rparr>"
  have der: "frame_to_der example_api (plain_frame [1, 2, 3] None) = Inr example_der_frame" by code_simp
  have thrown: "settled (Throws ?rejection) = Some (Inl ?rejection)" by simp
  from rejections_never_succeed [OF der, of "\<lambda>_. Throws ?rejection" ?rejection "\<lambda>_ _. Throws ?rejection" example_urns ?route
      "\<lambda>_ _ _. Throws ?rejection" example_texts ?host]
  obtain answer where "answer \<noteq> TransitOk"
    "respond_via_js example_api example_texts ?host (\<lambda>_. Throws ?rejection) (plain_frame [1, 2, 3] None) =
       Some \<lparr>response_status = answer, response_frame = None\<rparr>"
    "\<forall>st. reflect_get ?rejection ''code'' = Inr (JString (status_name st)) \<longrightarrow> answer = (if st = TransitOk then Unknown else st)"
    using thrown by auto
  moreover from this(3) have "answer = NotFound" by (auto dest: spec [of _ NotFound])
  ultimately show ?thesis by blast
qed

text \<open>
  What the handles' promises resolve with: a closed request with the response frame's encoding or
  \<^verbatim>\<open>undefined\<close>; a read with the next chunk, or \<^verbatim>\<open>undefined\<close> after the peer's last one; a failed upstream
  call always rejects.
\<close>

lemma handle_results:
  "response_settle api texts (Inr (Some frame)) = Inr v \<longleftrightarrow> (\<exists>der. frame_to_der api frame = Inr der \<and> v = JUint8Array der)"
  "response_settle api texts (Inr None) = Inr JUndefined"
  "response_settle api texts (Inl e) = Inl (transport_to_js e)"
  "next_chunk_result (Inr (Some b)) = Inr (JUint8Array b)" "next_chunk_result (Inr None) = Inr JUndefined"
  "next_chunk_result (Inl e) = Inl (transport_to_js e)"
  "call_result (Inr ()) = Inr JUndefined" "call_result (Inl e) = Inl (transport_to_js e)"
  by (auto simp: response_settle_def response_der_def bytes_or_undefined_def next_chunk_result_def call_result_def result_simps)

end
