(* ===== verification/Echo.thy ===== *)
theory Echo
  imports Topic Paywall Ws_Handles
begin

text \<open>
  The echo behaviour the demo servers serve (\<^verbatim>\<open>ws/tightbeam-ws/src/testing/mux.rs\<close>): the unary echo with
  the commands a frame id selects, the progressive echo that stamps the route, and the duplex chunk
  echo. The mux handle is upstream and the parameter \<open>echo_handle\<close>; a definition returns its answer with the
  calls it made on the handle, in order. \<open>raw_build\<close> is the frame builder for a body kept as raw DER.
\<close>

definition CALL_ME :: bytes where "CALL_ME = as_bytes ''call-me''"
definition CALL_ME_STREAM :: bytes where "CALL_ME_STREAM = as_bytes ''call-me-stream:''"
definition DRAIN_CALM :: bytes where "DRAIN_CALM = as_bytes ''drain-calm''"
definition SINK :: bytes where "SINK = as_bytes ''sink''"

definition env_u32 :: "environment \<Rightarrow> string \<Rightarrow> u32 \<Rightarrow> u32" where
  "env_u32 env name fallback =
     (case Option.bind (env name) (parse_unsigned (2 ^ 32)) of Some n \<Rightarrow> of_nat n | None \<Rightarrow> fallback)"

datatype ('f, 'u) handle_call = EmittedOnStream 'f | OpenedStreamTo 'u | ClosedWith bytes | ShutDownWith client_goaway

record ('e, 's, 'u) echo_handle =
  emit_on_stream :: "('e, 's) frame \<Rightarrow> transport_fault + ('e, 's) frame option"
  open_stream_to :: "'u \<Rightarrow> transport_fault + unit"
  close_with :: "bytes \<Rightarrow> transport_fault + unit"
  stream_answer :: "transport_fault + ('e, 's) frame option"
  handle_shutdown_with :: "client_goaway \<Rightarrow> transport_fault + unit"

type_synonym ('e, 's, 'u) echoed = "('e, 's) stream_response \<times> (('e, 's) frame, 'u) handle_call list"

definition package :: "transit_status \<Rightarrow> ('e, 's) frame option \<Rightarrow> ('e, 's) stream_response" where
  "package st frame = \<lparr>response_status = st, response_frame = frame\<rparr>"

text \<open>\<open>status_of\<close>: \<^verbatim>\<open>TransitStatus::try_from\<close> of a transport failure.\<close>

definition relayed_status :: "(string \<Rightarrow> transit_status option) \<Rightarrow> transport_fault \<Rightarrow> transit_status" where
  "relayed_status status_of error =
     (case fault_case error of
        OperationFailed failure \<Rightarrow> (case status_of failure of Some st \<Rightarrow> st | None \<Rightarrow> Internal)
      | _ \<Rightarrow> Internal)"

definition relay_answer ::
  "(string \<Rightarrow> transit_status option) \<Rightarrow> transport_fault + ('e, 's) frame option \<Rightarrow> ('e, 's) stream_response" where
  "relay_answer status_of answer =
     (case answer of Inr frame \<Rightarrow> package TransitOk frame | Inl error \<Rightarrow> package (relayed_status status_of error) None)"

definition drain_session :: "('e, 's, 'u) echo_handle \<Rightarrow> ('e, 's, 'u) echoed" where
  "drain_session handle = (package TransitOk None, [ShutDownWith EnhanceYourCalm])"

definition call_me_stream ::
  "('e, 's, 'd) wire_api \<Rightarrow> (string \<Rightarrow> 'u option) \<Rightarrow> (string \<Rightarrow> transit_status option) \<Rightarrow>
   ('e, 's, 'u) echo_handle \<Rightarrow> ('e, 's) frame \<Rightarrow> bytes \<Rightarrow> ('e, 's, 'u) echoed" where
  "call_me_stream api urn_of status_of handle frame target =
     (case from_utf8 target of
        Inl _ \<Rightarrow> (package InvalidArgument None, [])
      | Inr target \<Rightarrow>
     (case urn_of target of
        None \<Rightarrow> (package InvalidArgument None, [])
      | Some urn \<Rightarrow>
     (case frame_to_der api frame of
        Inl _ \<Rightarrow> (package Internal None, [])
      | Inr der \<Rightarrow>
     (case open_stream_to handle urn of
        Inl _ \<Rightarrow> (package Internal None, [OpenedStreamTo urn])
      | Inr _ \<Rightarrow>
     (case close_with handle der of
        Inl _ \<Rightarrow> (package Cancelled None, [OpenedStreamTo urn, ClosedWith der])
      | Inr _ \<Rightarrow> (relay_answer status_of (stream_answer handle), [OpenedStreamTo urn, ClosedWith der]))))))"

definition echo_stream ::
  "('e, 's, 'd) wire_api \<Rightarrow> (string \<Rightarrow> 'u option) \<Rightarrow> (string \<Rightarrow> transit_status option) \<Rightarrow>
   ('e, 's, 'u) echo_handle \<Rightarrow> ('e, 's) frame \<Rightarrow> ('e, 's, 'u) echoed" where
  "echo_stream api urn_of status_of handle frame =
     (let ident = frame_id frame
      in if starts_with ident DRAIN_CALM then drain_session handle
         else if starts_with ident SINK then (package TransitOk None, [])
         else case strip_prefix CALL_ME_STREAM ident of
           Some target \<Rightarrow> call_me_stream api urn_of status_of handle frame target
         | None \<Rightarrow>
             if \<not> starts_with ident CALL_ME then (package TransitOk (Some frame), [])
             else (relay_answer status_of (emit_on_stream handle frame), [EmittedOnStream frame]))"

text \<open>The id that carries a route, and the frame rebuilt under it.\<close>

definition route_stamp :: "('u \<Rightarrow> string) \<Rightarrow> 'u stream_route \<Rightarrow> bytes" where
  "route_stamp show_urn route =
     (let hops = index_name (unat (hops_remaining route))
      in case route_target route of
           Some target \<Rightarrow> as_bytes (''routed:'' @ show_urn target @ '':'' @ hops)
         | None \<Rightarrow> as_bytes (''routed::'' @ hops))"

type_synonym ('e, 's) raw_builder = "version \<Rightarrow> bytes \<Rightarrow> u64 \<Rightarrow> der_any \<Rightarrow> wire_error + ('e, 's) frame"

definition route_stamped ::
  "('e, 's, 'd) wire_api \<Rightarrow> ('e, 's) raw_builder \<Rightarrow> ('u \<Rightarrow> string) \<Rightarrow> ('e, 's) frame \<Rightarrow> 'u stream_route \<Rightarrow>
   wire_error + ('e, 's) frame" where
  "route_stamped api raw_build show_urn frame route =
     and_then (any_from_der api (frame_body frame)) (\<lambda>body.
       raw_build (frame_version frame) (route_stamp show_urn route) (frame_order frame) body)"

text \<open>How the reassembly of a body fails: its octets are not a frame, or the transport gave up.\<close>

datatype body_error = BodyNotDer | BodyLost

definition echo_streaming ::
  "('e, 's, 'd) wire_api \<Rightarrow> ('e, 's) raw_builder \<Rightarrow> ('u \<Rightarrow> string) \<Rightarrow> (string \<Rightarrow> 'u option) \<Rightarrow>
   (string \<Rightarrow> transit_status option) \<Rightarrow> ('e, 's, 'u) echo_handle \<Rightarrow> body_error + ('e, 's) frame \<Rightarrow> 'u stream_route \<Rightarrow>
   ('e, 's, 'u) echoed" where
  "echo_streaming api raw_build show_urn urn_of status_of handle into_frame route =
     (case into_frame of
        Inr frame \<Rightarrow>
          (case route_stamped api raw_build show_urn frame route of
             Inr stamped \<Rightarrow> echo_stream api urn_of status_of handle stamped
           | Inl _ \<Rightarrow> (package InvalidArgument None, []))
      | Inl BodyNotDer \<Rightarrow> (package InvalidArgument None, [])
      | Inl BodyLost \<Rightarrow> (package Cancelled None, []))"

text \<open>
  The duplex loop over what \<^verbatim>\<open>chunk\<close> and \<^verbatim>\<open>push\<close> answer, in order: the status (\<open>None\<close> while an answer
  is awaited) and the chunks pushed back.
\<close>

fun echo_duplex ::
  "(transport_fault + bytes option) list \<Rightarrow> (transport_fault + unit) list \<Rightarrow> transit_status option \<times> bytes list" where
  "echo_duplex [] pushes = (None, [])"
| "echo_duplex (Inr None # chunks) pushes = (Some TransitOk, [])"
| "echo_duplex (Inl e # chunks) pushes = (Some Cancelled, [])"
| "echo_duplex (Inr (Some chunk) # chunks) [] = (None, [chunk])"
| "echo_duplex (Inr (Some chunk) # chunks) (Inl e # pushes) = (Some Cancelled, [chunk])"
| "echo_duplex (Inr (Some chunk) # chunks) (Inr u # pushes) =
     (let (st, back) = echo_duplex chunks pushes in (st, chunk # back))"

text \<open>\<^verbatim>\<open>EchoFrames\<close>: a unary stream is echoed as a frame, a progressive one after reassembly.\<close>

definition echo_frames_unary ::
  "('e, 's, 'd) wire_api \<Rightarrow> (string \<Rightarrow> 'u option) \<Rightarrow> (string \<Rightarrow> transit_status option) \<Rightarrow>
   ('e, 's, 'u) echo_handle \<Rightarrow> ('e, 's) frame \<Rightarrow> transport_fault + ('e, 's, 'u) echoed" where
  "echo_frames_unary api urn_of status_of handle frame = Inr (echo_stream api urn_of status_of handle frame)"

definition echo_frames_streaming ::
  "('e, 's, 'd) wire_api \<Rightarrow> ('e, 's) raw_builder \<Rightarrow> ('u \<Rightarrow> string) \<Rightarrow> (string \<Rightarrow> 'u option) \<Rightarrow>
   (string \<Rightarrow> transit_status option) \<Rightarrow> ('e, 's, 'u) echo_handle \<Rightarrow> body_error + ('e, 's) frame \<Rightarrow> 'u stream_route \<Rightarrow>
   transport_fault + ('e, 's, 'u) echoed" where
  "echo_frames_streaming api raw_build show_urn urn_of status_of handle into_frame route =
     Inr (echo_streaming api raw_build show_urn urn_of status_of handle into_frame route)"

section \<open>Properties\<close>

lemmas command_ids = CALL_ME_def CALL_ME_STREAM_def DRAIN_CALM_def SINK_def as_bytes_def

text \<open>No id selects two commands, except that \<^verbatim>\<open>call-me-stream:\<close> extends \<^verbatim>\<open>call-me\<close> and is tested first.\<close>

lemma commands_exclusive:
  "starts_with ident DRAIN_CALM \<Longrightarrow> \<not> starts_with ident SINK \<and> \<not> starts_with ident CALL_ME"
  "starts_with ident SINK \<Longrightarrow> \<not> starts_with ident CALL_ME"
  "starts_with ident CALL_ME_STREAM \<Longrightarrow> starts_with ident CALL_ME"
  by (cases ident; simp add: starts_with_def command_ids split: if_splits)
     (auto simp: starts_with_def command_ids Cons_eq_append_conv split: if_splits)

text \<open>A frame whose id is no command comes back itself, and the handle is not touched.\<close>

lemma plain_frames_echo:
  assumes "\<not> starts_with (frame_id frame) DRAIN_CALM" "\<not> starts_with (frame_id frame) SINK" "\<not> starts_with (frame_id frame) CALL_ME"
  shows "echo_stream api urn_of status_of handle frame = (package TransitOk (Some frame), [])"
proof -
  have "\<not> starts_with (frame_id frame) CALL_ME_STREAM" using assms(3) commands_exclusive(3) by blast
  then have "strip_prefix CALL_ME_STREAM (frame_id frame) = None" unfolding starts_with_def by blast
  then show ?thesis using assms by (simp add: echo_stream_def Let_def)
qed

text \<open>A call-back failure keeps the peer's status and never carries a frame; only \<^verbatim>\<open>Ok\<close> does.\<close>

definition frame_only_on_success :: "('e, 's) stream_response \<Rightarrow> bool" where
  "frame_only_on_success r \<longleftrightarrow> (response_frame r \<noteq> None \<longrightarrow> response_status r = TransitOk)"

lemma response_frame_only_on_success: "frame_only_on_success (fst (echo_stream api urn_of status_of handle frame))"
proof -
  have pack: "frame_only_on_success (package st None)" "frame_only_on_success (package TransitOk f)" for st f
    by (simp_all add: frame_only_on_success_def package_def)
  have answer: "frame_only_on_success (relay_answer status_of a)" for a
    by (cases a) (simp_all add: relay_answer_def pack)
  have routed: "frame_only_on_success (fst (call_me_stream api urn_of status_of handle frame target))" for target
    by (simp add: call_me_stream_def pack answer split: sum.split option.split)
  show ?thesis
    by (simp add: echo_stream_def drain_session_def Let_def pack answer routed split: option.split)
qed

text \<open>
  A progressive body is never taken for a command, whatever id the client gave its frame: the
  stamped frame is echoed and the handle is not touched.
\<close>

lemma streaming_echo_is_stamped:
  assumes "route_stamped api raw_build show_urn frame route = Inr stamped"
    and "\<And>v i n b f. raw_build v i n b = Inr f \<Longrightarrow> frame_id f = i"
  shows "echo_streaming api raw_build show_urn urn_of status_of handle (Inr frame) route = (package TransitOk (Some stamped), [])"
proof -
  have "frame_id stamped = route_stamp show_urn route"
    using assms by (auto simp: route_stamped_def result_simps)
  then obtain rest where "frame_id stamped = as_bytes ''routed:'' @ rest"
    by (cases "route_target route") (auto simp: route_stamp_def as_bytes_def)
  then have "\<not> starts_with (frame_id stamped) DRAIN_CALM" "\<not> starts_with (frame_id stamped) SINK"
    "\<not> starts_with (frame_id stamped) CALL_ME"
    by (simp_all add: starts_with_def command_ids)
  from plain_frames_echo [OF this] assms(1) show ?thesis by (simp add: echo_streaming_def)
qed

text \<open>The duplex echo pushes every chunk back in order and ends with the body; it never pushes what it did not receive.\<close>

lemma duplex_echoes_all:
  "echo_duplex (map (Inr \<circ> Some) chunks @ Inr None # later) (replicate (length chunks) (Inr ()) @ pushes) = (Some TransitOk, chunks)"
  by (induction chunks) simp_all

lemma duplex_pushes_prefix:
  "\<exists>n. map (Inr \<circ> Some) (snd (echo_duplex chunks pushes)) = take n chunks"
proof (induction chunks pushes rule: echo_duplex.induct)
  case (6 chunk chunks u pushes)
  then obtain n where "map (Inr \<circ> Some) (snd (echo_duplex chunks pushes)) = take n chunks" by blast
  then show ?case by (intro exI [of _ "Suc n"]) (cases "echo_duplex chunks pushes", simp add: o_def)
qed (auto intro: exI [of _ "0"] exI [of _ "Suc 0"])

end
