(* ===== verification/Servers.thy ===== *)
theory Servers
  imports Identity Echo
begin

text \<open>
  The example servers of \<^verbatim>\<open>ws/tightbeam-ws/examples\<close>: start-up from the environment, the accept loop and the
  service of one connection, for the encrypted and the cleartext echo server. The handlers a connection
  is served with are in \<open>Echo\<close>, the listener in \<open>Ws_Listener\<close>, the identity in \<open>Identity\<close>. The handshake, the
  mux and its responder are upstream: the fields of \<open>mux_api\<close>.
\<close>

section \<open>One connection\<close>

datatype mux_role = MuxClient | MuxServer

datatype body_mode = UnaryBody | DuplexBody | StreamingBody

datatype driver_task = ReaderDriver | WriterDriver

definition paywall_shared :: "(bytes \<Rightarrow> wire_error + bytes) \<Rightarrow> environment \<Rightarrow> wire_error + demo_paywall" where
  "paywall_shared octet_string env = paywall_open octet_string env"

text \<open>A transport with what the server attached to it before the handshake.\<close>

record ('i, 'k, 'c) provisioned = "('i, 'k, 'c) ws_transport" +
  offered :: "transport_offer option"
  transport_authorizer :: "demo_paywall option"

record ('t, 'h, 'm, 'e) mux_api =
  negotiate_mux :: "'t \<Rightarrow> 'e + 't"
  into_mux :: "'t \<Rightarrow> mux_role \<Rightarrow> 'e + 'm"
  into_split :: "'t \<Rightarrow> 'e + 'h"
  mux_new :: "'h \<Rightarrow> mux_role \<Rightarrow> u32 \<Rightarrow> 'm"
  responder_serve :: "body_mode \<Rightarrow> 'm \<Rightarrow> 'e + unit"

text \<open>\<^verbatim>\<open>TransportOffer::mux\<close>: a stream cap and nothing else.\<close>

definition offer_mux :: "u32 \<Rightarrow> transport_offer" where
  "offer_mux cap = \<lparr>mux_streams = cap, mux_budgets_offered = None, mux_authorization = None\<rparr>"

definition session_terms :: "environment \<Rightarrow> u32 \<Rightarrow> bool \<Rightarrow> transport_offer" where
  "session_terms env cap priced =
     (let offer = offer_mux cap in if priced then offer\<lparr>mux_budgets_offered := Some (budget_ceiling env)\<rparr> else offer)"

definition provision ::
  "environment \<Rightarrow> u32 \<Rightarrow> demo_paywall option \<Rightarrow> ('i, 'k, 'c) ws_transport \<Rightarrow> ('i, 'k, 'c) provisioned" where
  "provision env cap authorizer transport =
     (let offer = session_terms env cap (authorizer \<noteq> None);
          t = ws_transport.extend transport \<lparr>offered = Some offer, transport_authorizer = None\<rparr>
      in case authorizer of Some a \<Rightarrow> t\<lparr>transport_authorizer := Some a\<rparr> | None \<Rightarrow> t)"

definition serve_handshake :: "('t, 'h, 'm, 'e) mux_api \<Rightarrow> 't \<Rightarrow> 'e + 't" where
  "serve_handshake mux t = negotiate_mux mux t"

definition assemble_mux :: "('t, 'h, 'm, 'e) mux_api \<Rightarrow> 't \<Rightarrow> mux_role \<Rightarrow> 'e + 'm" where
  "assemble_mux mux t role = into_mux mux t role"

definition echo_body_mode :: "environment \<Rightarrow> body_mode" where
  "echo_body_mode env =
     (let mode = (case env ''TBWS_ECHO_BODY'' of Some mode \<Rightarrow> mode | None \<Rightarrow> ''streaming'')
      in if mode = ''unary'' then UnaryBody else if mode = ''duplex'' then DuplexBody else StreamingBody)"

text \<open>
  Both drivers run while the responder serves, and are aborted after it. The result is the outcome and
  the drivers that still run.
\<close>

definition serve_driven :: "('t, 'h, 'm, 'e) mux_api \<Rightarrow> body_mode \<Rightarrow> 'm \<Rightarrow> ('e + unit) \<times> driver_task list" where
  "serve_driven mux mode m =
     (let running = [ReaderDriver, WriterDriver];
          outcome = responder_serve mux mode m;
          running = removeAll ReaderDriver running;
          running = removeAll WriterDriver running
      in (outcome, running))"

definition echo_serve_connection ::
  "(('i, 'k, 'c) provisioned, 'h, 'm, 'e) mux_api \<Rightarrow> environment \<Rightarrow> u32 \<Rightarrow> demo_paywall option \<Rightarrow>
   ('i, 'k, 'c) ws_transport \<Rightarrow> ('e + unit) \<times> driver_task list" where
  "echo_serve_connection mux env peer_cap authorizer transport =
     (case serve_handshake mux (provision env peer_cap authorizer transport) of
        Inl e \<Rightarrow> (Inl e, [])
      | Inr t \<Rightarrow>
          (case assemble_mux mux t MuxServer of
             Inl e \<Rightarrow> (Inl e, [])
           | Inr m \<Rightarrow> serve_driven mux (echo_body_mode env) m))"

definition clear_serve_connection ::
  "('t, 'h, 'm, 'e) mux_api \<Rightarrow> environment \<Rightarrow> u32 \<Rightarrow> 't \<Rightarrow> ('e + unit) \<times> driver_task list" where
  "clear_serve_connection mux env cap transport =
     (case into_split mux transport of
        Inl e \<Rightarrow> (Inl e, [])
      | Inr halves \<Rightarrow> serve_driven mux (echo_body_mode env) (mux_new mux halves MuxServer cap))"

section \<open>The accept loop\<close>

text \<open>
  The loop never ends; \<open>accept_loop n\<close> is its state after \<open>n\<close> iterations. A spawned connection runs on its
  own task, a failed accept is reported and the loop goes on.
\<close>

record ('t, 'a) serving =
  accepted_connections :: "('t \<times> 'a) list"
  accept_failures :: nat

definition serving_start :: "('t, 'a) serving" where
  "serving_start = \<lparr>accepted_connections = [], accept_failures = 0\<rparr>"

definition accept_once ::
  "('a, 'l, 't, 'c, 'e, 'io, 'i, 'k, 'w) network \<Rightarrow> ('l, 'c) ws_listener \<Rightarrow>
   (('i, 'k, 'c) ws_transport, 'a) serving \<times> 'w \<Rightarrow> (('i, 'k, 'c) ws_transport, 'a) serving \<times> 'w" where
  "accept_once net l = (\<lambda>(s, w).
     case accept net l w of
       (Inr accepted, w') \<Rightarrow> (s\<lparr>accepted_connections := accepted_connections s @ [accepted]\<rparr>, w')
     | (Inl e, w') \<Rightarrow> (s\<lparr>accept_failures := Suc (accept_failures s)\<rparr>, w'))"

fun accept_loop ::
  "('a, 'l, 't, 'c, 'e, 'io, 'i, 'k, 'w) network \<Rightarrow> ('l, 'c) ws_listener \<Rightarrow> nat \<Rightarrow>
   (('i, 'k, 'c) ws_transport, 'a) serving \<times> 'w \<Rightarrow> (('i, 'k, 'c) ws_transport, 'a) serving \<times> 'w" where
  "accept_loop net l 0 s = s"
| "accept_loop net l (Suc n) s = accept_loop net l n (accept_once net l s)"

section \<open>Start-up\<close>

type_synonym ('cert, 'tb, 'val) pinning = "'cert list \<Rightarrow> 'tb + 'val"

definition client_validators ::
  "('cert, 'key, 'ident, 'trust, 'tb, 'os, 'w) identity_api \<Rightarrow> ('cert, 'tb, 'val) pinning \<Rightarrow> string \<Rightarrow> 'w \<Rightarrow>
   ('os, 'tb) box_error + 'val list" where
  "client_validators api pin_clients path w =
     and_then (map_err BoxOs (fs_read api w path)) (\<lambda>der.
     and_then (map_err BoxCert (leaf_from_der api der)) (\<lambda>cert.
     and_then (map_err BoxCert (pin_clients [cert])) (\<lambda>pinned. Inr [pinned])))"

text \<open>What a started server holds: its listener, the stream cap and the authorizer of its connections.\<close>

record ('l, 'c) started =
  listener :: "('l, 'c) ws_listener"
  peer_streams :: u32
  authorizer :: "demo_paywall option"
  auth_mode :: string

definition echo_client_auth where
  "echo_client_auth api pin_clients env w paywall config =
     (let client_cert = env ''TBWS_CLIENT_CERT''
      in if paywall \<and> client_cert = None then Inl (BoxText ''TBWS_PAYWALL requires TBWS_CLIENT_CERT (mutual auth)'')
         else case client_cert of
           Some path \<Rightarrow>
             and_then (client_validators api pin_clients path w) (\<lambda>validators.
               Inr (config\<lparr>client_validators_of := validators\<rparr>, ''mutual-auth''))
         | None \<Rightarrow> Inr (config, ''server-auth''))"

definition echo_authorizer where
  "echo_authorizer octet_string env paywall mode =
     (if paywall
      then and_then (map_err BoxTightbeam (paywall_shared octet_string env)) (\<lambda>a. Inr (Some a, ''mutual-auth+paywall''))
      else Inr (None, mode))"

definition echo_start ::
  "('cert, 'key, 'ident, 'trust, 'tb, 'os, 'w) identity_api \<Rightarrow> ('cert, 'tb, 'val) pinning \<Rightarrow> (bytes \<Rightarrow> wire_error + bytes) \<Rightarrow>
   ('a, 'l, 't, 'c, ('ident, 'val) encryption_config, 'os, 'i, 'k, 'w) network \<Rightarrow> environment \<Rightarrow> 'w \<Rightarrow>
   (('os, 'tb) box_error + ('l, 'c) started) \<times> 'w" where
  "echo_start api pin_clients octet_string net env w =
     (let port = env_u32 env ''ECHO_WS_PORT'' 9100;
          peer_cap = env_u32 env ''MUX_PEER_STREAMS'' 8;
          paywall = paywall_enabled env;
          settings =
            and_then (map_err BoxOs (parse_addr net (''0.0.0.0:'' @ index_name (unat port)))) (\<lambda>bind_addr.
            and_then (map_err BoxFixture (identity_from_env api env w)) (\<lambda>ident.
            and_then (map_err BoxFixture (server_config api ident)) (\<lambda>config.
            and_then (echo_client_auth api pin_clients env w paywall config) (\<lambda>(config, mode).
            and_then (echo_authorizer octet_string env paywall mode) (\<lambda>(auth, mode).
              Inr (bind_addr, config, auth, mode))))))
      in case settings of
           Inl e \<Rightarrow> (Inl e, w)
         | Inr (bind_addr, config, auth, mode) \<Rightarrow>
             (case bind_with net bind_addr config w of
                (Inl e, w') \<Rightarrow> (Inl (BoxStream e), w')
              | (Inr (l, bound), w') \<Rightarrow>
                  (Inr \<lparr>listener = l, peer_streams = peer_cap, authorizer = auth, auth_mode = mode\<rparr>, w')))"

definition clear_start ::
  "('a, 'l, 't, 'c, 'e, 'os, 'i, 'k, 'w) network \<Rightarrow> (string \<Rightarrow> 'os + 'a) \<Rightarrow> environment \<Rightarrow> 'w \<Rightarrow>
   (('os, 'tb) ws_lib_error + ('l, 'c) ws_listener \<times> u32) \<times> 'w" where
  "clear_start net resolve env w =
     (let port = env_u32 env ''ECHO_WS_PORT'' 9101; cap = env_u32 env ''MUX_STREAMS'' 8
      in case resolve (''0.0.0.0:'' @ index_name (unat port)) of
           Inl e \<Rightarrow> (Inl (Io e), w)
         | Inr addr \<Rightarrow>
             (let (bound, w') = bind_cleartext_named net addr w in (and_then bound (\<lambda>l. Inr (l, cap)), w')))"

text \<open>The servers after \<open>n\<close> iterations: what each spawned connection came to, in the order they were accepted.\<close>

definition echo_main_loop where
  "echo_main_loop mux net env srv n w =
     (let (s, w') = accept_loop net (listener srv) n (serving_start, w)
      in (map (\<lambda>(t, peer). echo_serve_connection mux env (peer_streams srv) (authorizer srv) t) (accepted_connections s), w'))"

definition clear_main_loop where
  "clear_main_loop mux net env l cap n w =
     (let (s, w') = accept_loop net l n (serving_start, w)
      in (map (\<lambda>(t, peer). clear_serve_connection mux env cap t) (accepted_connections s), w'))"

section \<open>Lemmas\<close>

lemma serve_driven_stops [simp]: "serve_driven mux mode m = (responder_serve mux mode m, [])"
  by (simp add: serve_driven_def Let_def)

text \<open>No path through a connection leaves a driver running.\<close>

lemma connections_leave_no_driver:
  "snd (echo_serve_connection mux env cap auth t) = []" "snd (clear_serve_connection mux' env cap' t') = []"
  by (simp_all add: echo_serve_connection_def clear_serve_connection_def split: sum.split)

lemma main_loops_leave_no_driver:
  "list_all (\<lambda>c. snd c = []) (fst (echo_main_loop mux net env srv n w))"
  "list_all (\<lambda>c. snd c = []) (fst (clear_main_loop mux' net' env l cap n w'))"
  by (simp_all add: echo_main_loop_def clear_main_loop_def list_all_iff case_prod_beta connections_leave_no_driver)

text \<open>
  The loop accounts for every iteration: each either spawned the connection that was accepted, in
  order, or was counted as a failure; none stops it.
\<close>

lemma accept_loop_accounts:
  assumes "accept_loop net l n (s, w) = (s', w')"
  shows "length (accepted_connections s') + accept_failures s' = length (accepted_connections s) + accept_failures s + n \<and>
    (\<exists>new. accepted_connections s' = accepted_connections s @ new \<and> (\<forall>c \<in> set new. \<exists>v v'. accept net l v = (Inr c, v')))"
  using assms
proof (induction n arbitrary: s w)
  case (Suc n)
  obtain r w1 where a: "accept net l w = (r, w1)" by fastforce
  show ?case
  proof (cases r)
    case (Inl e)
    with Suc.prems a have "accept_loop net l n (s\<lparr>accept_failures := Suc (accept_failures s)\<rparr>, w1) = (s', w')"
      by (simp add: accept_once_def)
    from Suc.IH [OF this] show ?thesis by simp
  next
    case (Inr c)
    with Suc.prems a have "accept_loop net l n (s\<lparr>accepted_connections := accepted_connections s @ [c]\<rparr>, w1) = (s', w')"
      by (simp add: accept_once_def)
    from Suc.IH [OF this] obtain new where "accepted_connections s' = accepted_connections s @ c # new"
      "\<forall>c \<in> set new. \<exists>v v'. accept net l v = (Inr c, v')" "length new + accept_failures s' = accept_failures s + n"
      by auto
    moreover have "accept net l w = (Inr c, w1)" using a Inr by simp
    ultimately show ?thesis by (intro conjI exI [of _ "c # new"]) auto
  qed
qed simp

lemma accepted_config:
  assumes "accept net l w = (Inr (t, peer), w')"
  shows "transport_config t = listener_config l"
  using assms by (auto simp: accept_def create_transport_def Let_def split: sum.splits prod.splits)

lemma provision_simps [simp]:
  "transport_config (provision env cap auth t) = transport_config t"
  "transport_stream (provision env cap auth t) = transport_stream t"
  "transport_authorizer (provision env cap auth t) = auth"
  "offered (provision env cap auth t) = Some (session_terms env cap (auth \<noteq> None))"
  by (simp_all add: provision_def ws_transport.defs Let_def split: option.split)

lemma spawned_config:
  assumes "accept_loop net l n (serving_start, w) = (s, w')" and "(t, peer) \<in> set (accepted_connections s)"
  shows "transport_config t = listener_config l"
  using accept_loop_accounts [OF assms(1)] assms(2) accepted_config by (fastforce simp: serving_start_def)

text \<open>
  What a paywall promises: every connection of the server is provisioned with an authorizer that
  invoices, offers the budget ceiling of the environment, and runs under an encryption configuration
  whose only client check pins the certificate file that \<^verbatim>\<open>TBWS_CLIENT_CERT\<close> names.
\<close>

definition pins_client ::
  "('cert, 'key, 'ident, 'trust, 'tb, 'os, 'w) identity_api \<Rightarrow> ('cert, 'tb, 'val) pinning \<Rightarrow> environment \<Rightarrow> 'w \<Rightarrow>
   ('ident, 'val) encryption_config \<Rightarrow> bool" where
  "pins_client api pin_clients env w config \<longleftrightarrow>
     (\<exists>path der cert v. env ''TBWS_CLIENT_CERT'' = Some path \<and> fs_read api w path = Inr der \<and>
        leaf_from_der api der = Inr cert \<and> pin_clients [cert] = Inr v \<and> client_validators_of config = [v])"

definition enforces_paywall ::
  "('cert, 'key, 'ident, 'trust, 'tb, 'os, 'w) identity_api \<Rightarrow> ('cert, 'tb, 'val) pinning \<Rightarrow>
   ('a, 'l, 't, 'c, ('ident, 'val) encryption_config, 'os, 'i, 'k, 'w) network \<Rightarrow> environment \<Rightarrow> 'w \<Rightarrow>
   ('i, 'k, 'c) provisioned \<Rightarrow> bool" where
  "enforces_paywall api pin_clients net env w t \<longleftrightarrow>
     (\<exists>config. config_of_encryption net config = Inr (transport_config t) \<and> pins_client api pin_clients env w config) \<and>
     (\<exists>a. transport_authorizer t = Some a \<and> ceiling a = budget_ceiling env \<and> challenge_renewal a = Inr (Some (invoice a))) \<and>
     map_option mux_budgets_offered (offered t) = Some (Some (budget_ceiling env))"

lemma client_validators_pin:
  "client_validators api pin_clients path w = Inr vs \<Longrightarrow>
     \<exists>der cert v. fs_read api w path = Inr der \<and> leaf_from_der api der = Inr cert \<and> pin_clients [cert] = Inr v \<and> vs = [v]"
  by (auto simp: client_validators_def result_simps)

lemma bind_with_config:
  "bind_with net addr config w = (Inr (l, bound), w') \<Longrightarrow> config_of_encryption net config = Inr (listener_config l)"
  by (auto simp: bind_with_def Let_def result_simps split: prod.splits)

text \<open>The step every paywalled server shares: pinned validators, an open paywall, and the bound listener.\<close>

lemma provisioned_enforces:
  assumes "pins_client api pin_clients env w config" and "paywall_shared octet_string env = Inr a"
    and "bind_with net addr config w = (Inr (l, bound), w1)"
    and "accept_loop net l n (serving_start, w1) = (s, w2)" and "(t, peer) \<in> set (accepted_connections s)"
  shows "enforces_paywall api pin_clients net env w (provision env cap (Some a) t)"
proof -
  have "ceiling a = budget_ceiling env"
    using assms(2) by (auto simp: paywall_shared_def paywall_open_def result_simps)
  then show ?thesis
    using assms(1) bind_with_config [OF assms(3)] spawned_config [OF assms(4,5)]
    by (auto simp: enforces_paywall_def challenge_renewal_def session_terms_def)
qed

lemma echo_start_paywalled:
  assumes "echo_start api pin_clients octet_string net env w = (Inr srv, w1)" and "paywall_enabled env"
  shows "\<exists>config addr bound a. pins_client api pin_clients env w config \<and>
    bind_with net addr config w = (Inr (listener srv, bound), w1) \<and>
    paywall_shared octet_string env = Inr a \<and> authorizer srv = Some a"
  using assms
  by (auto simp: echo_start_def echo_client_auth_def echo_authorizer_def pins_client_def Let_def result_simps
      dest!: client_validators_pin split: sum.splits prod.splits option.splits if_splits)
     (force dest!: client_validators_pin)+

text \<open>Without the paywall nothing is charged: no authorizer and no budgets are offered.\<close>

lemma echo_start_free:
  assumes "echo_start api pin_clients octet_string net env w = (Inr srv, w1)" and "\<not> paywall_enabled env"
  shows "authorizer srv = None"
  using assms
  by (auto simp: echo_start_def echo_client_auth_def echo_authorizer_def Let_def result_simps
      split: sum.splits prod.splits option.splits if_splits)

end
