(* ===== verification/Relay.thy ===== *)
theory Relay
  imports Serve
begin

text \<open>
  The demo server's own parts (\<^verbatim>\<open>pubsub/tightbeam-pubsub/examples/pubsub_demo_server.rs\<close>): a second
  implementation of the \<^verbatim>\<open>Backplane\<close> trait, which relays every publish through a processor over a
  bounded queue and hands the answers to the in-process backplane; the subscribe policy and the
  \<^verbatim>\<open>poke\<close> route. Publishers and the worker task interleave freely. The processor's answers are
  arbitrary, a missed deadline included.
\<close>

section \<open>The relay\<close>

definition RELAY_CLOSED :: string where "RELAY_CLOSED = ''the relay worker is gone''"

definition RELAY_SATURATED :: string where "RELAY_SATURATED = ''the relay queue is full''"

definition RELAY_DEPTH :: nat where "RELAY_DEPTH = 64"

text \<open>
  Where the worker stands: at \<^verbatim>\<open>queue.recv()\<close>, awaiting the processor, or returned. The returned
  worker has dropped the receiving end, which closes the queue and discards what it held.
\<close>

datatype relay_pc = Receiving | Processing topic bytes | RelayStopped

record 'n relay =
  relay_local :: "'n local_state"
  requests :: "(topic \<times> bytes) list"
  relay_pc :: relay_pc

definition relay_spawned :: "'n relay" where
  "relay_spawned = \<lparr>relay_local = local_default, requests = [], relay_pc = Receiving\<rparr>"

definition relay_attach :: "('w \<Rightarrow> 'n \<Rightarrow> bool) \<Rightarrow> 'w \<Rightarrow> 'n \<Rightarrow> 'n relay \<Rightarrow> 'n relay" where
  "relay_attach upgrade w sink r = r\<lparr>relay_local := attach upgrade w sink (relay_local r)\<rparr>"

text \<open>\<^verbatim>\<open>try_send\<close> finds the queue closed before it finds it full.\<close>

definition relay_publish :: "topic \<Rightarrow> bytes \<Rightarrow> 'n relay \<Rightarrow> (backplane_error + unit) \<times> 'n relay" where
  "relay_publish topic payload r =
     (if relay_pc r = RelayStopped then (Inl (Unavailable RELAY_CLOSED), r)
      else if RELAY_DEPTH \<le> length (requests r) then (Inl (Unavailable RELAY_SATURATED), r)
      else (Inr (), r\<lparr>requests := requests r @ [(topic, payload)]\<rparr>))"

definition relay_reserve_order :: "topic \<Rightarrow> 'n relay \<Rightarrow> u64 \<times> 'n relay" where
  "relay_reserve_order topic r =
     (let (order, l) = reserve_order topic (relay_local r) in (order, r\<lparr>relay_local := l\<rparr>))"

definition relay_last_order :: "'n relay \<Rightarrow> topic \<Rightarrow> u64" where
  "relay_last_order r topic = last_order_of (relay_local r) topic"

text \<open>
  One round-trip. \<open>emit\<close> is \<^verbatim>\<open>handle.emit_on_stream\<close> under the timeout: \<open>None\<close> when the deadline
  passes first. A boxed error is its display text.
\<close>

definition process ::
  "'f frame_api \<Rightarrow> ('f \<Rightarrow> (string + 'f option) option) \<Rightarrow> topic \<Rightarrow> bytes \<Rightarrow> string + bytes" where
  "process api emit topic payload =
     and_then (map_err error_text (command_frame api (as_str topic) 1 payload)) (\<lambda>request.
     and_then (ok_or ''deadline has elapsed'' (emit request)) (\<lambda>emitted.
     and_then emitted (\<lambda>answered.
     and_then (ok_or RELAY_CLOSED answered) (\<lambda>answer. map_err error_text (opaque_payload api answer)))))"

text \<open>The worker: take the next request; then publish the processor's answer locally, or stop.\<close>

definition relay_recv :: "'n relay \<Rightarrow> 'n relay option" where
  "relay_recv r =
     (case (relay_pc r, requests r) of
        (Receiving, (topic, payload) # waiting) \<Rightarrow> Some (r\<lparr>requests := waiting, relay_pc := Processing topic payload\<rparr>)
      | _ \<Rightarrow> None)"

definition relay_settle ::
  "('w \<Rightarrow> 'n \<Rightarrow> bool) \<Rightarrow> ('n, 'w) sink_deliver \<Rightarrow> topic \<Rightarrow> string + bytes \<Rightarrow> 'n relay \<Rightarrow> 'w \<Rightarrow> 'n relay \<times> 'w" where
  "relay_settle upgrade send topic outcome r w =
     (case outcome of
        Inr processed \<Rightarrow>
          (let (_, l, w') = local_publish upgrade send topic processed (relay_local r) w
           in (r\<lparr>relay_local := l, relay_pc := Receiving\<rparr>, w'))
      | Inl _ \<Rightarrow> (r\<lparr>requests := [], relay_pc := RelayStopped\<rparr>, w))"

section \<open>Policy and routes\<close>

definition deny_forbidden :: subscribe_policy where
  "deny_forbidden ident topic = (if starts_with (as_str topic) ''forbidden/'' then Forbid else Allow)"

definition POKE :: bytes where "POKE = as_bytes ''poke''"

definition answer_poke :: "'f frame_api \<Rightarrow> ('h \<Rightarrow> 'f \<Rightarrow> transport_error + 'f option) \<Rightarrow> 'h \<Rightarrow> 'f response_package" where
  "answer_poke api emit h =
     (case command_frame api ''notice'' 1 (as_bytes ''ping'') of
        Inl _ \<Rightarrow> \<lparr>status = Internal, message = None\<rparr>
      | Inr notice \<Rightarrow>
          (case emit h notice of
             Inr _ \<Rightarrow> \<lparr>status = StatusOk, message = None\<rparr>
           | Inl _ \<Rightarrow> \<lparr>status = StatusUnavailable, message = None\<rparr>))"

definition answer_stream ::
  "'f frame_api \<Rightarrow> ('h \<Rightarrow> 'f \<Rightarrow> transport_error + 'f option) \<Rightarrow> ('h, 'f) app_routes" where
  "answer_stream api emit ctx frame world =
     (if metadata_id api frame = POKE then (answer_poke api emit (context_handle ctx), world)
      else (\<lparr>status = Unimplemented, message = None\<rparr>, world))"

section \<open>Runs\<close>

text \<open>
  What a run shows: each publish with its answer, and each request the worker finished. Between two
  steps the nodes, which the relay only reaches through its local backplane, may change at will.
\<close>

datatype relay_event =
    PublishAccepted topic bytes
  | PublishRefused topic bytes backplane_error
  | Forwarded topic bytes bytes
  | ProcessorFailed topic bytes string

inductive relay_run ::
  "('w \<Rightarrow> 'n \<Rightarrow> bool) \<Rightarrow> ('n, 'w) sink_deliver \<Rightarrow> 'f frame_api \<Rightarrow> relay_event list \<Rightarrow> 'n relay \<Rightarrow> bool"
  for upgrade send api where
  run_spawned: "relay_run upgrade send api [] relay_spawned"
| run_accepted: "relay_run upgrade send api tr r \<Longrightarrow> relay_publish t p r = (Inr (), r') \<Longrightarrow>
    relay_run upgrade send api (tr @ [PublishAccepted t p]) r'"
| run_refused: "relay_run upgrade send api tr r \<Longrightarrow> relay_publish t p r = (Inl e, r') \<Longrightarrow>
    relay_run upgrade send api (tr @ [PublishRefused t p e]) r'"
| run_recv: "relay_run upgrade send api tr r \<Longrightarrow> relay_recv r = Some r' \<Longrightarrow> relay_run upgrade send api tr r'"
| run_forwarded: "relay_run upgrade send api tr r \<Longrightarrow> relay_pc r = Processing t p \<Longrightarrow> process api emit t p = Inr q \<Longrightarrow>
    relay_settle upgrade send t (Inr q) r w = (r', w') \<Longrightarrow> relay_run upgrade send api (tr @ [Forwarded t p q]) r'"
| run_failed: "relay_run upgrade send api tr r \<Longrightarrow> relay_pc r = Processing t p \<Longrightarrow> process api emit t p = Inl e \<Longrightarrow>
    relay_settle upgrade send t (Inl e) r w = (r', w') \<Longrightarrow> relay_run upgrade send api (tr @ [ProcessorFailed t p e]) r'"
| run_reserved: "relay_run upgrade send api tr r \<Longrightarrow> relay_reserve_order t r = (n, r') \<Longrightarrow> relay_run upgrade send api tr r'"
| run_attached: "relay_run upgrade send api tr r \<Longrightarrow> relay_run upgrade send api tr (relay_attach upgrade w sink r)"

definition accepted_requests :: "relay_event list \<Rightarrow> (topic \<times> bytes) list" where
  "accepted_requests tr = concat (map (\<lambda>e. case e of PublishAccepted t p \<Rightarrow> [(t, p)] | _ \<Rightarrow> []) tr)"

definition forwarded_requests :: "relay_event list \<Rightarrow> (topic \<times> bytes) list" where
  "forwarded_requests tr = concat (map (\<lambda>e. case e of Forwarded t p _ \<Rightarrow> [(t, p)] | _ \<Rightarrow> []) tr)"

definition failed_requests :: "relay_event list \<Rightarrow> (topic \<times> bytes) list" where
  "failed_requests tr = concat (map (\<lambda>e. case e of ProcessorFailed t p _ \<Rightarrow> [(t, p)] | _ \<Rightarrow> []) tr)"

fun in_hand :: "relay_pc \<Rightarrow> (topic \<times> bytes) list" where
  "in_hand (Processing t p) = [(t, p)]"
| "in_hand _ = []"

lemma request_lists [simp]:
  "accepted_requests [] = []" "forwarded_requests [] = []" "failed_requests [] = []"
  "accepted_requests (tr @ [e]) = accepted_requests tr @ (case e of PublishAccepted t p \<Rightarrow> [(t, p)] | _ \<Rightarrow> [])"
  "forwarded_requests (tr @ [e]) = forwarded_requests tr @ (case e of Forwarded t p _ \<Rightarrow> [(t, p)] | _ \<Rightarrow> [])"
  "failed_requests (tr @ [e]) = failed_requests tr @ (case e of ProcessorFailed t p _ \<Rightarrow> [(t, p)] | _ \<Rightarrow> [])"
  by (simp_all add: accepted_requests_def forwarded_requests_def failed_requests_def)

text \<open>While the worker runs every accepted request is accounted for; once it stopped, one request failed.\<close>

definition relay_inv :: "relay_event list \<Rightarrow> 'n relay \<Rightarrow> bool" where
  "relay_inv tr r \<longleftrightarrow> length (requests r) \<le> RELAY_DEPTH \<and>
     (if relay_pc r = RelayStopped
      then \<exists>x lost. accepted_requests tr = forwarded_requests tr @ x # lost \<and> failed_requests tr = [x]
      else accepted_requests tr = forwarded_requests tr @ in_hand (relay_pc r) @ requests r \<and> failed_requests tr = [])"

lemma relay_run_inv:
  assumes "relay_run upgrade send api tr r"
  shows "relay_inv tr r"
  using assms
proof induction
  case (run_accepted tr r t p r')
  then show ?case by (auto simp: relay_inv_def relay_publish_def split: if_splits)
next
  case (run_refused tr r t p e r')
  then show ?case by (auto simp: relay_inv_def relay_publish_def split: if_splits)
next
  case (run_recv tr r r')
  then show ?case by (auto simp: relay_inv_def relay_recv_def split: relay_pc.splits list.splits)
next
  case (run_forwarded tr r t p emit q w r' w')
  then show ?case by (auto simp: relay_inv_def relay_settle_def split: prod.splits)
next
  case (run_failed tr r t p emit e w r' w')
  then show ?case by (auto simp: relay_inv_def relay_settle_def)
qed (auto simp: relay_inv_def relay_spawned_def relay_reserve_order_def relay_attach_def split: prod.splits)

lemma forwarded_is_processed:
  assumes "relay_run upgrade send api tr r" and "Forwarded t p q \<in> set tr"
  shows "\<exists>emit. process api emit t p = Inr q"
  using assms by (induction) auto



text \<open>
  The worker makes progress: on a healthy link, with no publishes in between, two steps per queued
  request empty the queue, and the nodes see the processed payloads in the order of the requests.
\<close>

definition relay_worker ::
  "('w \<Rightarrow> 'n \<Rightarrow> bool) \<Rightarrow> ('n, 'w) sink_deliver \<Rightarrow> (topic \<Rightarrow> bytes \<Rightarrow> string + bytes) \<Rightarrow> 'n relay \<times> 'w \<Rightarrow> 'n relay \<times> 'w" where
  "relay_worker upgrade send proc = (\<lambda>(r, w).
     case relay_pc r of
       Receiving \<Rightarrow> (case relay_recv r of Some r' \<Rightarrow> (r', w) | None \<Rightarrow> (r, w))
     | Processing t p \<Rightarrow> relay_settle upgrade send t (proc t p) r w
     | RelayStopped \<Rightarrow> (r, w))"

lemma relay_worker_drains:
  assumes "relay_pc r = Receiving" and "\<forall>(t, p) \<in> set (requests r). proc t p = Inr (good t p)"
  shows "(relay_worker upgrade send proc ^^ (2 * length (requests r))) (r, w) =
    (let (l, w') = fold (\<lambda>(t, p) (l, w). snd (local_publish upgrade send t (good t p) l w)) (requests r) (relay_local r, w)
     in (r\<lparr>relay_local := l, requests := []\<rparr>, w'))"
  using assms
proof (induction "requests r" arbitrary: r w)
  case (Cons x waiting)
  obtain t p where x: "x = (t, p)" by (rule prod.exhaust)
  obtain res l w' where pub: "local_publish upgrade send t (good t p) (relay_local r) w = (res, l, w')"
    by (rule prod_cases3)
  let ?r' = "r\<lparr>relay_local := l, requests := waiting\<rparr>"
  have good: "proc t p = Inr (good t p)" using Cons.prems(2) Cons.hyps(2) by (auto simp flip: Cons.hyps(2) simp: x)
  have two: "relay_worker upgrade send proc (relay_worker upgrade send proc (r, w)) = (?r', w')"
    using Cons.prems(1) good pub by (simp add: relay_worker_def relay_recv_def relay_settle_def x flip: Cons.hyps(2))
  have "(relay_worker upgrade send proc ^^ (2 * length (requests r))) (r, w) =
      (relay_worker upgrade send proc ^^ (2 * length waiting)) (?r', w')"
    using two by (simp add: funpow_Suc_right del: funpow.simps flip: Cons.hyps(2))
  also have "\<dots> = (let (l, w') = fold (\<lambda>(t, p) (l, w). snd (local_publish upgrade send t (good t p) l w)) waiting (l, w')
       in (?r'\<lparr>relay_local := l, requests := []\<rparr>, w'))"
    using Cons.hyps(1) [of ?r' w'] Cons.prems by (auto simp flip: Cons.hyps(2))
  finally show ?case by (simp add: x pub flip: Cons.hyps(2))
qed simp

text \<open>A failure closes the relay for good, and forwarding moves a topic's counter by at most one.\<close>

lemma relay_settle_orders:
  assumes "relay_settle upgrade send t outcome r w = (r', w')"
  shows "relay_last_order r' u = relay_last_order r u \<or>
    u = t \<and> relay_last_order r' u = saturating_add (relay_last_order r u) 1"
proof (cases outcome)
  case (Inl e)
  with assms show ?thesis by (auto simp: relay_settle_def relay_last_order_def)
next
  case (Inr q)
  obtain res l v where pub: "local_publish upgrade send t q (relay_local r) w = (res, l, v)" by (rule prod_cases3)
  with assms Inr have "r' = r\<lparr>relay_local := l, relay_pc := Receiving\<rparr>" by (simp add: relay_settle_def)
  with local_publish_last_order [OF pub, of u] show ?thesis by (simp add: relay_last_order_def split: if_splits)
qed

lemma poke_answers:
  "answer_stream api emit ctx frame world =
     (\<lparr>status = (if metadata_id api frame \<noteq> POKE then Unimplemented
                else case command_frame api ''notice'' 1 (as_bytes ''ping'') of
                  Inl _ \<Rightarrow> Internal
                | Inr notice \<Rightarrow> if isl (emit (context_handle ctx) notice) then StatusUnavailable else StatusOk),
       message = None\<rparr>, world)"
  by (auto simp: answer_stream_def answer_poke_def split: sum.splits)

text \<open>The demo's policy refuses every subscription below \<^verbatim>\<open>forbidden/\<close>, whoever asks.\<close>

lemma forbidden_topics_refused:
  assumes "topic_try_from (as_bytes name) = Inr topic" and "starts_with (as_str topic) ''forbidden/''"
    and "member_identity c r = Some ident"
  shows "authorized_topic c (as_bytes name) deny_forbidden r = Inl (refusal PermissionDenied)"
  using assms by (simp add: authorized_topic_def deny_forbidden_def)

end
