(* ===== verification/Demo_Servers.thy ===== *)
theory Demo_Servers
  imports Servers Relay
begin

text \<open>
  The demo's two servers: the payload processor (\<^verbatim>\<open>examples/pubsub_processor_server.rs\<close> of
  \<^verbatim>\<open>pubsub/tightbeam-pubsub\<close>) and the start-up, dialing and connection service of the pub/sub demo server
  (\<^verbatim>\<open>examples/pubsub_demo_server.rs\<close>), whose relay is in \<open>Relay\<close>. JSON, Unicode case mapping and the sealing
  frame builder are upstream: the fields of \<open>note_api\<close>.
\<close>

section \<open>Lossy text\<close>

text \<open>\<^verbatim>\<open>String::from_utf8_lossy\<close>: every maximal invalid part becomes one replacement character.\<close>

definition REPLACEMENT :: string where "REPLACEMENT = [CHR 0xEF, CHR 0xBF, CHR 0xBD]"

fun from_utf8_lossy :: "bytes \<Rightarrow> string" where
  "from_utf8_lossy [] = []"
| "from_utf8_lossy (b # bs) =
     (case utf8_char b bs of
        Inr w \<Rightarrow> str_of_bytes (b # take (w - 1) bs) @ from_utf8_lossy (drop (w - 1) bs)
      | Inl (Some n) \<Rightarrow> REPLACEMENT @ from_utf8_lossy (drop (n - 1) bs)
      | Inl None \<Rightarrow> REPLACEMENT)"

lemma from_utf8_lossy_valid: "run_utf8_validation i bs = Inr () \<Longrightarrow> from_utf8_lossy bs = str_of_bytes bs"
proof (induction i bs rule: run_utf8_validation.induct)
  case (2 i b bs)
  then obtain w where w: "utf8_char b bs = Inr w" "run_utf8_validation (i + w) (drop (w - 1) bs) = Inr ()"
    by (auto split: sum.splits)
  have "str_of_bytes (b # take (w - 1) bs) @ str_of_bytes (drop (w - 1) bs) = str_of_bytes (b # bs)"
    by (simp add: str_of_bytes_def flip: map_append)
  with 2(1) [OF w] w(1) show ?case by simp
qed (simp add: str_of_bytes_def)

section \<open>The processor\<close>

record ('v, 'o, 's, 'f) note_api =
  json_from_slice :: "bytes \<Rightarrow> string + 'v"
  json_to_vec :: "'v \<Rightarrow> string + bytes"
  as_object :: "'v \<Rightarrow> 'o option"
  of_object :: "'o \<Rightarrow> 'v"
  object_get :: "'o \<Rightarrow> string \<Rightarrow> 'v option"
  object_insert :: "'o \<Rightarrow> string \<Rightarrow> 'v \<Rightarrow> 'o"
  value_as_str :: "'v \<Rightarrow> string option"
  value_string :: "string \<Rightarrow> 'v"
  to_uppercase :: "string \<Rightarrow> string"
  inner_from_der :: "bytes \<Rightarrow> tightbeam_error + 'f"
  aes_provider :: "bytes \<Rightarrow> bytes \<Rightarrow> tightbeam_error + 's"
  build_sealed_v1 :: "string \<Rightarrow> u64 \<Rightarrow> opaque_body \<Rightarrow> 's \<Rightarrow> tightbeam_error + 'f"

definition sealed_command_frame ::
  "'f frame_api \<Rightarrow> ('v, 'o, 's, 'f) note_api \<Rightarrow> string \<Rightarrow> u64 \<Rightarrow> bytes \<Rightarrow> bytes \<Rightarrow> bytes \<Rightarrow> tightbeam_error + 'f" where
  "sealed_command_frame api lib ident order payload kek kek_id =
     and_then (octet_string_new api payload) (\<lambda>octets.
     and_then (aes_provider lib kek kek_id) (\<lambda>sealer.
       build_sealed_v1 lib ident order \<lparr>body = octets\<rparr> sealer))"

definition PROCESSED_TOPIC_KEY :: bytes where "PROCESSED_TOPIC_KEY = replicate 32 7"
definition PROCESSED_TOPIC_KEY_ID :: bytes where "PROCESSED_TOPIC_KEY_ID = as_bytes ''pubsub-demo-processed''"

text \<open>A boxed error is its display text.\<close>

definition transformed :: "'f frame_api \<Rightarrow> ('v, 'o, 's, 'f) note_api \<Rightarrow> bytes \<Rightarrow> string + bytes" where
  "transformed api lib payload =
     and_then (map_err error_text (inner_from_der lib payload)) (\<lambda>inner.
     and_then (map_err error_text (opaque_payload api inner)) (\<lambda>body.
     and_then (json_from_slice lib body) (\<lambda>note.
     and_then (ok_or ''the note payload must be a JSON object'' (as_object lib note)) (\<lambda>object.
     and_then (ok_or ''the note has no text field'' (Option.bind (object_get lib object ''text'') (value_as_str lib))) (\<lambda>txt.
       let uppercased = to_uppercase lib txt;
           note = of_object lib (object_insert lib object ''text'' (value_string lib uppercased));
           ident = from_utf8_lossy (metadata_id api inner);
           order = metadata_order api inner
       in and_then (json_to_vec lib note) (\<lambda>note.
          and_then (map_err error_text
            (sealed_command_frame api lib ident order note PROCESSED_TOPIC_KEY PROCESSED_TOPIC_KEY_ID)) (\<lambda>rebuilt.
            map_err error_text (frame_to_der api rebuilt))))))))"

definition process_stream :: "'f frame_api \<Rightarrow> ('v, 'o, 's, 'f) note_api \<Rightarrow> 'f \<Rightarrow> 'f response_package" where
  "process_stream api lib frame =
     (case opaque_payload api frame of
        Inl _ \<Rightarrow> \<lparr>status = InvalidArgument, message = None\<rparr>
      | Inr payload \<Rightarrow>
          (case transformed api lib payload of
             Inl _ \<Rightarrow> \<lparr>status = InvalidArgument, message = None\<rparr>
           | Inr processed \<Rightarrow>
               (let ident = from_utf8_lossy (metadata_id api frame)
                in case command_frame api ident (metadata_order api frame) processed of
                     Inr reply \<Rightarrow> \<lparr>status = StatusOk, message = Some reply\<rparr>
                   | Inl _ \<Rightarrow> \<lparr>status = Internal, message = None\<rparr>)))"

definition processor_serve_connection ::
  "(('i, 'k, 'c) provisioned, 'h, 'm, 'e) mux_api \<Rightarrow> environment \<Rightarrow> u32 \<Rightarrow> demo_paywall option \<Rightarrow>
   ('i, 'k, 'c) ws_transport \<Rightarrow> ('e + unit) \<times> driver_task list" where
  "processor_serve_connection mux env cap auth transport =
     (case serve_handshake mux (provision env cap auth transport) of
        Inl e \<Rightarrow> (Inl e, [])
      | Inr t \<Rightarrow>
          (case assemble_mux mux t MuxServer of
             Inl e \<Rightarrow> (Inl e, [])
           | Inr m \<Rightarrow> serve_driven mux UnaryBody m))"

text \<open>The two pub/sub servers check clients under the paywall only.\<close>

definition required_client_auth where
  "required_client_auth api pin_clients env w paywall config =
     (if paywall
      then and_then (ok_or (BoxText ''TBWS_PAYWALL requires TBWS_CLIENT_CERT (mutual auth)'') (env ''TBWS_CLIENT_CERT'')) (\<lambda>path.
           and_then (client_validators api pin_clients path w) (\<lambda>validators.
             Inr (config\<lparr>client_validators_of := validators\<rparr>)))
      else Inr config)"

definition server_authorizer where
  "server_authorizer octet_string env paywall =
     (if paywall then and_then (map_err BoxTightbeam (paywall_shared octet_string env)) (\<lambda>a. Inr (Some a)) else Inr None)"

definition processor_start ::
  "('cert, 'key, 'ident, 'trust, 'tb, 'os, 'w) identity_api \<Rightarrow> ('cert, 'tb, 'val) pinning \<Rightarrow> (bytes \<Rightarrow> wire_error + bytes) \<Rightarrow>
   ('a, 'l, 't, 'c, ('ident, 'val) encryption_config, 'os, 'i, 'k, 'w) network \<Rightarrow> environment \<Rightarrow> 'w \<Rightarrow>
   (('os, 'tb) box_error + ('l, 'c) started) \<times> 'w" where
  "processor_start api pin_clients octet_string net env w =
     (let port = env_u32 env ''PUBSUB_PROCESSOR_PORT'' 9111;
          cap = env_u32 env ''MUX_STREAMS'' 8;
          paywall = paywall_enabled env;
          settings =
            and_then (map_err BoxOs (parse_addr net (''0.0.0.0:'' @ index_name (unat port)))) (\<lambda>bind_addr.
            and_then (map_err BoxFixture (identity_from_env api env w)) (\<lambda>ident.
            and_then (map_err BoxFixture (server_config api ident)) (\<lambda>config.
            and_then (required_client_auth api pin_clients env w paywall config) (\<lambda>config.
            and_then (server_authorizer octet_string env paywall) (\<lambda>auth.
              Inr (bind_addr, config, auth))))))
      in case settings of
           Inl e \<Rightarrow> (Inl e, w)
         | Inr (bind_addr, config, auth) \<Rightarrow>
             (case bind_with net bind_addr config w of
                (Inl e, w') \<Rightarrow> (Inl (BoxStream e), w')
              | (Inr (l, bound), w') \<Rightarrow>
                  (Inr \<lparr>listener = l, peer_streams = cap, authorizer = auth, auth_mode = []\<rparr>, w')))"

definition processor_main_loop where
  "processor_main_loop mux net env srv n w =
     (let (s, w') = accept_loop net (listener srv) n (serving_start, w)
      in (map (\<lambda>(t, peer). processor_serve_connection mux env (peer_streams srv) (authorizer srv) t) (accepted_connections s), w'))"

section \<open>The demo server\<close>

definition wallet_shared :: "(bytes \<Rightarrow> wire_error + bytes) \<Rightarrow> nat \<Rightarrow> wire_error + wallet" where
  "wallet_shared octet_string payments = wallet_with_payments octet_string payments"

text \<open>The relay's client transport: what it offers, and the wallet that pays its invoices.\<close>

record ('i, 'k, 'c) dialed_transport = "('i, 'k, 'c) ws_transport" +
  dialed_offer :: "transport_offer option"
  receipt_approver :: "wallet option"

record ('trust, 'ident, 'i, 'k, 'c, 'm, 'os) dial_api =
  adopt_stream :: "'trust \<Rightarrow> 'ident option \<Rightarrow> ('i, 'k) ws_stream \<Rightarrow> 'os stream_error + ('i, 'k, 'c) ws_transport"
  client_handshake :: "('i, 'k, 'c) dialed_transport \<Rightarrow> 'os stream_error + ('i, 'k, 'c) dialed_transport"
  dialed_mux :: "('i, 'k, 'c) dialed_transport \<Rightarrow> mux_role \<Rightarrow> 'os stream_error + 'm"

text \<open>The settings of the dial once the socket is open, up to the handshake.\<close>

definition relay_transport ::
  "('cert, 'key, 'ident, 'trust, 'tb, 'os, 'w) identity_api \<Rightarrow> ('trust, 'ident, 'i, 'k, 'c, 'm, 'os) dial_api \<Rightarrow>
   (bytes \<Rightarrow> wire_error + bytes) \<Rightarrow> environment \<Rightarrow> u32 \<Rightarrow> bool \<Rightarrow> ('cert, 'key) identity \<Rightarrow> 'trust \<Rightarrow> ('i, 'k) ws_stream \<Rightarrow>
   ('os, 'tb) box_error + ('i, 'k, 'c) dialed_transport" where
  "relay_transport api dial octet_string env cap paywall client trust stream =
     (let offer = session_terms env cap paywall
      in and_then (if paywall then and_then (map_err BoxFixture (signing_identity api client)) (\<lambda>i. Inr (Some i)) else Inr None) (\<lambda>ident.
         and_then (map_err BoxStream (adopt_stream dial trust ident stream)) (\<lambda>adopted.
           let transport = ws_transport.extend adopted \<lparr>dialed_offer = Some offer, receipt_approver = None\<rparr>
           in if paywall
              then and_then (map_err BoxTightbeam (wallet_shared octet_string 1024)) (\<lambda>purse.
                     Inr (transport\<lparr>receipt_approver := Some purse\<rparr>))
              else Inr transport)))"

definition relay_connect ::
  "('cert, 'key, 'ident, 'trust, 'tb, 'os, 'w) identity_api \<Rightarrow> ('trust, 'ident, 'i, 'k, 'c, 'm, 'os) dial_api \<Rightarrow>
   (bytes \<Rightarrow> wire_error + bytes) \<Rightarrow> ('a, 'l, 't, 'c, 'enc, 'os, 'i, 'k, 'w) network \<Rightarrow> environment \<Rightarrow> string \<Rightarrow> string \<Rightarrow> u32 \<Rightarrow>
   bool \<Rightarrow> ('cert, 'key) identity \<Rightarrow> 'w \<Rightarrow> (('os, 'tb) box_error + nat relay) \<times> 'w" where
  "relay_connect api dial octet_string net env endpoint cert_path cap paywall client w =
     (case and_then (map_err BoxOs (fs_read api w cert_path)) (\<lambda>der. map_err BoxFixture (pinned_trust api der)) of
        Inl e \<Rightarrow> (Inl e, w)
      | Inr trust \<Rightarrow>
          (case ws_connect net endpoint (default_ws_config net) w of
             (Inl e, w') \<Rightarrow> (Inl (BoxWs e), w')
           | (Inr (src, k), w') \<Rightarrow>
               (and_then (relay_transport api dial octet_string env cap paywall client trust (ws_stream_new src k)) (\<lambda>transport.
                and_then (map_err BoxStream (client_handshake dial transport)) (\<lambda>transport.
                and_then (map_err BoxStream (dialed_mux dial transport MuxClient)) (\<lambda>m. Inr relay_spawned))), w')))"

record ('l, 'c) demo_started = "('l, 'c) started" +
  demo_options :: registry_options
  demo_relay :: "nat relay option"

definition demo_commands :: "nat \<Rightarrow> pubsub_commands" where
  "demo_commands node = with_publish allow_all_publish (commands_new node deny_forbidden)"

definition demo_registry_options :: "environment \<Rightarrow> registry_options" where
  "demo_registry_options env =
     default_options\<lparr>queue_capacity := unat (env_u32 env ''PUBSUB_QUEUE_CAPACITY'' 32),
       max_subscriptions_per_connection := unat (env_u32 env ''PUBSUB_MAX_SUBSCRIPTIONS'' 64)\<rparr>"

definition demo_backplane where
  "demo_backplane api dial octet_string net env cap paywall w =
     (case env ''PUBSUB_PROCESSOR_ENDPOINT'' of
        None \<Rightarrow> (Inr None, w)
      | Some endpoint \<Rightarrow>
          (case and_then (ok_or BoxVar (env ''PUBSUB_PROCESSOR_CERT'')) (\<lambda>cert_path.
                and_then (relay_client_identity api env w) (\<lambda>client. Inr (cert_path, client))) of
             Inl e \<Rightarrow> (Inl e, w)
           | Inr (cert_path, client) \<Rightarrow>
               (let (r, w') = relay_connect api dial octet_string net env endpoint cert_path cap paywall client w
                in (and_then r (\<lambda>relay. Inr (Some relay)), w'))))"

definition demo_start ::
  "('cert, 'key, 'ident, 'trust, 'tb, 'os, 'w) identity_api \<Rightarrow> ('cert, 'tb, 'val) pinning \<Rightarrow> (bytes \<Rightarrow> wire_error + bytes) \<Rightarrow>
   ('trust, 'ident, 'i, 'k, 'c, 'm, 'os) dial_api \<Rightarrow>
   ('a, 'l, 't, 'c, ('ident, 'val) encryption_config, 'os, 'i, 'k, 'w) network \<Rightarrow> environment \<Rightarrow> 'w \<Rightarrow>
   (('os, 'tb) box_error + ('l, 'c) demo_started) \<times> 'w" where
  "demo_start api pin_clients octet_string dial net env w =
     (let port = env_u32 env ''PUBSUB_WS_PORT'' 9110;
          cap = env_u32 env ''MUX_STREAMS'' 8;
          paywall = paywall_enabled env
      in case and_then (map_err BoxOs (parse_addr net (''0.0.0.0:'' @ index_name (unat port)))) (\<lambda>bind_addr.
              and_then (map_err BoxFixture (identity_from_env api env w)) (\<lambda>ident. Inr (bind_addr, ident))) of
           Inl e \<Rightarrow> (Inl e, w)
         | Inr (bind_addr, ident) \<Rightarrow>
             (case demo_backplane api dial octet_string net env cap paywall w of
                (Inl e, w1) \<Rightarrow> (Inl e, w1)
              | (Inr relay, w1) \<Rightarrow>
                  (case and_then (map_err BoxFixture (server_config api ident)) (\<lambda>config.
                        and_then (required_client_auth api pin_clients env w1 paywall config) (\<lambda>config.
                        and_then (server_authorizer octet_string env paywall) (\<lambda>auth. Inr (config, auth)))) of
                     Inl e \<Rightarrow> (Inl e, w1)
                   | Inr (config, auth) \<Rightarrow>
                       (case bind_with net bind_addr config w1 of
                          (Inl e, w2) \<Rightarrow> (Inl (BoxStream e), w2)
                        | (Inr (l, bound), w2) \<Rightarrow>
                            (Inr \<lparr>listener = l, peer_streams = cap, authorizer = auth, auth_mode = [],
                                demo_options = demo_registry_options env, demo_relay = relay\<rparr>, w2)))))"

definition serve_ws_connection ::
  "(('i, 'k, 'c) provisioned, 'halves, 'm, transport_error) mux_api \<Rightarrow> 'f frame_api \<Rightarrow>
   ('h \<Rightarrow> 'f \<Rightarrow> transport_error + 'f option) \<Rightarrow> environment \<Rightarrow> pubsub_commands \<Rightarrow> u32 \<Rightarrow> demo_paywall option \<Rightarrow> 'h \<Rightarrow>
   ((('h, 'f) world \<Rightarrow> ('h, 'f) world) \<times> 'f) list \<Rightarrow> (('h, 'f) world \<Rightarrow> ('h, 'f) world) \<Rightarrow> transport_error + unit \<Rightarrow>
   ('i, 'k, 'c) ws_transport \<Rightarrow> ('h, 'f) world \<Rightarrow> (transport_error + unit) \<times> ('h, 'f) world" where
  "serve_ws_connection mux api emit env commands cap auth h events rest outcome transport world =
     (case serve_handshake mux (provision env cap auth transport) of
        Inl e \<Rightarrow> (Inl e, world)
      | Inr t \<Rightarrow>
          (case assemble_mux mux t MuxServer of
             Inl e \<Rightarrow> (Inl e, world)
           | Inr m \<Rightarrow>
               (let (result, responses, running, world') =
                  serve_connection api commands h (answer_stream api emit) events rest outcome world
                in (result, world'))))"

text \<open>The demo server's connections share one registry: after \<open>n\<close> iterations, each with the commands it is served under.\<close>

definition demo_main_loop where
  "demo_main_loop net srv node n w =
     (let (s, w') = accept_loop net (listener srv) n (serving_start, w)
      in (map (\<lambda>(t, peer). (t, peer, demo_commands node)) (accepted_connections s), w'))"

section \<open>What the processor answers\<close>

text \<open>
  The processor answers with a frame exactly when the note could be transformed and the answer built;
  the answer keeps the request's id and order and carries the transformed frame. Every other request
  is refused without a frame.
\<close>

lemma process_stream_decides:
  assumes "frame_api_laws api" and "opaque_payload api frame = Inr payload"
    and "run_utf8_validation 0 (metadata_id api frame) = Inr ()"
  shows "case message (process_stream api lib frame) of
      Some reply \<Rightarrow> status (process_stream api lib frame) = StatusOk \<and>
        metadata_id api reply = metadata_id api frame \<and> metadata_order api reply = metadata_order api frame \<and>
        opaque_payload api reply = map_err TightBeamError (transformed api lib payload)
    | None \<Rightarrow> (case transformed api lib payload of
        Inl _ \<Rightarrow> status (process_stream api lib frame) = InvalidArgument
      | Inr _ \<Rightarrow> status (process_stream api lib frame) = Internal)"
proof (cases "transformed api lib payload")
  case (Inr processed)
  have ident: "as_bytes (from_utf8_lossy (metadata_id api frame)) = metadata_id api frame"
    using from_utf8_lossy_valid [OF assms(3)] by simp
  show ?thesis
  proof (cases "command_frame api (from_utf8_lossy (metadata_id api frame)) (metadata_order api frame) processed")
    case reply: (Inr reply)
    with build_carries [OF assms(1) reply [unfolded command_frame_def]] show ?thesis
      by (simp add: process_stream_def assms(2) Inr ident)
  qed (simp add: process_stream_def assms(2) Inr)
qed (simp add: process_stream_def assms(2))

text \<open>
  One note the processor refuses closes the relay: the link is healthy and the processor has
  answered, but its answer holds no frame, which ends the worker; the requests behind it are lost and
  every later publish, of any topic, is refused. \<open>link\<close> is what \<^verbatim>\<open>emit_on_stream\<close> makes of a response
  package: without a frame in the package it returns none.
\<close>

lemma refused_note_closes_relay:
  fixes api :: "'f frame_api" and lib :: "('v, 'o, 's, 'f) note_api"
    and link :: "'f response_package \<Rightarrow> (string + 'f option) option"
  assumes run: "relay_run upgrade send api tr r" and pc: "relay_pc r = Processing t p"
    and request: "command_frame api (as_str t) 1 p = Inr request" and laws: "frame_api_laws api"
    and refused: "transformed api lib p = Inl e"
    and link: "\<And>resp reply. message resp = None \<Longrightarrow> link resp \<noteq> Some (Inr (Some reply))"
  shows "\<exists>cause r'. relay_run upgrade send api (tr @ [ProcessorFailed t p cause]) r' \<and> requests r' = [] \<and>
    (\<forall>u q. relay_publish u q r' = (Inl (Unavailable RELAY_CLOSED), r'))"
proof -
  let ?emit = "\<lambda>frame. link (process_stream api lib frame)"
  have "opaque_payload api request = Inr p" using build_carries [OF laws] request by (simp add: command_frame_def)
  then have "message (process_stream api lib request) = None" using refused by (simp add: process_stream_def)
  then have "?emit request \<noteq> Some (Inr (Some reply))" for reply using link by blast
  then have "\<exists>cause. process api ?emit t p = Inl cause"
    using request by (cases "process api ?emit t p") (auto simp: process_def result_simps)
  then obtain cause where cause: "process api ?emit t p = Inl cause" ..
  let ?r = "r\<lparr>requests := [], relay_pc := RelayStopped\<rparr>"
  have "relay_run upgrade send api (tr @ [ProcessorFailed t p cause]) ?r"
    by (rule run_failed [OF run pc cause, where w = undefined and w' = undefined]) (simp add: relay_settle_def)
  then show ?thesis by (intro exI [of _ cause] exI [of _ ?r]) (simp add: relay_publish_def)
qed

section \<open>The paywall\<close>

lemma required_client_auth_pins:
  "required_client_auth api pin_clients env w True config = Inr config' \<Longrightarrow> pins_client api pin_clients env w config'"
  by (auto simp: required_client_auth_def pins_client_def result_simps dest!: client_validators_pin)

lemma server_authorizer_shared:
  "server_authorizer octet_string env True = Inr auth \<Longrightarrow> \<exists>a. paywall_shared octet_string env = Inr a \<and> auth = Some a"
  by (auto simp: server_authorizer_def result_simps)

lemma processor_start_paywalled:
  assumes "processor_start api pin_clients octet_string net env w = (Inr srv, w1)" and "paywall_enabled env"
  shows "\<exists>config addr bound a. pins_client api pin_clients env w config \<and>
    bind_with net addr config w = (Inr (listener srv, bound), w1) \<and>
    paywall_shared octet_string env = Inr a \<and> authorizer srv = Some a"
  using assms
  by (auto simp: processor_start_def Let_def result_simps split: sum.splits prod.splits
      dest!: required_client_auth_pins server_authorizer_shared) blast

lemma demo_start_paywalled:
  assumes "demo_start api pin_clients octet_string dial net env w = (Inr srv, w2)" and "paywall_enabled env"
  shows "\<exists>config addr bound a w1. pins_client api pin_clients env w1 config \<and>
    bind_with net addr config w1 = (Inr (listener srv, bound), w2) \<and>
    paywall_shared octet_string env = Inr a \<and> authorizer srv = Some a"
  using assms
  by (auto simp: demo_start_def Let_def result_simps split: sum.splits prod.splits
      dest!: required_client_auth_pins server_authorizer_shared) blast


text \<open>A server whose second of three connections fails its upgrade. The network's state counts the calls.\<close>

definition example_network ::
  "(string, unit, nat, (bytes \<times> u8, bytes) encryption_config, (bytes \<times> u8, bytes) encryption_config, unit, unit, unit,
    u8 \<times> (string \<Rightarrow> bytes option)) network" where
  "example_network =
     \<lparr>tcp_bind = (\<lambda>a w. (Inr (), w)), tcp_local_addr = (\<lambda>l. Inr ''0.0.0.0:9111''),
      tcp_accept = (\<lambda>l (n, fs). (Inr (unat n, ''peer''), n + 1, fs)),
      ws_accept = (\<lambda>tcp config w. (if tcp = 8 then Inl (WsIo ()) else Inr ([], ()), w)),
      ws_connect = (\<lambda>url config w. (Inr ([], ()), w)), show_addr = (\<lambda>a. a), parse_addr = Inr,
      cleartext_config = \<lparr>presented = ([], 0), client_validators_of = []\<rparr>, config_of_encryption = Inr,
      max_envelope = (\<lambda>c. 1024), default_envelope = 1024,
      default_ws_config = \<lparr>max_message_size = None, max_frame_size = None\<rparr>\<rparr>"

definition example_files :: "string \<Rightarrow> bytes option" where
  "example_files = [''s.der'' \<mapsto> [1], ''s.key'' \<mapsto> replicate 32 2, ''c.der'' \<mapsto> [3]]"

definition example_env :: environment where
  "example_env = [''TBWS_PAYWALL'' \<mapsto> ''1'', ''TBWS_SERVER_CERT'' \<mapsto> ''s.der'', ''TBWS_SERVER_KEY'' \<mapsto> ''s.key'', ''TBWS_CLIENT_CERT'' \<mapsto> ''c.der'']"

definition example_started :: "(unit, (bytes \<times> u8, bytes) encryption_config) started" where
  "example_started =
     \<lparr>listener = \<lparr>tcp_listener = (), listener_config = \<lparr>presented = ([1], 2), client_validators_of = [[3]]\<rparr>\<rparr>, peer_streams = 8,
      authorizer = Some \<lparr>invoice = DEMO_INVOICE, expected_payment = DEMO_PAYMENT, ceiling = budget_ceiling example_env\<rparr>, auth_mode = []\<rparr>"

lemma example_paywall: "paywall_enabled example_env"
  by (simp add: paywall_enabled_def example_env_def) code_simp

lemma example_processor_start:
  "processor_start example_identity_api (\<lambda>cs. Inr (hd cs)) Inr example_network example_env (7, example_files) =
     (Inr example_started, 7, example_files)"
proof -
  have env: "example_env ''MUX_STREAMS'' = None" "example_env ''PUBSUB_PROCESSOR_PORT'' = None"
    "example_env SERVER_CERT_ENV = Some ''s.der''" "example_env SERVER_KEY_ENV = Some ''s.key''"
    "example_env ''TBWS_CLIENT_CERT'' = Some ''c.der''"
    by (simp_all add: example_env_def SERVER_CERT_ENV_def SERVER_KEY_ENV_def)
  have files: "fs_read example_identity_api (7, example_files) ''s.der'' = Inr [1]"
    "fs_read example_identity_api (7, example_files) ''s.key'' = Inr (replicate 32 2)"
    "fs_read example_identity_api (7, example_files) ''c.der'' = Inr [3]"
    by (simp_all add: example_identity_api_def example_files_def)
  have ident: "identity_from_env example_identity_api example_env (7, example_files) = Inr \<lparr>certificate = [1], signing_key = 2\<rparr>"
    by (simp add: identity_from_env_def required_path_def env files ok_or_def key_array_def SIGNING_KEY_LEN_def
        identity_from_der_def load_identity_def) (simp add: example_identity_api_def)
  have config: "server_config example_identity_api \<lparr>certificate = [1], signing_key = 2\<rparr> =
      Inr \<lparr>presented = ([1], 2), client_validators_of = []\<rparr>"
    by (simp add: server_config_def signing_identity_def example_identity_api_def)
  have auth: "required_client_auth example_identity_api (\<lambda>cs. Inr (hd cs)) example_env (7, example_files) True
      \<lparr>presented = ([1], 2), client_validators_of = []\<rparr> = Inr \<lparr>presented = ([1], 2), client_validators_of = [[3]]\<rparr>"
    by (simp add: required_client_auth_def env ok_or_def client_validators_def files) (simp add: example_identity_api_def)
  have pay: "server_authorizer Inr example_env True =
      Inr (Some \<lparr>invoice = DEMO_INVOICE, expected_payment = DEMO_PAYMENT, ceiling = budget_ceiling example_env\<rparr>)"
    by (simp add: server_authorizer_def paywall_shared_def paywall_open_def)
  show ?thesis
    by (simp add: processor_start_def example_paywall ident config auth pay env_u32_def env)
       (simp add: example_network_def bind_with_def bind_socket_def example_started_def)
qed


end
