(* ===== verification/Work_Gateway.thy ===== *)
theory Work_Gateway
  imports Servers
begin

text \<open>
  The work-plane gateway of the end-to-end stack (\<^verbatim>\<open>ws/tightbeam-ws/examples/work_gateway_server.rs\<close>): the probe
  servlet's handler, the configurations, and the start-up that fills the identity slot before anything
  serves. The colony runtime and the signature calls are upstream: the fields of \<open>probe_api\<close> and
  \<open>colony_api\<close>.
\<close>

section \<open>The probe servlet\<close>

definition hex_digit :: "nat \<Rightarrow> char" where
  "hex_digit n = (if n < 10 then char_of (48 + n) else char_of (87 + n))"

definition hex_string :: "bytes \<Rightarrow> string" where
  "hex_string b = concat (map (\<lambda>x. [hex_digit (unat x div 16), hex_digit (unat x mod 16)]) b)"

text \<open>The error of the handler: an upstream error, or \<^verbatim>\<open>MissingConfiguration\<close>.\<close>

datatype 'tb probe_error = MissingConfiguration | ProbeFailed 'tb

record ('cert, 'ident, 'peer, 'tb, 'f) probe_api =
  peer_parse :: "'cert \<Rightarrow> 'tb + 'peer"
  frame_verify :: "'f \<Rightarrow> 'peer \<Rightarrow> 'tb + unit"
  frame_ident :: "'f \<Rightarrow> bytes"
  work_octets :: "bytes \<Rightarrow> 'tb + bytes"
  compose_v1 :: "bytes \<Rightarrow> bytes \<Rightarrow> 'tb + 'f"
  sign_frame :: "'f \<Rightarrow> 'ident \<Rightarrow> 'tb + 'f"

definition signature_verifies :: "('cert, 'ident, 'peer, 'tb, 'f) probe_api \<Rightarrow> ('cert, 'key) identity \<Rightarrow> 'f \<Rightarrow> bool" where
  "signature_verifies probe i frame =
     (case peer_parse probe (certificate i) of
        Inr peer \<Rightarrow> \<not> isl (frame_verify probe frame peer)
      | Inl _ \<Rightarrow> False)"

definition pong :: "bytes \<Rightarrow> bool \<Rightarrow> string" where
  "pong payload valid = ''pong:'' @ hex_string payload @ '':'' @ (if valid then ''true'' else ''false'')"

text \<open>The handler: \<open>req\<close> is the body of the request, \<open>slot\<close> what \<^verbatim>\<open>WORK_IDENTITY\<close> holds.\<close>

definition work_probe ::
  "('cert, 'key, 'ident, 'trust, 'tb, 'os, 'w) identity_api \<Rightarrow> ('cert, 'ident, 'peer, 'tb, 'f) probe_api \<Rightarrow>
   ('cert, 'key) identity option \<Rightarrow> bytes \<Rightarrow> 'f \<Rightarrow> 'tb probe_error + 'f option" where
  "work_probe api probe slot req frame =
     (case slot of
        None \<Rightarrow> Inl MissingConfiguration
      | Some i \<Rightarrow>
          (let signature_valid = signature_verifies probe i frame
           in and_then (map_err ProbeFailed (work_octets probe (as_bytes (pong req signature_valid)))) (\<lambda>reply.
              and_then (map_err ProbeFailed (compose_v1 probe (frame_ident probe frame) reply)) (\<lambda>draft.
              and_then (map_err (\<lambda>_. MissingConfiguration)
                (signing_identity api i :: ('os, 'tb) fixture_error + 'ident)) (\<lambda>signer.
              and_then (map_err ProbeFailed (sign_frame probe draft signer)) (\<lambda>sealed. Inr (Some sealed)))))))"

section \<open>Configurations\<close>

record ('ident, 'trust) cluster_config =
  cluster_identity :: 'ident
  hive_trust :: "'trust option"
  colony_bind :: "string option"
  edge_bind :: "string option"
  cluster_offer :: "transport_offer option"

record ('ident, 'trust) hive_config =
  hive_identity :: "'ident option"
  hive_trust_store :: "'trust option"
  hive_offer :: "transport_offer option"

record 'ident servlet_config =
  servlet_identity :: 'ident
  servlet_offer :: "transport_offer option"

definition cluster_conf where
  "cluster_conf api i port =
     and_then (signing_identity api i) (\<lambda>ident.
     and_then (trust_anchor api i) (\<lambda>trust.
       Inr \<lparr>cluster_identity = ident, hive_trust = Some trust, colony_bind = Some ''127.0.0.1:0'',
            edge_bind = Some (''0.0.0.0:'' @ index_name (unat (port :: u32))), cluster_offer = Some (offer_mux 8)\<rparr>))"

definition hive_conf where
  "hive_conf api i =
     and_then (signing_identity api i) (\<lambda>ident.
     and_then (trust_anchor api i) (\<lambda>trust.
       Inr \<lparr>hive_identity = Some ident, hive_trust_store = Some trust, hive_offer = Some (offer_mux 8)\<rparr>))"

definition servlet_conf where
  "servlet_conf api i =
     and_then (signing_identity api i) (\<lambda>ident. Inr \<lparr>servlet_identity = ident, servlet_offer = Some (offer_mux 8)\<rparr>)"

section \<open>Start-up\<close>

record ('ident, 'trust, 'gw, 'sv, 'hive, 'urn, 'addr, 'tb) colony_api =
  gateway_start :: "('ident, 'trust) cluster_config \<Rightarrow> 'tb + 'gw"
  servlet_start :: "'ident servlet_config \<Rightarrow> 'tb + 'sv"
  hive_new :: "('ident, 'trust) hive_config \<Rightarrow> 'tb + 'hive"
  colony_servlet :: "string \<Rightarrow> 'tb + 'urn"
  hive_register :: "'hive \<Rightarrow> 'urn \<Rightarrow> 'sv \<Rightarrow> 'tb + 'hive"
  hive_establish :: "'hive \<Rightarrow> 'tb + 'hive"
  register_with_cluster :: "'hive \<Rightarrow> 'addr \<Rightarrow> 'tb + transit_status"
  gateway_addr :: "'gw \<Rightarrow> 'addr"
  gateway_edge_addr :: "'gw \<Rightarrow> 'addr option"
  show_status :: "transit_status \<Rightarrow> string"

definition servlet_urn where
  "servlet_urn colony name = map_err BoxCert (colony_servlet colony name)"

text \<open>\<^verbatim>\<open>OnceLock::set\<close> keeps the first value.\<close>

definition once_set :: "'a \<Rightarrow> 'a option \<Rightarrow> 'a option" where
  "once_set v slot = (case slot of None \<Rightarrow> Some v | Some u \<Rightarrow> Some u)"

text \<open>
  \<^verbatim>\<open>main\<close> from an empty slot to the point where it only waits. With the result comes what each started
  component could read from the slot when it was started.
\<close>

datatype component = GatewayUp | ServletUp | HiveUp

fun start_chain :: "('e + 'a) \<Rightarrow> ('a \<Rightarrow> ('e + 'b) \<times> 'l list) \<Rightarrow> ('e + 'b) \<times> 'l list" where
  "start_chain (Inl e) k = (Inl e, [])"
| "start_chain (Inr x) k = k x"

definition logged :: "'l \<Rightarrow> ('e + 'b) \<times> 'l list \<Rightarrow> ('e + 'b) \<times> 'l list" where
  "logged l r = (fst r, l # snd r)"

definition gateway_main ::
  "('cert, 'key, 'ident, 'trust, 'tb, 'os, 'w) identity_api \<Rightarrow> ('ident, 'trust, 'gw, 'sv, 'hive, 'urn, 'addr, 'tb) colony_api \<Rightarrow>
   environment \<Rightarrow> 'w \<Rightarrow>
   (('os, 'tb) box_error + 'addr \<times> 'addr) \<times> (component \<times> ('cert, 'key) identity option) list" where
  "gateway_main api colony env w =
     (let port = env_u32 env ''ECHO_WS_PORT'' 9104 in
      start_chain (map_err BoxFixture (identity_from_env api env w)) (\<lambda>i.
      start_chain (load_work_identity api env w) (\<lambda>work.
      let slot = once_set work None in
      start_chain (map_err BoxFixture (cluster_conf api i port)) (\<lambda>conf.
      start_chain (map_err BoxCert (gateway_start colony conf)) (\<lambda>gateway. logged (GatewayUp, slot) (
      start_chain (map_err BoxFixture (servlet_conf api i)) (\<lambda>conf.
      start_chain (map_err BoxCert (servlet_start colony conf)) (\<lambda>servlet. logged (ServletUp, slot) (
      start_chain (map_err BoxFixture (hive_conf api i)) (\<lambda>conf.
      start_chain (map_err BoxCert (hive_new colony conf)) (\<lambda>hive.
      start_chain (servlet_urn colony ''work-probe'') (\<lambda>urn.
      start_chain (map_err BoxCert (hive_register colony hive urn servlet)) (\<lambda>hive.
      start_chain (map_err BoxCert (hive_establish colony hive)) (\<lambda>hive. logged (HiveUp, slot) (
      start_chain (map_err BoxCert (register_with_cluster colony hive (gateway_addr colony gateway))) (\<lambda>st.
      if st \<noteq> TransitOk then (Inl (BoxText (''hive registration failed with status '' @ show_status colony st)), [])
      else start_chain (ok_or (BoxText ''edge plane did not bind'') (gateway_edge_addr colony gateway)) (\<lambda>edge.
        (Inr (gateway_addr colony gateway, edge), []))))))))))))))))))"

section \<open>Properties\<close>

lemma start_chain_log:
  "c \<in> set (snd (start_chain r k)) \<Longrightarrow> \<exists>x. r = Inr x \<and> c \<in> set (snd (k x))"
  by (cases r) auto

lemma logged_log: "set (snd (logged l r)) = insert l (set (snd r))"
  by (simp add: logged_def)

text \<open>
  The slot is full before anything serves: whichever step of the start-up fails, every component that
  was started finds the work identity that was loaded from the files, so the handler's early
  return on an empty slot is never taken.
\<close>

lemma gateway_slot_is_full:
  assumes "(c, slot) \<in> set (snd (gateway_main api colony env w))"
  shows "\<exists>work. slot = Some work \<and> load_work_identity api env w = Inr work"
  using assms
  by (auto simp: gateway_main_def Let_def once_set_def logged_log dest!: start_chain_log split: if_splits)

lemma probe_failed_not_missing [simp]: "map_err ProbeFailed r \<noteq> Inl MissingConfiguration"
  by (cases r) simp_all

lemma work_probe_configured:
  assumes "signing_identity api i = (Inr signer :: ('os, 'tb) fixture_error + 'ident)"
  shows "work_probe (api :: ('cert, 'key, 'ident, 'trust, 'tb, 'os, 'w) identity_api) probe (Some i) req frame \<noteq> Inl MissingConfiguration"
  using assms by (auto simp: work_probe_def Let_def result_simps)

text \<open>The rendering loses nothing: the reply tells the payload and the verdict apart from every other.\<close>

lemma hex_digit_inj: "n < 16 \<Longrightarrow> m < 16 \<Longrightarrow> hex_digit n = hex_digit m \<longleftrightarrow> n = m"
proof -
  have "list_all (\<lambda>n. list_all (\<lambda>m. hex_digit n = hex_digit m \<longleftrightarrow> n = m) [0 ..< 16]) [0 ..< 16]" by code_simp
  then show "n < 16 \<Longrightarrow> m < 16 \<Longrightarrow> ?thesis" by (simp add: list_all_iff)
qed

lemma nibble_bound: "unat (z :: u8) div 16 < 16"
  using unsigned_less [of z] by (simp add: div_less_iff_less_mult)

lemma hex_string_length [simp]: "length (hex_string b) = 2 * length b"
  by (induction b) (simp_all add: hex_string_def)

lemma hex_string_Cons: "hex_string (x # b) = hex_digit (unat x div 16) # hex_digit (unat x mod 16) # hex_string b"
  by (simp add: hex_string_def)

lemma hex_string_inj: "hex_string a = hex_string b \<longleftrightarrow> a = b"
proof
  show "hex_string a = hex_string b \<Longrightarrow> a = b"
  proof (induction a arbitrary: b)
    case Nil
    then have "length (hex_string b) = 0" by (simp add: hex_string_def)
    then show ?case by simp
  next
    case (Cons x a)
    have "length (hex_string b) = length (hex_string (x # a))" using Cons.prems by simp
    then obtain y c where b: "b = y # c" by (cases b) auto
    from Cons.prems have "unat x div 16 = unat y div 16" "unat x mod 16 = unat y mod 16" "hex_string a = hex_string c"
      by (simp_all add: b hex_string_Cons hex_digit_inj nibble_bound)
    then have "unat x = unat y" by (metis div_mult_mod_eq)
    then have "x = y" by (rule unsigned_word_eqI)
    then show ?case using Cons.IH \<open>hex_string a = hex_string c\<close> b by simp
  qed
qed simp

lemma hex_string_no_colon: "CHR '':'' \<notin> set (hex_string b)"
proof -
  have "list_all (\<lambda>n. hex_digit n \<noteq> CHR '':'') [0 ..< 16]" by code_simp
  then have digit: "n < 16 \<Longrightarrow> CHR '':'' \<noteq> hex_digit n" for n by (auto simp: list_all_iff)
  show ?thesis
  proof (induction b)
    case (Cons x b)
    then show ?case using digit [OF nibble_bound [of x]] digit [of "unat x mod 16"] by (simp add: hex_string_Cons)
  qed (simp add: hex_string_def)
qed

lemma pong_injective: "pong p v = pong q u \<longleftrightarrow> p = q \<and> v = u"
proof
  assume eq: "pong p v = pong q u"
  have "takeWhile (\<lambda>c. c \<noteq> CHR '':'') (drop 5 (pong x y)) = hex_string x" for x y
    using hex_string_no_colon [of x] by (auto simp: pong_def takeWhile_append2 takeWhile_append)
  then have "p = q" using eq hex_string_inj by metis
  with eq show "p = q \<and> v = u" by (auto simp: pong_def split: if_splits)
qed simp

end
