(* ===== verification/Asn_Codec.thy ===== *)
theory Asn_Codec
  imports Js_Value
begin

text \<open>
  What the code generated by \<^verbatim>\<open>#[derive(AsnCodec)]\<close> computes
  (\<^verbatim>\<open>asn/tightbeam-asn-derive/src/lib.rs\<close>): the functions \<^verbatim>\<open>from_js\<close> and \<^verbatim>\<open>to_js\<close> of a wire type, by
  the kinds of its fields. A \<^verbatim>\<open>quote!\<close> block is modelled by the meaning of the code it emits: one
  function per emitter, with one equation per field kind. A wire type is a declaration in
  \<open>decls\<close>, looked up by its path; a Rust value is a tree of tagged values.
\<close>

section \<open>Wire types and values\<close>

text \<open>The part of \<^verbatim>\<open>syn\<close>'s paths and types the derive looks at.\<close>

datatype ty = TypePath "segment list" | TypeOther
and segment = Segment string path_arguments
and path_arguments = ArgsNone | AngleBracketed "generic_argument list" | Parenthesized
and generic_argument = ArgType ty | ArgConst const_expr | ArgOther
and const_expr = ExprLit nat | ExprPath string

type_synonym path = "segment list"

datatype field_kind =
    KBool
  | KNull
  | KU8
  | KU16
  | KU32
  | KU64
  | KI8
  | KI16
  | KI32
  | KI64
  | KString
  | KIa5String
  | KPrintableString
  | KTeletexString
  | KBmpString
  | KOctetString
  | KBitString
  | KObjectIdentifier
  | KAny
  | KUtcTime
  | KGeneralizedTime
  | KNested path
  | KOption field_kind
  | KVec field_kind
  | KSetOfVec field_kind
  | KSequenceOf field_kind const_expr
  | KSetOf field_kind const_expr

text \<open>
  A derived wire type: a struct with its fields, a \<^verbatim>\<open>#[repr(u8)]\<close> enum with the discriminants
  \<^verbatim>\<open>der\<close>'s \<^verbatim>\<open>TryFrom<u8>\<close> accepts, or a choice with the payload type of every variant.
\<close>

datatype decl =
    Sequence "(string \<times> field_kind) list"
  | Enumerated "u8 list"
  | Choice "(string \<times> path) list"

datatype 'd rust_value =
    RBool bool
  | RNull
  | RU8 "8 word"
  | RU16 "16 word"
  | RU32 "32 word"
  | RU64 "64 word"
  | RI8 "8 word"
  | RI16 "16 word"
  | RI32 "32 word"
  | RI64 "64 word"
  | RString string
  | ROpaque 'd
  | ROption "'d rust_value option"
  | RList "'d rust_value list"
  | RStruct "(string \<times> 'd rust_value) list"
  | REnum u8
  | RVariant string "'d rust_value"

text \<open>
  The surroundings of the generated code: the \<^verbatim>\<open>der\<close> crate, the wire types in scope, the values of
  constants used as lengths, and the container operations of \<^verbatim>\<open>der\<close>: \<^verbatim>\<open>SetOfVec::try_from\<close>,
  \<^verbatim>\<open>SequenceOf::add\<close> and \<^verbatim>\<open>SetOf::insert\<close>.
\<close>

record 'd surroundings =
  der :: "'d der_api"
  decls :: "path \<Rightarrow> decl option"
  const_values :: "string \<Rightarrow> nat"
  set_of_vec :: "'d rust_value list \<Rightarrow> der_error + 'd rust_value list"
  sequence_of_add :: "nat \<Rightarrow> 'd rust_value list \<Rightarrow> 'd rust_value \<Rightarrow> der_error + 'd rust_value list"
  set_of_insert :: "nat \<Rightarrow> 'd rust_value list \<Rightarrow> 'd rust_value \<Rightarrow> der_error + 'd rust_value list"

fun len_of :: "'d surroundings \<Rightarrow> const_expr \<Rightarrow> nat" where
  "len_of g (ExprLit n) = n"
| "len_of g (ExprPath c) = const_values g c"

section \<open>Reading\<close>

text \<open>The leaf rows of \<^verbatim>\<open>quote_from_value\<close> and \<^verbatim>\<open>quote_from\<close>.\<close>

definition leaf :: "('a \<Rightarrow> 'd rust_value) \<Rightarrow> der_error + 'a \<Rightarrow> der_error + 'd rust_value" where
  "leaf wrap r = and_then r (\<lambda>x. Inr (wrap x))"

fun leaf_from_value :: "'d der_api \<Rightarrow> field_kind \<Rightarrow> js_value \<Rightarrow> der_error + 'd rust_value" where
  "leaf_from_value d KBool v = leaf RBool (as_bool v)"
| "leaf_from_value d KNull v = leaf (\<lambda>_. RNull) (as_null v)"
| "leaf_from_value d KU8 v = leaf RU8 (as_u8 v)"
| "leaf_from_value d KU16 v = leaf RU16 (as_u16 v)"
| "leaf_from_value d KU32 v = leaf RU32 (as_u32 v)"
| "leaf_from_value d KU64 v = leaf RU64 (as_u64 v)"
| "leaf_from_value d KI8 v = leaf RI8 (as_i8 v)"
| "leaf_from_value d KI16 v = leaf RI16 (as_i16 v)"
| "leaf_from_value d KI32 v = leaf RI32 (as_i32 v)"
| "leaf_from_value d KI64 v = leaf RI64 (as_i64 v)"
| "leaf_from_value d KString v = leaf RString (as_string v)"
| "leaf_from_value d KIa5String v = leaf ROpaque (as_ia5_string d v)"
| "leaf_from_value d KPrintableString v = leaf ROpaque (as_printable_string d v)"
| "leaf_from_value d KTeletexString v = leaf ROpaque (as_teletex_string d v)"
| "leaf_from_value d KBmpString v = leaf ROpaque (as_bmp_string d v)"
| "leaf_from_value d KOctetString v = leaf ROpaque (and_then (as_octets v) (octets_new d))"
| "leaf_from_value d KBitString v = leaf ROpaque (as_bitstring d v)"
| "leaf_from_value d KObjectIdentifier v = leaf ROpaque (as_oid d v)"
| "leaf_from_value d KAny v = leaf ROpaque (as_any d v)"
| "leaf_from_value d KUtcTime v = leaf ROpaque (as_utc_time d v)"
| "leaf_from_value d KGeneralizedTime v = leaf ROpaque (as_generalized_time d v)"
| "leaf_from_value d _ v = Inl Failed"

fun leaf_from_field :: "'d der_api \<Rightarrow> field_kind \<Rightarrow> string \<Rightarrow> js_value \<Rightarrow> der_error + 'd rust_value" where
  "leaf_from_field d KBool key v = leaf RBool (bool_field v key)"
| "leaf_from_field d KNull key v = leaf (\<lambda>_. RNull) (null_field v key)"
| "leaf_from_field d KU8 key v = leaf RU8 (u8_field v key)"
| "leaf_from_field d KU16 key v = leaf RU16 (u16_field v key)"
| "leaf_from_field d KU32 key v = leaf RU32 (u32_field v key)"
| "leaf_from_field d KU64 key v = leaf RU64 (u64_field v key)"
| "leaf_from_field d KI8 key v = leaf RI8 (i8_field v key)"
| "leaf_from_field d KI16 key v = leaf RI16 (i16_field v key)"
| "leaf_from_field d KI32 key v = leaf RI32 (i32_field v key)"
| "leaf_from_field d KI64 key v = leaf RI64 (i64_field v key)"
| "leaf_from_field d KString key v = leaf RString (string_field v key)"
| "leaf_from_field d KIa5String key v = leaf ROpaque (ia5_string_field d v key)"
| "leaf_from_field d KPrintableString key v = leaf ROpaque (printable_string_field d v key)"
| "leaf_from_field d KTeletexString key v = leaf ROpaque (teletex_string_field d v key)"
| "leaf_from_field d KBmpString key v = leaf ROpaque (bmp_string_field d v key)"
| "leaf_from_field d KOctetString key v = leaf ROpaque (and_then (octet_field v key) (octets_new d))"
| "leaf_from_field d KBitString key v = leaf ROpaque (bitstring_field d v key)"
| "leaf_from_field d KObjectIdentifier key v = leaf ROpaque (oid_field d v key)"
| "leaf_from_field d KAny key v = leaf ROpaque (any_field d v key)"
| "leaf_from_field d KUtcTime key v = leaf ROpaque (utc_time_field d v key)"
| "leaf_from_field d KGeneralizedTime key v = leaf ROpaque (generalized_time_field d v key)"
| "leaf_from_field d _ key v = Inl Failed"

text \<open>The element loops of \<^verbatim>\<open>SequenceOf\<close> and \<^verbatim>\<open>SetOf\<close>: read an element, then add it.\<close>

fun read_into :: "('b list \<Rightarrow> 'b \<Rightarrow> 'e + 'b list) \<Rightarrow> ('a \<Rightarrow> 'e + 'b) \<Rightarrow> 'a list \<Rightarrow> 'b list \<Rightarrow> 'e + 'b list" where
  "read_into add read [] acc = Inr acc"
| "read_into add read (x # xs) acc =
     and_then (read x) (\<lambda>y. and_then (add acc y) (\<lambda>acc. read_into add read xs acc))"

lemma read_into_cong [fundef_cong]:
  "xs = ys \<Longrightarrow> add = add' \<Longrightarrow> acc = acc' \<Longrightarrow> (\<And>x. x \<in> set ys \<Longrightarrow> read x = read' x) \<Longrightarrow>
   read_into add read xs acc = read_into add' read' ys acc'"
proof (induction xs arbitrary: ys acc acc')
  case (Cons x xs)
  from Cons.prems(1) obtain zs where ys: "ys = x # zs" "xs = zs" by auto
  with Cons.prems(4) have "read x = read' x" and "\<And>z. z \<in> set zs \<Longrightarrow> read z = read' z" by auto
  then have "read_into add' read zs = read_into add' read' zs"
    using Cons.IH [OF ys(2) Cons.prems(2) refl] Cons.prems(2) ys(2) by (intro ext) simp
  with \<open>read x = read' x\<close> ys Cons.prems(2,3) show ?case by simp
qed simp

text \<open>The order in which reading descends: into smaller values, then into smaller kinds.\<close>

fun reading_measure ::
  "('d surroundings \<times> path \<times> js_value) +
   (('d surroundings \<times> field_kind \<times> js_value) + ('d surroundings \<times> field_kind \<times> string \<times> js_value)) \<Rightarrow>
   nat \<times> nat" where
  "reading_measure (Inl (g, p, v)) = (js_weight v, 1)"
| "reading_measure (Inr (Inl (g, kind, v))) = (js_weight v, size kind + 2)"
| "reading_measure (Inr (Inr (g, kind, key, v))) = (js_weight v, 0)"

text \<open>
  The emitted readers, mutually recursive through nested wire types. \<open>from_value\<close> is
  \<^verbatim>\<open>quote_from_value\<close>, \<open>from_field\<close> is \<^verbatim>\<open>quote_from\<close>, and \<open>from_js\<close> the trait method. The value gets
  smaller at every property and element, which is why reading ends.
\<close>

function (sequential) from_js :: "'d surroundings \<Rightarrow> path \<Rightarrow> js_value \<Rightarrow> der_error + 'd rust_value"
and from_value :: "'d surroundings \<Rightarrow> field_kind \<Rightarrow> js_value \<Rightarrow> der_error + 'd rust_value"
and from_field :: "'d surroundings \<Rightarrow> field_kind \<Rightarrow> string \<Rightarrow> js_value \<Rightarrow> der_error + 'd rust_value" where
  "from_js g p v =
     (case decls g p of
        None \<Rightarrow> Inl Failed
      | Some (Sequence fs) \<Rightarrow>
          and_then (map_result (\<lambda>(key, kind). and_then (from_field g kind key v) (\<lambda>x. Inr (key, x))) fs)
            (\<lambda>init. Inr (RStruct init))
      | Some (Enumerated discriminants) \<Rightarrow>
          and_then (as_u8 v) (\<lambda>n. if n \<in> set discriminants then Inr (REnum n) else Inl Failed)
      | Some (Choice variants) \<Rightarrow>
          and_then (single_entry v) (\<lambda>(key, entry).
            case map_of variants key of
              None \<Rightarrow> Inl Failed
            | Some payload \<Rightarrow> and_then (from_js g payload entry) (\<lambda>x. Inr (RVariant key x))))"
| "from_value g (KNested p) v = from_js g p v"
| "from_value g (KOption kind) v =
     (if is_nullish v then Inr (ROption None)
      else and_then (from_value g kind v) (\<lambda>x. Inr (ROption (Some x))))"
| "from_value g (KVec kind) v =
     and_then (as_array v) (\<lambda>vs. and_then (map_result (from_value g kind) vs) (\<lambda>items. Inr (RList items)))"
| "from_value g (KSetOfVec kind) v =
     and_then (as_array v) (\<lambda>vs. and_then (map_result (from_value g kind) vs) (\<lambda>items.
     and_then (set_of_vec g items) (\<lambda>set'. Inr (RList set'))))"
| "from_value g (KSequenceOf kind len) v =
     and_then (as_array_len v (len_of g len)) (\<lambda>vs.
     and_then (read_into (sequence_of_add g (len_of g len)) (from_value g kind) vs []) (\<lambda>seq. Inr (RList seq)))"
| "from_value g (KSetOf kind len) v =
     and_then (as_array_len v (len_of g len)) (\<lambda>vs.
     and_then (read_into (set_of_insert g (len_of g len)) (from_value g kind) vs []) (\<lambda>set'. Inr (RList set')))"
| "from_value g kind v = leaf_from_value (der g) kind v"
| "from_field g (KNested p) key v = and_then (object_field v key) (\<lambda>nested. from_js g p nested)"
| "from_field g (KOption kind) key v =
     and_then (optional_field v key) (\<lambda>found. case found of
         None \<Rightarrow> Inr (ROption None)
       | Some present \<Rightarrow> and_then (from_value g kind present) (\<lambda>x. Inr (ROption (Some x))))"
| "from_field g (KVec kind) key v =
     and_then (array_field v key) (\<lambda>vs. and_then (map_result (from_value g kind) vs) (\<lambda>items. Inr (RList items)))"
| "from_field g (KSetOfVec kind) key v =
     and_then (array_field v key) (\<lambda>vs. and_then (map_result (from_value g kind) vs) (\<lambda>items.
     and_then (set_of_vec g items) (\<lambda>set'. Inr (RList set'))))"
| "from_field g (KSequenceOf kind len) key v =
     and_then (array_field v key) (\<lambda>vs.
       if length vs \<noteq> len_of g len then Inl Failed
       else and_then (read_into (sequence_of_add g (len_of g len)) (from_value g kind) vs []) (\<lambda>seq. Inr (RList seq)))"
| "from_field g (KSetOf kind len) key v =
     and_then (array_field v key) (\<lambda>vs.
       if length vs \<noteq> len_of g len then Inl Failed
       else and_then (read_into (set_of_insert g (len_of g len)) (from_value g kind) vs []) (\<lambda>set'. Inr (RList set')))"
| "from_field g kind key v = leaf_from_field (der g) kind key v"
  by pat_completeness auto

termination
  by (relation "inv_image (less_than <*lex*> less_than) reading_measure")
     (auto dest: weight_field weight_array weight_array_len weight_array_field weight_single)

section \<open>Writing\<close>

text \<open>
  The leaf rows of \<^verbatim>\<open>quote_to_value\<close> and \<^verbatim>\<open>quote_to\<close>. A value that does not fit its kind does not
  occur: the Rust compiler rules it out.
\<close>

fun leaf_to_value :: "'d der_api \<Rightarrow> field_kind \<Rightarrow> 'd rust_value \<Rightarrow> der_error + js_value" where
  "leaf_to_value d KBool r = (case r of RBool b \<Rightarrow> Inr (from_bool b) | _ \<Rightarrow> Inl Failed)"
| "leaf_to_value d KNull r = (case r of RNull \<Rightarrow> Inr (from_null ()) | _ \<Rightarrow> Inl Failed)"
| "leaf_to_value d KU8 r = (case r of RU8 w \<Rightarrow> Inr (from_u8 w) | _ \<Rightarrow> Inl Failed)"
| "leaf_to_value d KU16 r = (case r of RU16 w \<Rightarrow> Inr (from_u16 w) | _ \<Rightarrow> Inl Failed)"
| "leaf_to_value d KU32 r = (case r of RU32 w \<Rightarrow> Inr (from_u32 w) | _ \<Rightarrow> Inl Failed)"
| "leaf_to_value d KU64 r = (case r of RU64 w \<Rightarrow> Inr (from_u64 w) | _ \<Rightarrow> Inl Failed)"
| "leaf_to_value d KI8 r = (case r of RI8 w \<Rightarrow> Inr (from_i8 w) | _ \<Rightarrow> Inl Failed)"
| "leaf_to_value d KI16 r = (case r of RI16 w \<Rightarrow> Inr (from_i16 w) | _ \<Rightarrow> Inl Failed)"
| "leaf_to_value d KI32 r = (case r of RI32 w \<Rightarrow> Inr (from_i32 w) | _ \<Rightarrow> Inl Failed)"
| "leaf_to_value d KI64 r = (case r of RI64 w \<Rightarrow> Inr (from_i64 w) | _ \<Rightarrow> Inl Failed)"
| "leaf_to_value d KString r = (case r of RString s \<Rightarrow> Inr (JString s) | _ \<Rightarrow> Inl Failed)"
| "leaf_to_value d KIa5String r = (case r of ROpaque x \<Rightarrow> Inr (from_ia5_string d x) | _ \<Rightarrow> Inl Failed)"
| "leaf_to_value d KPrintableString r = (case r of ROpaque x \<Rightarrow> Inr (from_printable_string d x) | _ \<Rightarrow> Inl Failed)"
| "leaf_to_value d KTeletexString r = (case r of ROpaque x \<Rightarrow> Inr (from_teletex_string d x) | _ \<Rightarrow> Inl Failed)"
| "leaf_to_value d KBmpString r = (case r of ROpaque x \<Rightarrow> Inr (from_bmp_string d x) | _ \<Rightarrow> Inl Failed)"
| "leaf_to_value d KOctetString r = (case r of ROpaque x \<Rightarrow> Inr (from_octets (octets_bytes d x)) | _ \<Rightarrow> Inl Failed)"
| "leaf_to_value d KBitString r = (case r of ROpaque x \<Rightarrow> from_bitstring d x | _ \<Rightarrow> Inl Failed)"
| "leaf_to_value d KObjectIdentifier r = (case r of ROpaque x \<Rightarrow> Inr (from_oid d x) | _ \<Rightarrow> Inl Failed)"
| "leaf_to_value d KAny r = (case r of ROpaque x \<Rightarrow> from_any d x | _ \<Rightarrow> Inl Failed)"
| "leaf_to_value d KUtcTime r = (case r of ROpaque x \<Rightarrow> Inr (from_utc_time d x) | _ \<Rightarrow> Inl Failed)"
| "leaf_to_value d KGeneralizedTime r = (case r of ROpaque x \<Rightarrow> Inr (from_generalized_time d x) | _ \<Rightarrow> Inl Failed)"
| "leaf_to_value d _ r = Inl Failed"

fun leaf_to_field :: "'d der_api \<Rightarrow> field_kind \<Rightarrow> string \<Rightarrow> 'd rust_value \<Rightarrow> js_value \<Rightarrow> der_error + js_value" where
  "leaf_to_field d KBool key r obj = (case r of RBool b \<Rightarrow> set_bool obj key b | _ \<Rightarrow> Inl Failed)"
| "leaf_to_field d KNull key r obj = (case r of RNull \<Rightarrow> set_null obj key () | _ \<Rightarrow> Inl Failed)"
| "leaf_to_field d KU8 key r obj = (case r of RU8 w \<Rightarrow> set_u8 obj key w | _ \<Rightarrow> Inl Failed)"
| "leaf_to_field d KU16 key r obj = (case r of RU16 w \<Rightarrow> set_u16 obj key w | _ \<Rightarrow> Inl Failed)"
| "leaf_to_field d KU32 key r obj = (case r of RU32 w \<Rightarrow> set_u32 obj key w | _ \<Rightarrow> Inl Failed)"
| "leaf_to_field d KU64 key r obj = (case r of RU64 w \<Rightarrow> set_u64 obj key w | _ \<Rightarrow> Inl Failed)"
| "leaf_to_field d KI8 key r obj = (case r of RI8 w \<Rightarrow> set_i8 obj key w | _ \<Rightarrow> Inl Failed)"
| "leaf_to_field d KI16 key r obj = (case r of RI16 w \<Rightarrow> set_i16 obj key w | _ \<Rightarrow> Inl Failed)"
| "leaf_to_field d KI32 key r obj = (case r of RI32 w \<Rightarrow> set_i32 obj key w | _ \<Rightarrow> Inl Failed)"
| "leaf_to_field d KI64 key r obj = (case r of RI64 w \<Rightarrow> set_i64 obj key w | _ \<Rightarrow> Inl Failed)"
| "leaf_to_field d KString key r obj = (case r of RString s \<Rightarrow> set_string obj key s | _ \<Rightarrow> Inl Failed)"
| "leaf_to_field d KIa5String key r obj = (case r of ROpaque x \<Rightarrow> set_ia5_string d obj key x | _ \<Rightarrow> Inl Failed)"
| "leaf_to_field d KPrintableString key r obj = (case r of ROpaque x \<Rightarrow> set_printable_string d obj key x | _ \<Rightarrow> Inl Failed)"
| "leaf_to_field d KTeletexString key r obj = (case r of ROpaque x \<Rightarrow> set_teletex_string d obj key x | _ \<Rightarrow> Inl Failed)"
| "leaf_to_field d KBmpString key r obj = (case r of ROpaque x \<Rightarrow> set_bmp_string d obj key x | _ \<Rightarrow> Inl Failed)"
| "leaf_to_field d KOctetString key r obj = (case r of ROpaque x \<Rightarrow> set_octets obj key (octets_bytes d x) | _ \<Rightarrow> Inl Failed)"
| "leaf_to_field d KBitString key r obj = (case r of ROpaque x \<Rightarrow> set_bitstring d obj key x | _ \<Rightarrow> Inl Failed)"
| "leaf_to_field d KObjectIdentifier key r obj = (case r of ROpaque x \<Rightarrow> set_oid d obj key x | _ \<Rightarrow> Inl Failed)"
| "leaf_to_field d KAny key r obj = (case r of ROpaque x \<Rightarrow> set_any d obj key x | _ \<Rightarrow> Inl Failed)"
| "leaf_to_field d KUtcTime key r obj = (case r of ROpaque x \<Rightarrow> set_utc_time d obj key x | _ \<Rightarrow> Inl Failed)"
| "leaf_to_field d KGeneralizedTime key r obj = (case r of ROpaque x \<Rightarrow> set_generalized_time d obj key x | _ \<Rightarrow> Inl Failed)"
| "leaf_to_field d _ key r obj = Inl Failed"

text \<open>A measure on Rust values, for the recursion of the writers.\<close>

fun rust_weight :: "'d rust_value \<Rightarrow> nat" where
  "rust_weight (ROption (Some x)) = Suc (rust_weight x)"
| "rust_weight (RList xs) = Suc (sum_list (map rust_weight xs))"
| "rust_weight (RStruct xs) = Suc (sum_list (map (\<lambda>e. rust_weight (snd e)) xs))"
| "rust_weight (RVariant key x) = Suc (rust_weight x)"
| "rust_weight _ = 0"

lemma weight_item: "x \<in> set xs \<Longrightarrow> rust_weight x < Suc (sum_list (map rust_weight xs))"
  by (simp add: less_Suc_eq_le member_le_sum_list)

lemma weight_struct_field:
  "map_of xs key = Some x \<Longrightarrow> rust_weight x < Suc (sum_list (map (\<lambda>e. rust_weight (snd e)) xs))"
proof -
  assume "map_of xs key = Some x"
  then have "rust_weight x \<in> set (map (\<lambda>e. rust_weight (snd e)) xs)" by (force dest: map_of_SomeD)
  then show ?thesis by (simp add: less_Suc_eq_le member_le_sum_list)
qed

fun writing_measure ::
  "(('d surroundings \<times> path \<times> 'd rust_value) +
    ('d surroundings \<times> (string \<times> field_kind) list \<times> (string \<times> 'd rust_value) list \<times> js_value)) +
   (('d surroundings \<times> field_kind \<times> 'd rust_value) +
    ('d surroundings \<times> field_kind \<times> string \<times> 'd rust_value \<times> js_value)) \<Rightarrow> nat \<times> nat \<times> nat" where
  "writing_measure (Inl (Inl (g, p, r))) = (rust_weight r, 1, 0)"
| "writing_measure (Inl (Inr (g, fs, xs, obj))) =
     (Suc (sum_list (map (\<lambda>e. rust_weight (snd e)) xs)), 0, length fs)"
| "writing_measure (Inr (Inl (g, kind, r))) = (rust_weight r, 2, size kind)"
| "writing_measure (Inr (Inr (g, kind, key, r, obj))) = (rust_weight r, 2, size kind)"

text \<open>
  The emitted writers: \<open>to_value\<close> is \<^verbatim>\<open>quote_to_value\<close>, \<open>to_field\<close> is \<^verbatim>\<open>quote_to\<close>, and \<open>to_js\<close> the trait
  method, whose \<^verbatim>\<open>#(#to_fields)*\<close> statements are \<open>set_fields\<close>.
\<close>

function (sequential) to_js :: "'d surroundings \<Rightarrow> path \<Rightarrow> 'd rust_value \<Rightarrow> der_error + js_value"
and set_fields :: "'d surroundings \<Rightarrow> (string \<times> field_kind) list \<Rightarrow> (string \<times> 'd rust_value) list \<Rightarrow>
    js_value \<Rightarrow> der_error + js_value"
and to_value :: "'d surroundings \<Rightarrow> field_kind \<Rightarrow> 'd rust_value \<Rightarrow> der_error + js_value"
and to_field :: "'d surroundings \<Rightarrow> field_kind \<Rightarrow> string \<Rightarrow> 'd rust_value \<Rightarrow> js_value \<Rightarrow> der_error + js_value" where
  "to_js g p r =
     (case decls g p of
        None \<Rightarrow> Inl Failed
      | Some (Sequence fs) \<Rightarrow>
          (case r of RStruct xs \<Rightarrow> and_then object (\<lambda>obj. set_fields g fs xs obj) | _ \<Rightarrow> Inl Failed)
      | Some (Enumerated discriminants) \<Rightarrow> (case r of REnum n \<Rightarrow> Inr (from_u8 n) | _ \<Rightarrow> Inl Failed)
      | Some (Choice variants) \<Rightarrow>
          (case r of
             RVariant key x \<Rightarrow>
               (case map_of variants key of
                  None \<Rightarrow> Inl Failed
                | Some payload \<Rightarrow>
                    and_then object (\<lambda>obj. and_then (to_js g payload x) (\<lambda>nested. set_object obj key nested)))
           | _ \<Rightarrow> Inl Failed))"
| "set_fields g [] xs obj = Inr obj"
| "set_fields g ((key, kind) # fs) xs obj =
     (case map_of xs key of
        None \<Rightarrow> Inl Failed
      | Some x \<Rightarrow> and_then (to_field g kind key x obj) (\<lambda>obj'. set_fields g fs xs obj'))"
| "to_value g (KNested p) r = to_js g p r"
| "to_value g (KOption kind) r =
     (case r of
        ROption (Some x) \<Rightarrow> to_value g kind x
      | ROption None \<Rightarrow> Inr JNull
      | _ \<Rightarrow> Inl Failed)"
| "to_value g (KVec kind) r =
     (case r of
        RList xs \<Rightarrow> and_then (map_result (to_value g kind) xs) (\<lambda>vs. Inr (JArray vs))
      | _ \<Rightarrow> Inl Failed)"
| "to_value g (KSetOfVec kind) r =
     (case r of
        RList xs \<Rightarrow> and_then (map_result (to_value g kind) xs) (\<lambda>vs. Inr (JArray vs))
      | _ \<Rightarrow> Inl Failed)"
| "to_value g (KSequenceOf kind len) r =
     (case r of
        RList xs \<Rightarrow> and_then (map_result (to_value g kind) xs) (\<lambda>vs. Inr (JArray vs))
      | _ \<Rightarrow> Inl Failed)"
| "to_value g (KSetOf kind len) r =
     (case r of
        RList xs \<Rightarrow> and_then (map_result (to_value g kind) xs) (\<lambda>vs. Inr (JArray vs))
      | _ \<Rightarrow> Inl Failed)"
| "to_value g kind r = leaf_to_value (der g) kind r"
| "to_field g (KNested p) key r obj = and_then (to_js g p r) (\<lambda>nested. set_object obj key nested)"
| "to_field g (KOption kind) key r obj =
     (case r of
        ROption (Some x) \<Rightarrow> and_then (to_value g kind x) (\<lambda>nested. set_object obj key nested)
      | ROption None \<Rightarrow> Inr obj
      | _ \<Rightarrow> Inl Failed)"
| "to_field g (KVec kind) key r obj =
     (case r of
        RList xs \<Rightarrow> and_then (map_result (to_value g kind) xs) (\<lambda>vs. set_array obj key vs)
      | _ \<Rightarrow> Inl Failed)"
| "to_field g (KSetOfVec kind) key r obj =
     (case r of
        RList xs \<Rightarrow> and_then (map_result (to_value g kind) xs) (\<lambda>vs. set_array obj key vs)
      | _ \<Rightarrow> Inl Failed)"
| "to_field g (KSequenceOf kind len) key r obj =
     (case r of
        RList xs \<Rightarrow> and_then (map_result (to_value g kind) xs) (\<lambda>vs. set_array obj key vs)
      | _ \<Rightarrow> Inl Failed)"
| "to_field g (KSetOf kind len) key r obj =
     (case r of
        RList xs \<Rightarrow> and_then (map_result (to_value g kind) xs) (\<lambda>vs. set_array obj key vs)
      | _ \<Rightarrow> Inl Failed)"
| "to_field g kind key r obj = leaf_to_field (der g) kind key r obj"
  by pat_completeness auto
termination
  by (relation "inv_image (less_than <*lex*> less_than <*lex*> less_than) writing_measure")
     (auto dest: weight_item weight_struct_field)

declare from_js.simps [simp del] to_js.simps [simp del]

end
