(* ===== verification/Asn_Roundtrip.thy ===== *)
theory Asn_Roundtrip
  imports Asn_Codec
begin

text \<open>
  The round trip of the generated codecs: every value of a wire type, written with \<^verbatim>\<open>to_js\<close> and read
  back with \<^verbatim>\<open>from_js\<close>, is the value again. \<open>js_codec\<close> is the contract of one codec, interpreted on
  the leaf helpers and on the readers and writers of every field kind.
\<close>

section \<open>The contract\<close>

text \<open>An element loop reads back what it wrote when every element does.\<close>

lemma map_result_back:
  assumes "\<forall>x \<in> set xs. \<exists>v. put x = Inr v \<and> get v = Inr x"
  shows "\<exists>vs. map_result put xs = Inr vs \<and> map_result get vs = Inr xs"
  using assms
proof (induction xs)
  case (Cons x xs)
  then obtain v vs where "put x = Inr v" "get v = Inr x" "map_result put xs = Inr vs" "map_result get vs = Inr xs"
    by auto
  then show ?case by (intro exI [of _ "v # vs"]) simp
qed simp

locale js_codec =
  fixes valid :: "'a \<Rightarrow> bool" and put :: "'a \<Rightarrow> 'e + js_value" and get :: "js_value \<Rightarrow> 'e + 'a"
  assumes gives_back: "valid x \<Longrightarrow> \<exists>v. put x = Inr v \<and> get v = Inr x"
begin

lemma put_total: "valid x \<Longrightarrow> \<exists>v. put x = Inr v"
  using gives_back by blast

lemma put_inj: "valid x \<Longrightarrow> valid y \<Longrightarrow> put x = put y \<Longrightarrow> x = y"
  using gives_back [of x] gives_back [of y] by auto

lemma list_back: "list_all valid xs \<Longrightarrow> \<exists>vs. map_result put xs = Inr vs \<and> map_result get vs = Inr xs"
  by (rule map_result_back) (auto simp: list_all_iff dest: gives_back)

end

section \<open>Leaves\<close>

lemma uint_bound: "0 \<le> uint (w :: 'w::len word)" "uint w < 2 ^ LENGTH('w)"
  by (simp_all add: unsigned_less)

lemma unsigned_back:
  fixes w :: "'w::len word"
  assumes "most = of_int (2 ^ LENGTH('w) - 1)"
  shows "as_unsigned most (JNumber (number_of_unsigned w)) = Inr w"
proof -
  have "uint w \<le> 2 ^ LENGTH('w) - 1" using uint_bound(2) [of w] by simp
  then have "(of_int (uint w) :: rat) \<le> most" unfolding assms by (subst of_int_le_iff)
  then show ?thesis
    unfolding as_unsigned_Inr number_of_unsigned_def by (intro exI [of _ "uint w"]) simp
qed

lemma signed_back:
  fixes w :: "'w::len word"
  assumes "least = of_int (- (2 ^ (LENGTH('w) - 1)))" and "most = of_int (2 ^ (LENGTH('w) - 1) - 1)"
  shows "as_signed least most (JNumber (number_of_signed w)) = Inr w"
proof -
  have "- (2 ^ (LENGTH('w) - 1)) \<le> sint w" and "sint w \<le> 2 ^ (LENGTH('w) - 1) - 1"
    using sint_ge [of w] sint_lt [of w] by simp_all
  then have "least \<le> (of_int (sint w) :: rat)" and "(of_int (sint w) :: rat) \<le> most"
    unfolding assms by (simp_all only: of_int_le_iff)
  then show ?thesis
    unfolding as_signed_Inr number_of_signed_def by (intro exI [of _ "sint w"]) simp
qed

lemma unsigned_iff:
  fixes w :: "'w::len word"
  assumes "most = of_int (2 ^ LENGTH('w) - 1)"
  shows "as_unsigned most v = Inr w \<longleftrightarrow> v = JNumber (number_of_unsigned w)"
proof
  assume "as_unsigned most v = Inr w"
  then obtain i where i: "v = JNumber (Finite (of_int i))" "0 \<le> i" "(of_int i :: rat) \<le> most" "w = word_of_int i"
    by (auto simp: as_unsigned_Inr)
  then have "i \<le> 2 ^ LENGTH('w) - 1" unfolding assms by (simp only: of_int_le_iff)
  with i have "uint w = i" by (simp add: uint_word_of_int)
  with i(1) show "v = JNumber (number_of_unsigned w)" by (simp add: number_of_unsigned_def)
qed (simp add: unsigned_back [OF assms])

lemma sint_in_range:
  "- (2 ^ (LENGTH('w) - 1)) \<le> i \<Longrightarrow> i < 2 ^ (LENGTH('w) - 1) \<Longrightarrow> sint (word_of_int i :: 'w::len word) = i"
  by (simp add: sint_sbintrunc' signed_take_bit_int_eq_self)

lemma signed_iff:
  fixes w :: "'w::len word"
  assumes "least = of_int (- (2 ^ (LENGTH('w) - 1)))" and "most = of_int (2 ^ (LENGTH('w) - 1) - 1)"
  shows "as_signed least most v = Inr w \<longleftrightarrow> v = JNumber (number_of_signed w)"
proof
  assume "as_signed least most v = Inr w"
  then obtain i where i: "v = JNumber (Finite (of_int i))" "least \<le> (of_int i :: rat)" "(of_int i :: rat) \<le> most" "w = word_of_int i"
    by (auto simp: as_signed_Inr)
  then have "- (2 ^ (LENGTH('w) - 1)) \<le> i" "i \<le> 2 ^ (LENGTH('w) - 1) - 1"
    unfolding assms by (simp_all only: of_int_le_iff)
  with i have "sint w = i" by (simp add: sint_in_range)
  with i(1) show "v = JNumber (number_of_signed w)" by (simp add: number_of_signed_def)
qed (simp add: signed_back [OF assms])

lemma as_bigint_Inr: "as_bigint v = Inr i \<longleftrightarrow> v = JBigInt i"
  by (cases v) auto

lemma bigint_back:
  "as_u64 (from_u64 w) = Inr w" "as_i64 (from_i64 w) = Inr w"
  using uint_bound [of w] sint_ge [of w] sint_lt [of w]
  by (simp_all add: as_u64_def from_u64_def as_i64_def from_i64_def)

lemma bigint_iff:
  "as_u64 v = Inr w \<longleftrightarrow> v = JBigInt (uint w)" "as_i64 v = Inr w \<longleftrightarrow> v = JBigInt (sint w)"
proof -
  have "sint (word_of_int i :: 64 word) = i" if "- (2 ^ 63) \<le> i" "i < 2 ^ 63" for i
    using sint_in_range [where 'w = 64, of i] that by simp
  then show "as_u64 v = Inr w \<longleftrightarrow> v = JBigInt (uint w)" "as_i64 v = Inr w \<longleftrightarrow> v = JBigInt (sint w)"
    using bigint_back [of w]
    by (auto simp: as_u64_def as_i64_def result_simps as_bigint_Inr uint_word_of_int from_u64_def from_i64_def
        split: if_splits)
qed

lemma number_back:
  "as_u8 (from_u8 a) = Inr a" "as_u16 (from_u16 b) = Inr b" "as_u32 (from_u32 c) = Inr c"
  "as_i8 (from_i8 a) = Inr a" "as_i16 (from_i16 b) = Inr b" "as_i32 (from_i32 c) = Inr c"
  by (simp_all add: as_u8_def from_u8_def as_u16_def from_u16_def as_u32_def from_u32_def
      as_i8_def from_i8_def as_i16_def from_i16_def as_i32_def from_i32_def unsigned_back signed_back)

lemma bitstring_back:
  "bitstring_new d (bitstring_unused d x) (bitstring_raw d x) = Inr x \<Longrightarrow>
     \<exists>v. from_bitstring d x = Inr v \<and> as_bitstring d v = Inr x \<and> \<not> is_nullish v"
  by (simp add: from_bitstring_def object_def set_u8_def set_number_def set_octets_def as_bitstring_def
      u8_field_def octet_field_def object_field_def is_nullish_def from_octets_def as_u8_def unsigned_back)

text \<open>
  The values of a leaf kind. For a type the \<^verbatim>\<open>der\<close> crate owns, its values are the ones the crate's
  constructor gives back from their text or octets.
\<close>

fun leaf_fits :: "'d der_api \<Rightarrow> field_kind \<Rightarrow> 'd rust_value \<Rightarrow> bool" where
  "leaf_fits d KBool r = (case r of RBool _ \<Rightarrow> True | _ \<Rightarrow> False)"
| "leaf_fits d KNull r = (case r of RNull \<Rightarrow> True | _ \<Rightarrow> False)"
| "leaf_fits d KU8 r = (case r of RU8 _ \<Rightarrow> True | _ \<Rightarrow> False)"
| "leaf_fits d KU16 r = (case r of RU16 _ \<Rightarrow> True | _ \<Rightarrow> False)"
| "leaf_fits d KU32 r = (case r of RU32 _ \<Rightarrow> True | _ \<Rightarrow> False)"
| "leaf_fits d KU64 r = (case r of RU64 _ \<Rightarrow> True | _ \<Rightarrow> False)"
| "leaf_fits d KI8 r = (case r of RI8 _ \<Rightarrow> True | _ \<Rightarrow> False)"
| "leaf_fits d KI16 r = (case r of RI16 _ \<Rightarrow> True | _ \<Rightarrow> False)"
| "leaf_fits d KI32 r = (case r of RI32 _ \<Rightarrow> True | _ \<Rightarrow> False)"
| "leaf_fits d KI64 r = (case r of RI64 _ \<Rightarrow> True | _ \<Rightarrow> False)"
| "leaf_fits d KString r = (case r of RString _ \<Rightarrow> True | _ \<Rightarrow> False)"
| "leaf_fits d KIa5String r = (case r of ROpaque x \<Rightarrow> ia5_new d (ia5_text d x) = Inr x | _ \<Rightarrow> False)"
| "leaf_fits d KPrintableString r = (case r of ROpaque x \<Rightarrow> printable_new d (printable_text d x) = Inr x | _ \<Rightarrow> False)"
| "leaf_fits d KTeletexString r = (case r of ROpaque x \<Rightarrow> teletex_new d (teletex_text d x) = Inr x | _ \<Rightarrow> False)"
| "leaf_fits d KBmpString r = (case r of ROpaque x \<Rightarrow> bmp_from_utf8 d (bmp_text d x) = Inr x | _ \<Rightarrow> False)"
| "leaf_fits d KOctetString r = (case r of ROpaque x \<Rightarrow> octets_new d (octets_bytes d x) = Inr x | _ \<Rightarrow> False)"
| "leaf_fits d KBitString r = (case r of ROpaque x \<Rightarrow> bitstring_new d (bitstring_unused d x) (bitstring_raw d x) = Inr x | _ \<Rightarrow> False)"
| "leaf_fits d KObjectIdentifier r = (case r of ROpaque x \<Rightarrow> oid_new d (oid_text d x) = Inr x | _ \<Rightarrow> False)"
| "leaf_fits d KAny r = (case r of ROpaque x \<Rightarrow> \<exists>b. any_to_der d x = Inr b \<and> any_from_der d b = Inr x | _ \<Rightarrow> False)"
| "leaf_fits d KUtcTime r = (case r of ROpaque x \<Rightarrow> \<exists>t. datetime_from_str d (utc_text d x) = Inr t \<and> utc_from_datetime d t = Inr x | _ \<Rightarrow> False)"
| "leaf_fits d KGeneralizedTime r = (case r of ROpaque x \<Rightarrow> \<exists>t. datetime_from_str d (generalized_text d x) = Inr t \<and> generalized_from_datetime d t = x | _ \<Rightarrow> False)"
| "leaf_fits d _ r = False"

definition nullable :: "field_kind \<Rightarrow> bool" where
  "nullable kind \<longleftrightarrow> kind = KNull \<or> (\<exists>k. kind = KOption k)"

lemmas leaf_conversions =
  leaf_def from_bool_def from_null_def from_octets_def as_null_def as_ia5_string_def from_ia5_string_def
  as_printable_string_def from_printable_string_def as_teletex_string_def from_teletex_string_def
  as_bmp_string_def from_bmp_string_def as_oid_def from_oid_def as_any_def from_any_def
  as_utc_time_def from_utc_time_def as_generalized_time_def from_generalized_time_def

lemma nullish_simps [simp]:
  "is_nullish JUndefined" "is_nullish JNull" "\<not> is_nullish (JBool b)" "\<not> is_nullish (JNumber n)"
  "\<not> is_nullish (JBigInt i)" "\<not> is_nullish (JString s)" "\<not> is_nullish (JUint8Array o')"
  "\<not> is_nullish (JArray vs)" "\<not> is_nullish (JObject es)"
  by (simp_all add: is_nullish_def)

lemma number_not_nullish [simp]:
  "\<not> is_nullish (from_u8 a)" "\<not> is_nullish (from_u16 b)" "\<not> is_nullish (from_u32 c)" "\<not> is_nullish (from_u64 e)"
  "\<not> is_nullish (from_i8 a)" "\<not> is_nullish (from_i16 b)" "\<not> is_nullish (from_i32 c)" "\<not> is_nullish (from_i64 e)"
  by (simp_all add: is_nullish_def from_u8_def from_u16_def from_u32_def from_u64_def
      from_i8_def from_i16_def from_i32_def from_i64_def)

lemma leaf_back:
  assumes "leaf_fits d k r"
  shows "\<exists>v. leaf_to_value d k r = Inr v \<and> leaf_from_value d k v = Inr r \<and> (k \<noteq> KNull \<longrightarrow> \<not> is_nullish v)"
  using assms
  by (cases k; cases r)
     (auto simp: leaf_conversions number_back bigint_back dest!: bitstring_back)

section \<open>Values of a kind and of a wire type\<close>

text \<open>
  An \<^verbatim>\<open>Option\<close> must not hold a nullable kind: \<^verbatim>\<open>Some(null)\<close> and \<^verbatim>\<open>Some(None)\<close> share their
  JavaScript form with \<^verbatim>\<open>None\<close>.
\<close>

inductive fits :: "'d surroundings \<Rightarrow> field_kind \<Rightarrow> 'd rust_value \<Rightarrow> bool"
  and is_a :: "'d surroundings \<Rightarrow> path \<Rightarrow> 'd rust_value \<Rightarrow> bool" for g where
  fits_leaf: "leaf_fits (der g) k r \<Longrightarrow> fits g k r"
| fits_nested: "is_a g p r \<Longrightarrow> fits g (KNested p) r"
| fits_none: "fits g (KOption k) (ROption None)"
| fits_some: "fits g k r \<Longrightarrow> \<not> nullable k \<Longrightarrow> fits g (KOption k) (ROption (Some r))"
| fits_vec: "(\<forall>x \<in> set xs. fits g k x) \<Longrightarrow> fits g (KVec k) (RList xs)"
| fits_set_of_vec: "(\<forall>x \<in> set xs. fits g k x) \<Longrightarrow> set_of_vec g xs = Inr xs \<Longrightarrow> fits g (KSetOfVec k) (RList xs)"
| fits_sequence_of: "(\<forall>x \<in> set xs. fits g k x) \<Longrightarrow> length xs = len_of g n \<Longrightarrow>
    read_into (sequence_of_add g (len_of g n)) Inr xs [] = Inr xs \<Longrightarrow> fits g (KSequenceOf k n) (RList xs)"
| fits_set_of: "(\<forall>x \<in> set xs. fits g k x) \<Longrightarrow> length xs = len_of g n \<Longrightarrow>
    read_into (set_of_insert g (len_of g n)) Inr xs [] = Inr xs \<Longrightarrow> fits g (KSetOf k n) (RList xs)"
| is_sequence: "decls g p = Some (Sequence fs) \<Longrightarrow> distinct (map fst fs) \<Longrightarrow> map fst xs = map fst fs \<Longrightarrow>
    (\<forall>f \<in> set fs. \<exists>x. map_of xs (fst f) = Some x \<and> fits g (snd f) x) \<Longrightarrow> is_a g p (RStruct xs)"
| is_enumerated: "decls g p = Some (Enumerated ns) \<Longrightarrow> n \<in> set ns \<Longrightarrow> is_a g p (REnum n)"
| is_choice: "decls g p = Some (Choice vs) \<Longrightarrow> map_of vs key = Some q \<Longrightarrow> is_a g q x \<Longrightarrow> is_a g p (RVariant key x)"

definition value_back :: "'d surroundings \<Rightarrow> field_kind \<Rightarrow> 'd rust_value \<Rightarrow> bool" where
  "value_back g k r \<longleftrightarrow>
     (\<exists>v. to_value g k r = Inr v \<and> from_value g k v = Inr r \<and> (\<not> nullable k \<longrightarrow> \<not> is_nullish v))"

section \<open>Fields\<close>

lemmas set_defs =
  set_bool_def set_null_def set_u8_def set_u16_def set_u32_def set_u64_def set_i8_def set_i16_def set_i32_def
  set_i64_def set_number_def set_string_def set_octets_def set_array_def set_object_def set_oid_def set_any_def
  set_bitstring_def set_utc_time_def set_generalized_time_def set_ia5_string_def set_printable_string_def
  set_teletex_string_def set_bmp_string_def from_u8_def from_u16_def from_u32_def from_i8_def from_i16_def
  from_i32_def from_oid_def from_utc_time_def from_generalized_time_def from_ia5_string_def
  from_printable_string_def from_teletex_string_def from_bmp_string_def

lemma and_then_assoc: "and_then (and_then r k) h = and_then r (\<lambda>x. and_then (k x) h)"
  by (cases r) auto

lemma set_object_fun:
  "set_object (JObject es) key = (\<lambda>v. Inr (JObject (AList.update key v es)))"
  "set_array (JObject es) key = (\<lambda>vs. Inr (JObject (AList.update key (JArray vs) es)))"
  by (auto simp: set_object_def set_array_def)

lemma to_field_eq:
  assumes "\<And>k'. k \<noteq> KOption k'"
  shows "to_field g k key r (JObject es) = and_then (to_value g k r) (\<lambda>v. Inr (JObject (AList.update key v es)))"
  using assms by (cases k) (auto simp: set_object_fun set_defs and_then_assoc split: rust_value.split)

lemmas field_defs =
  bool_field_def null_field_def u8_field_def u16_field_def u32_field_def u64_field_def i8_field_def i16_field_def
  i32_field_def i64_field_def string_field_def octet_field_def array_field_def oid_field_def any_field_def
  bitstring_field_def utc_time_field_def generalized_time_field_def ia5_string_field_def
  printable_string_field_def teletex_string_field_def bmp_string_field_def

lemma from_field_eq:
  assumes "\<not> nullable k"
  shows "from_field g k key v = and_then (object_field v key) (\<lambda>w. from_value g k w)"
proof -
  have sized: "and_then (as_array w) (\<lambda>vs. if length vs \<noteq> n then Inl Failed else h vs) =
      and_then (as_array_len w n) h" for w n and h :: "js_value list \<Rightarrow> der_error + 'a rust_value"
    by (cases "as_array w") (auto simp: as_array_len_def)
  show ?thesis
    using assms by (cases k) (auto simp: nullable_def field_defs leaf_def and_then_assoc sized)
qed

text \<open>
  One field of a struct: what \<^verbatim>\<open>quote_to\<close> leaves in the object (nothing for \<^verbatim>\<open>None\<close>), and that
  \<^verbatim>\<open>quote_from\<close> reads it back from any object holding that entry.
\<close>

lemma field_back:
  assumes fit: "fits g k r" and rb: "value_back g k r"
  obtains e where
    "to_field g k key r (JObject es) =
       Inr (JObject (case e of None \<Rightarrow> es | Some v \<Rightarrow> AList.update key v es))"
    and "\<forall>es'. map_of es' key = e \<longrightarrow> from_field g k key (JObject es') = Inr r"
proof -
  obtain v where v: "to_value g k r = Inr v" "from_value g k v = Inr r" "\<not> nullable k \<longrightarrow> \<not> is_nullish v"
    using rb by (auto simp: value_back_def)
  consider (option) k' where "k = KOption k'" | (null) "k = KNull" | (other) "\<not> nullable k"
    by (auto simp: nullable_def)
  then show thesis
  proof cases
    case option
    from v(1) obtain x where r: "r = ROption x"
      by (auto simp: option split: rust_value.splits)
    show thesis
    proof (cases x)
      case None
      show thesis by (rule that [of None]) (simp_all add: option r None optional_field_def)
    next
      case (Some y)
      with v(2) have "\<not> is_nullish v" "from_value g k' v = Inr y"
        by (auto simp: option r result_simps split: if_splits)
      with v(1) show thesis
        by (intro that [of "Some v"]) (simp_all add: option r Some optional_field_def set_object_def)
    qed
  next
    case null
    from v(1) have "r = RNull" "v = JNull" by (auto simp: null from_null_def split: rust_value.splits)
    then show thesis
      by (intro that [of "Some JNull"]) (simp_all add: null set_null_def from_null_def null_field_def as_null_def leaf_def)
  next
    case other
    then have "to_field g k key r (JObject es) = Inr (JObject (AList.update key v es))"
      using v(1) by (subst to_field_eq) (auto simp: nullable_def)
    with other v show thesis
      by (intro that [of "Some v"]) (simp_all add: from_field_eq object_field_def)
  qed
qed

lemma set_fields_back:
  assumes "\<forall>f \<in> set fs. \<exists>x. map_of xs (fst f) = Some x \<and> fits g (snd f) x \<and> value_back g (snd f) x"
    and "distinct (map fst fs)" and "\<forall>f \<in> set fs. map_of es (fst f) = None"
  shows "\<exists>es'. set_fields g fs xs (JObject es) = Inr (JObject es') \<and>
    (\<forall>f \<in> set fs. \<forall>es''. map_of es'' (fst f) = map_of es' (fst f) \<longrightarrow>
       from_field g (snd f) (fst f) (JObject es'') = Inr (the (map_of xs (fst f)))) \<and>
    (\<forall>key. key \<notin> fst ` set fs \<longrightarrow> map_of es' key = map_of es key)"
  using assms
proof (induction fs arbitrary: es)
  case (Cons f fs)
  obtain key k where f: "f = (key, k)" by fastforce
  obtain x where x: "map_of xs key = Some x" "fits g k x" "value_back g k x" using Cons.prems(1) f by auto
  obtain e where e: "to_field g k key x (JObject es) = Inr (JObject (case e of None \<Rightarrow> es | Some v \<Rightarrow> AList.update key v es))"
    and read: "\<forall>es'. map_of es' key = e \<longrightarrow> from_field g k key (JObject es') = Inr x"
    by (rule field_back [OF x(2,3), of key es])
  define es1 where "es1 = (case e of None \<Rightarrow> es | Some v \<Rightarrow> AList.update key v es)"
  have es1: "map_of es1 key = e" "\<And>key'. key' \<noteq> key \<Longrightarrow> map_of es1 key' = map_of es key'"
    using Cons.prems(3) by (auto simp: es1_def f split: option.split)
  have fresh: "key \<notin> fst ` set fs" using Cons.prems(2) by (simp add: f)
  have "\<forall>f' \<in> set fs. map_of es1 (fst f') = None"
  proof
    fix f' assume "f' \<in> set fs"
    moreover from this have "fst f' \<noteq> key" using fresh by auto
    ultimately show "map_of es1 (fst f') = None" using es1(2) [of "fst f'"] Cons.prems(3) by simp
  qed
  moreover have "\<forall>f \<in> set fs. \<exists>x. map_of xs (fst f) = Some x \<and> fits g (snd f) x \<and> value_back g (snd f) x"
    and "distinct (map fst fs)" using Cons.prems(1,2) by simp_all
  ultimately obtain es' where
    run: "set_fields g fs xs (JObject es1) = Inr (JObject es')"
    and later: "\<forall>f \<in> set fs. \<forall>es''. map_of es'' (fst f) = map_of es' (fst f) \<longrightarrow>
       from_field g (snd f) (fst f) (JObject es'') = Inr (the (map_of xs (fst f)))"
    and same: "\<forall>key. key \<notin> fst ` set fs \<longrightarrow> map_of es' key = map_of es1 key" using Cons.IH [of es1] by blast
  have "set_fields g (f # fs) xs (JObject es) = Inr (JObject es')"
    using e run x(1) by (simp add: f flip: es1_def)
  moreover have "map_of es' key = e" using same fresh es1(1) by simp
  ultimately show ?case
    using later read same es1(2) x(1) by (intro exI [of _ es']) (auto simp: f)
qed auto

section \<open>The round trip\<close>

lemma read_into_map_result:
  "map_result get vs = Inr xs \<Longrightarrow> read_into add get vs acc = read_into add Inr xs acc"
  by (induction vs arbitrary: xs acc) (auto simp: result_simps intro!: and_then_cong)

lemma list_value_back:
  assumes "\<forall>x \<in> set xs. fits g k x \<and> value_back g k x"
  obtains vs where "map_result (to_value g k) xs = Inr vs" "map_result (from_value g k) vs = Inr xs" "length vs = length xs"
proof -
  have "\<forall>x \<in> set xs. \<exists>v. to_value g k x = Inr v \<and> from_value g k v = Inr x"
    using assms by (auto simp: value_back_def)
  from map_result_back [OF this] show thesis using that map_result_length by blast
qed

lemma struct_entries:
  assumes "map fst xs = map fst fs" and "distinct (map fst fs)"
  shows "map (\<lambda>f. (fst f, the (map_of xs (fst f)))) fs = xs"
proof (rule nth_equalityI)
  show len: "length (map (\<lambda>f. (fst f, the (map_of xs (fst f)))) fs) = length xs"
    using assms(1) by (metis length_map)
  fix n assume "n < length (map (\<lambda>f. (fst f, the (map_of xs (fst f)))) fs)"
  then have n: "n < length fs" "n < length xs" using len by simp_all
  then have fst_n: "fst (fs ! n) = fst (xs ! n)" using assms(1) by (metis nth_map)
  have "map_of xs (fst (xs ! n)) = Some (snd (xs ! n))"
    using assms n by (metis map_of_is_SomeI nth_mem prod.collapse)
  then show "map (\<lambda>f. (fst f, the (map_of xs (fst f)))) fs ! n = xs ! n"
    using n fst_n by (simp add: prod_eq_iff)
qed

lemma sequence_back:
  assumes decl: "decls g p = Some (Sequence fs)" and distinct: "distinct (map fst fs)"
    and names: "map fst xs = map fst fs"
    and fields: "\<forall>f \<in> set fs. \<exists>x. map_of xs (fst f) = Some x \<and> fits g (snd f) x \<and> value_back g (snd f) x"
  shows "\<exists>v. to_js g p (RStruct xs) = Inr v \<and> from_js g p v = Inr (RStruct xs) \<and> \<not> is_nullish v"
proof -
  obtain es where run: "set_fields g fs xs (JObject []) = Inr (JObject es)"
    and read: "\<forall>f \<in> set fs. from_field g (snd f) (fst f) (JObject es) = Inr (the (map_of xs (fst f)))"
    using set_fields_back [OF fields distinct, of "[]"] by auto
  have "map_result (\<lambda>f. and_then (from_field g (snd f) (fst f) (JObject es)) (\<lambda>x. Inr (fst f, x))) fs' =
      Inr (map (\<lambda>f. (fst f, the (map_of xs (fst f)))) fs')" if "set fs' \<subseteq> set fs" for fs'
    using that read by (induction fs') auto
  from this [of fs] have "map_result (\<lambda>(key, kind). and_then (from_field g kind key (JObject es)) (\<lambda>x. Inr (key, x))) fs = Inr xs"
    by (simp add: case_prod_unfold struct_entries [OF names distinct])
  with run decl show ?thesis
    by (intro exI [of _ "JObject es"]) (simp add: to_js.simps from_js.simps object_def)
qed

lemma codecs_back:
  shows fits_back: "fits g k r \<Longrightarrow> value_back g k r"
    and is_a_back: "is_a g p r \<Longrightarrow> \<exists>v. to_js g p r = Inr v \<and> from_js g p v = Inr r \<and> \<not> is_nullish v"
proof (induction rule: fits_is_a.inducts)
  case (fits_leaf k r)
  from leaf_back [OF this] show ?case
    using fits_leaf by (cases k) (auto simp: value_back_def nullable_def)
next
  case (fits_some k r)
  then show ?case by (auto simp: value_back_def)
next
  case (fits_vec xs k)
  then obtain vs where "map_result (to_value g k) xs = Inr vs" "map_result (from_value g k) vs = Inr xs"
    using list_value_back by blast
  then show ?case by (simp add: value_back_def)
next
  case (fits_set_of_vec xs k)
  then obtain vs where "map_result (to_value g k) xs = Inr vs" "map_result (from_value g k) vs = Inr xs"
    using list_value_back by blast
  then show ?case using fits_set_of_vec by (simp add: value_back_def)
next
  case (fits_sequence_of xs k n)
  then obtain vs where "map_result (to_value g k) xs = Inr vs" "map_result (from_value g k) vs = Inr xs" "length vs = length xs"
    using list_value_back by blast
  then show ?case
    using fits_sequence_of by (simp add: value_back_def as_array_len_def read_into_map_result)
next
  case (fits_set_of xs k n)
  then obtain vs where "map_result (to_value g k) xs = Inr vs" "map_result (from_value g k) vs = Inr xs" "length vs = length xs"
    using list_value_back by blast
  then show ?case
    using fits_set_of by (simp add: value_back_def as_array_len_def read_into_map_result)
next
  case (is_sequence p fs xs)
  then show ?case by (intro sequence_back) auto
next
  case (is_enumerated p ns n)
  then show ?case by (simp add: to_js.simps from_js.simps number_back)
next
  case (is_choice p vs key q x)
  then show ?case by (auto simp: to_js.simps from_js.simps object_def set_object_def is_nullish_def)
qed (auto simp: value_back_def nullable_def)

section \<open>Interpretations\<close>

interpretation u8_codec: js_codec "\<lambda>_. True" "\<lambda>w. Inr (from_u8 w)" as_u8
  by unfold_locales (simp add: number_back)

interpretation u16_codec: js_codec "\<lambda>_. True" "\<lambda>w. Inr (from_u16 w)" as_u16
  by unfold_locales (simp add: number_back)

interpretation u32_codec: js_codec "\<lambda>_. True" "\<lambda>w. Inr (from_u32 w)" as_u32
  by unfold_locales (simp add: number_back)

interpretation u64_codec: js_codec "\<lambda>_. True" "\<lambda>w. Inr (from_u64 w)" as_u64
  by unfold_locales (simp add: bigint_back)

interpretation i8_codec: js_codec "\<lambda>_. True" "\<lambda>w. Inr (from_i8 w)" as_i8
  by unfold_locales (simp add: number_back)

interpretation i16_codec: js_codec "\<lambda>_. True" "\<lambda>w. Inr (from_i16 w)" as_i16
  by unfold_locales (simp add: number_back)

interpretation i32_codec: js_codec "\<lambda>_. True" "\<lambda>w. Inr (from_i32 w)" as_i32
  by unfold_locales (simp add: number_back)

interpretation i64_codec: js_codec "\<lambda>_. True" "\<lambda>w. Inr (from_i64 w)" as_i64
  by unfold_locales (simp add: bigint_back)

interpretation kind_codec: js_codec "fits g k" "to_value g k" "from_value g k" for g k
  using fits_back [of g k] unfolding value_back_def by unfold_locales blast

interpretation wire_codec: js_codec "is_a g p" "to_js g p" "from_js g p" for g p
  using is_a_back by unfold_locales blast

section \<open>The exports\<close>

text \<open>
  The wasm exports of one wire type, over its \<^verbatim>\<open>der\<close> codec. An error leaves as its text.
\<close>

definition to_js_error :: "'d der_api \<Rightarrow> der_error \<Rightarrow> js_value" where
  "to_js_error d e = JString (error_text d e)"

definition encode_export ::
  "'d surroundings \<Rightarrow> path \<Rightarrow> ('d rust_value \<Rightarrow> der_error + bytes) \<Rightarrow> js_value \<Rightarrow> js_value + bytes" where
  "encode_export g p to_der v =
     and_then (map_err (to_js_error (der g)) (from_js g p v)) (\<lambda>message. map_err (to_js_error (der g)) (to_der message))"

definition decode_export ::
  "'d surroundings \<Rightarrow> path \<Rightarrow> (bytes \<Rightarrow> der_error + 'd rust_value) \<Rightarrow> bytes \<Rightarrow> js_value + js_value" where
  "decode_export g p from_der b =
     and_then (map_err (to_js_error (der g)) (from_der b)) (\<lambda>message. map_err (to_js_error (der g)) (to_js g p message))"

section \<open>Properties\<close>


text \<open>
  The wire types of the closed examples: a price with a key and optional venues, and a choice over
  it, on a \<^verbatim>\<open>der\<close> crate whose values are octets with a count of unused bits.
\<close>

definition example_der :: "(bytes \<times> u8) der_api" where
  "example_der =
     (let text = (\<lambda>s. (as_bytes s, 0)); show = (\<lambda>d. str_of_bytes (fst d))
      in \<lparr>oid_new = Inr \<circ> text, oid_text = show,
          any_from_der = (\<lambda>b. Inr (b, 0)), any_to_der = (\<lambda>d. Inr (fst d)),
          bitstring_new = (\<lambda>n b. Inr (b, n)), bitstring_unused = snd, bitstring_raw = fst,
          datetime_from_str = Inr \<circ> text, utc_from_datetime = Inr, utc_text = show,
          generalized_from_datetime = (\<lambda>d. d), generalized_text = show,
          ia5_new = Inr \<circ> text, ia5_text = show, printable_new = Inr \<circ> text, printable_text = show,
          teletex_new = Inr \<circ> text, teletex_text = show, bmp_from_utf8 = Inr \<circ> text, bmp_text = show,
          octets_new = (\<lambda>b. Inr (b, 0)), octets_bytes = fst,
          error_text = (\<lambda>e. case e of Failed \<Rightarrow> ''failed'' | DerFailure t \<Rightarrow> t)\<rparr>)"

definition price_path :: path where "price_path = [Segment ''Price'' ArgsNone]"
definition event_path :: path where "event_path = [Segment ''Event'' ArgsNone]"

definition price_fields :: "(string \<times> field_kind) list" where
  "price_fields = [(''cents'', KU32), (''key'', KOctetString), (''venues'', KVec (KOption KString))]"

definition example_surroundings :: "(bytes \<times> u8) surroundings" where
  "example_surroundings =
     \<lparr>der = example_der,
      decls = (\<lambda>p. if p = price_path then Some (Sequence price_fields)
                   else if p = event_path then Some (Choice [(''Tick'', price_path)]) else None),
      const_values = (\<lambda>_. 0), set_of_vec = Inr,
      sequence_of_add = (\<lambda>n xs x. if length xs < n then Inr (xs @ [x]) else Inl (DerFailure ''full'')),
      set_of_insert = (\<lambda>n xs x. Inr (xs @ [x]))\<rparr>"

definition example_venues :: "(bytes \<times> u8) rust_value" where
  "example_venues = RList [ROption None, ROption (Some (RString ''XNYS''))]"

definition example_price :: "(bytes \<times> u8) rust_value" where
  "example_price =
     RStruct [(''cents'', RU32 1250), (''key'', ROpaque ([7, 8], 0)), (''venues'', example_venues)]"

definition example_event :: "(bytes \<times> u8) rust_value" where
  "example_event = RVariant ''Tick'' example_price"

lemma example_event_is_a: "is_a example_surroundings event_path example_event"
proof -
  let ?g = example_surroundings
  have decl: "decls ?g price_path = Some (Sequence price_fields)"
    "decls ?g event_path = Some (Choice [(''Tick'', price_path)])"
    by (simp_all add: example_surroundings_def price_path_def event_path_def)
  have "fits ?g KU32 (RU32 1250)" by (rule fits_leaf) simp
  moreover have "fits ?g KOctetString (ROpaque ([7, 8], 0))"
    by (rule fits_leaf) (simp add: example_surroundings_def example_der_def Let_def)
  moreover have "fits ?g KString (RString ''XNYS'')" by (rule fits_leaf) simp
  then have "fits ?g (KVec (KOption KString)) example_venues"
    unfolding example_venues_def by (intro fits_vec) (auto intro: fits_none fits_some simp: nullable_def)
  ultimately have "is_a ?g price_path example_price" unfolding example_price_def
    by (intro is_sequence [OF decl(1)]) (auto simp: price_fields_def)
  then show ?thesis unfolding example_event_def by (intro is_choice [OF decl(2)]) simp_all
qed


text \<open>
  JavaScript round trip through DER: when the \<^verbatim>\<open>der\<close> codec of the type decodes what it encoded,
  the exported \<^verbatim>\<open>encode\<close> accepts the JavaScript form of any value of the type and the exported
  \<^verbatim>\<open>decode\<close> turns the octets back into exactly that JavaScript value.
\<close>

lemma exports_round_trip:
  assumes "is_a g p r" and "to_der r = Inr b" and "from_der b = Inr r" and "to_js g p r = Inr v"
  shows "encode_export g p to_der v = Inr b \<and> decode_export g p from_der b = Inr v"
proof -
  have "from_js g p v = Inr r" using wire_codec.gives_back [OF assms(1)] assms(4) by auto
  with assms show ?thesis by (simp add: encode_export_def decode_export_def)
qed

text \<open>
  C20. INTEGER fields accept exactly the range of their type: a number is accepted as a \<^verbatim>\<open>u8\<close>,
  \<^verbatim>\<open>u16\<close>, \<^verbatim>\<open>u32\<close>, \<^verbatim>\<open>i8\<close>, \<^verbatim>\<open>i16\<close> or \<^verbatim>\<open>i32\<close> only if it is the whole number that value denotes, and a
  bigint as a \<^verbatim>\<open>u64\<close> or \<^verbatim>\<open>i64\<close> likewise. Nothing is rounded, wrapped or converted.
\<close>

theorem integers_range_checked:
  "(as_u8 v = Inr a \<longleftrightarrow> v = JNumber (Finite (of_int (uint a)))) \<and>
   (as_u16 v = Inr b \<longleftrightarrow> v = JNumber (Finite (of_int (uint b)))) \<and>
   (as_u32 v = Inr c \<longleftrightarrow> v = JNumber (Finite (of_int (uint c)))) \<and>
   (as_u64 v = Inr e \<longleftrightarrow> v = JBigInt (uint e)) \<and>
   (as_i8 v = Inr a \<longleftrightarrow> v = JNumber (Finite (of_int (sint a)))) \<and>
   (as_i16 v = Inr b \<longleftrightarrow> v = JNumber (Finite (of_int (sint b)))) \<and>
   (as_i32 v = Inr c \<longleftrightarrow> v = JNumber (Finite (of_int (sint c)))) \<and>
   (as_i64 v = Inr e \<longleftrightarrow> v = JBigInt (sint e))"
  by (intro conjI)
     (simp_all add: as_u8_def as_u16_def as_u32_def as_i8_def as_i16_def as_i32_def unsigned_iff signed_iff
       bigint_iff number_of_unsigned_def number_of_signed_def)

text \<open>
  C21. An \<^verbatim>\<open>Option\<close> field loses a value exactly when that value is written as \<^verbatim>\<open>null\<close> or \<^verbatim>\<open>undefined\<close>: then \<^verbatim>\<open>Some\<close>
  of it reads back as \<^verbatim>\<open>None\<close>. This happens: \<^verbatim>\<open>Some(Null)\<close> of an \<^verbatim>\<open>Option<Null>\<close> field and \<^verbatim>\<open>Some(None)\<close> of an
  \<^verbatim>\<open>Option<Option<T>>\<close> field are such values.
\<close>

theorem option_of_nullable_is_lost:
  "((\<exists>obj. to_field g (KOption k) key (ROption (Some r)) (JObject []) = Inr obj \<and>
       from_field g (KOption k) key obj = Inr (ROption None)) \<longleftrightarrow>
     (\<exists>v. to_value g k r = Inr v \<and> is_nullish v)) \<and>
   (\<exists>v. to_value g KNull RNull = Inr v \<and> is_nullish v) \<and>
   (\<exists>v. to_value g (KOption k') (ROption None) = Inr v \<and> is_nullish v)"
proof (intro conjI)
  have written: "to_field g (KOption k) key (ROption (Some r)) (JObject []) = Inr obj \<longleftrightarrow>
      (\<exists>v. to_value g k r = Inr v \<and> obj = JObject [(key, v)])" for obj
    by (auto simp: set_object_def result_simps)
  have back_again: "from_field g (KOption k) key (JObject [(key, v)]) = Inr (ROption None) \<longleftrightarrow> is_nullish v" for v
    by (auto simp: optional_field_def result_simps)
  show "(\<exists>obj. to_field g (KOption k) key (ROption (Some r)) (JObject []) = Inr obj \<and>
       from_field g (KOption k) key obj = Inr (ROption None)) \<longleftrightarrow> (\<exists>v. to_value g k r = Inr v \<and> is_nullish v)"
    unfolding written using back_again by blast
qed (simp_all add: from_null_def is_nullish_def)

end
