(* ===== verification/Asn_Derive.thy ===== *)
theory Asn_Derive
  imports Asn_Roundtrip
begin

text \<open>
  The derive macro itself (\<^verbatim>\<open>asn/tightbeam-asn-derive/src/lib.rs\<close>): how a Rust declaration is
  classified, which inputs are refused with a compile error, and the TypeScript it emits. A
  compile error is its message (spans are not modelled); a path is its segments (a leading \<^verbatim>\<open>::\<close> is
  not modelled). What an accepted input's \<^verbatim>\<open>impl\<close> block does is the declaration its expansion
  carries, with the meaning of \<open>from_js\<close> and \<open>to_js\<close>.
\<close>

type_synonym 'a compiled = "string + 'a"

section \<open>Input\<close>

datatype attribute =
    DocAttr "string option"
  | ReprAttr "string list"
  | AsnCodecAttr "(string \<times> string option) list"
  | OtherAttr

record field =
  field_ident :: "string option"
  field_ty :: ty
  field_attrs :: "attribute list"

datatype variant_fields = Named "field list" | Unnamed "ty list" | Unit

record variant =
  variant_ident :: string
  variant_shape :: variant_fields
  discriminant :: u8

datatype data = Struct variant_fields | Enum "variant list" | Union

record derive_input =
  input_ident :: string
  input_attrs :: "attribute list"
  input_data :: data

section \<open>Paths and field kinds\<close>

definition FIELD_KIND_HELP :: string where
  "FIELD_KIND_HELP = ''AsnCodec Sequence fields must be der-owned leaves (bool, Null, integers, string zoo, OctetString, BitString, ObjectIdentifier, Any, UtcTime, GeneralizedTime), nested AsnCodec, or recursive Option/Vec/SetOfVec/SequenceOf/SetOf over those types''"

fun segment_ident :: "segment \<Rightarrow> string" where "segment_ident (Segment i a) = i"
fun segment_arguments :: "segment \<Rightarrow> path_arguments" where "segment_arguments (Segment i a) = a"

definition is_ident :: "path \<Rightarrow> string \<Rightarrow> bool" where
  "is_ident p name \<longleftrightarrow> p = [Segment name ArgsNone]"

definition path_ts_name :: "path \<Rightarrow> string compiled" where
  "path_ts_name p = (if p = [] then Inl ''expected type path'' else Inr (segment_ident (last p)))"

definition path_has_generics :: "path \<Rightarrow> bool" where
  "path_has_generics p \<longleftrightarrow> list_ex (\<lambda>s. segment_arguments s \<noteq> ArgsNone) p"

definition path_ends_with :: "path \<Rightarrow> string \<Rightarrow> bool" where
  "path_ends_with p name \<longleftrightarrow> p \<noteq> [] \<and> segment_ident (last p) = name"

definition single_type_arg :: "path \<Rightarrow> string \<Rightarrow> ty option" where
  "single_type_arg p name =
     (if p = [] \<or> segment_ident (last p) \<noteq> name then None
      else case segment_arguments (last p) of
        AngleBracketed [ArgType t] \<Rightarrow> Some t
      | _ \<Rightarrow> None)"

fun const_generic_expr :: "generic_argument \<Rightarrow> const_expr option" where
  "const_generic_expr (ArgConst e) = Some e"
| "const_generic_expr (ArgType (TypePath [Segment i ArgsNone])) = Some (ExprPath i)"
| "const_generic_expr _ = None"

definition type_and_const_args :: "path \<Rightarrow> string \<Rightarrow> (ty \<times> const_expr) option" where
  "type_and_const_args p name =
     (if p = [] \<or> segment_ident (last p) \<noteq> name then None
      else case segment_arguments (last p) of
        AngleBracketed [ArgType t, arg] \<Rightarrow> map_option (\<lambda>len. (t, len)) (const_generic_expr arg)
      | _ \<Rightarrow> None)"

text \<open>The identifiers \<^verbatim>\<open>leaf_field_kind\<close> knows, in the order it tries them.\<close>

definition primitive_kinds :: "(string \<times> field_kind) list" where
  "primitive_kinds =
     [(''bool'', KBool), (''u8'', KU8), (''u16'', KU16), (''u32'', KU32), (''u64'', KU64),
      (''i8'', KI8), (''i16'', KI16), (''i32'', KI32), (''i64'', KI64), (''String'', KString)]"

definition der_kinds :: "(string \<times> field_kind) list" where
  "der_kinds =
     [(''Utf8String'', KString), (''Null'', KNull), (''Ia5String'', KIa5String),
      (''PrintableString'', KPrintableString), (''TeletexString'', KTeletexString),
      (''BmpString'', KBmpString), (''OctetString'', KOctetString), (''BitString'', KBitString),
      (''ObjectIdentifier'', KObjectIdentifier), (''Any'', KAny), (''UtcTime'', KUtcTime),
      (''GeneralizedTime'', KGeneralizedTime)]"

fun leaf_field_kind :: "ty \<Rightarrow> field_kind compiled" where
  "leaf_field_kind (TypePath p) =
     (if path_has_generics p then Inl FIELD_KIND_HELP
      else case find (\<lambda>(name, kind). is_ident p name) primitive_kinds of
        Some (name, kind) \<Rightarrow> Inr kind
      | None \<Rightarrow>
          (case find (\<lambda>(name, kind). path_ends_with p name) der_kinds of
             Some (name, kind) \<Rightarrow> Inr kind
           | None \<Rightarrow> Inr (KNested p)))"
| "leaf_field_kind TypeOther = Inl FIELD_KIND_HELP"

lemma size_last: "p \<noteq> [] \<Longrightarrow> size (last p) < size (TypePath p)"
  by (induction p) auto

lemma single_type_arg_size:
  assumes "single_type_arg p name = Some t"
  shows "size t < size (TypePath p)"
proof -
  have "p \<noteq> []" "segment_arguments (last p) = AngleBracketed [ArgType t]"
    using assms by (auto simp: single_type_arg_def split: if_splits path_arguments.splits list.splits generic_argument.splits)
  then show ?thesis using size_last [of p] by (cases "last p") auto
qed

lemma type_and_const_args_size:
  assumes "type_and_const_args p name = Some (t, len)"
  shows "size t < size (TypePath p)"
proof -
  obtain arg where "p \<noteq> []" "segment_arguments (last p) = AngleBracketed [ArgType t, arg]"
    using assms by (auto simp: type_and_const_args_def split: if_splits path_arguments.splits list.splits generic_argument.splits)
  then show ?thesis using size_last [of p] by (cases "last p") auto
qed

function field_kind_of :: "ty \<Rightarrow> field_kind compiled" where
  "field_kind_of TypeOther = Inl FIELD_KIND_HELP"
| "field_kind_of (TypePath p) =
     (case single_type_arg p ''Option'' of
        Some t \<Rightarrow> and_then (field_kind_of t) (\<lambda>k. Inr (KOption k))
      | None \<Rightarrow>
     (case single_type_arg p ''Vec'' of
        Some t \<Rightarrow> and_then (field_kind_of t) (\<lambda>k. Inr (KVec k))
      | None \<Rightarrow>
     (case single_type_arg p ''SetOfVec'' of
        Some t \<Rightarrow> and_then (field_kind_of t) (\<lambda>k. Inr (KSetOfVec k))
      | None \<Rightarrow>
     (case type_and_const_args p ''SequenceOf'' of
        Some (t, len) \<Rightarrow> and_then (field_kind_of t) (\<lambda>k. Inr (KSequenceOf k len))
      | None \<Rightarrow>
     (case type_and_const_args p ''SetOf'' of
        Some (t, len) \<Rightarrow> and_then (field_kind_of t) (\<lambda>k. Inr (KSetOf k len))
      | None \<Rightarrow> leaf_field_kind (TypePath p))))))"
  by pat_completeness auto
termination
  by (relation "measure size") (auto dest: single_type_arg_size type_and_const_args_size)

declare field_kind_of.simps [simp del]

section \<open>TypeScript\<close>

fun ts_type :: "field_kind \<Rightarrow> string compiled" where
  "ts_type KBool = Inr ''boolean''"
| "ts_type KNull = Inr ''null''"
| "ts_type KU8 = Inr ''number''"
| "ts_type KU16 = Inr ''number''"
| "ts_type KU32 = Inr ''number''"
| "ts_type KI8 = Inr ''number''"
| "ts_type KI16 = Inr ''number''"
| "ts_type KI32 = Inr ''number''"
| "ts_type KU64 = Inr ''bigint''"
| "ts_type KI64 = Inr ''bigint''"
| "ts_type KString = Inr ''string''"
| "ts_type KIa5String = Inr ''string''"
| "ts_type KPrintableString = Inr ''string''"
| "ts_type KTeletexString = Inr ''string''"
| "ts_type KBmpString = Inr ''string''"
| "ts_type KObjectIdentifier = Inr ''string''"
| "ts_type KUtcTime = Inr ''string''"
| "ts_type KGeneralizedTime = Inr ''string''"
| "ts_type KOctetString = Inr ''Uint8Array''"
| "ts_type KAny = Inr ''Uint8Array''"
| "ts_type KBitString = Inr ''{ unusedBits: number; bytes: Uint8Array }''"
| "ts_type (KNested p) = path_ts_name p"
| "ts_type (KOption k) = and_then (ts_type k) (\<lambda>t. Inr (t @ '' | null''))"
| "ts_type (KVec k) = and_then (ts_type k) (\<lambda>t. Inr (t @ ''[]''))"
| "ts_type (KSetOfVec k) = and_then (ts_type k) (\<lambda>t. Inr (t @ ''[]''))"
| "ts_type (KSequenceOf k n) = and_then (ts_type k) (\<lambda>t. Inr (t @ ''[]''))"
| "ts_type (KSetOf k n) = and_then (ts_type k) (\<lambda>t. Inr (t @ ''[]''))"

fun jsdoc_contract :: "field_kind \<Rightarrow> string" where
  "jsdoc_contract KBool =
     ''Carries a BOOLEAN Sequence field as a JavaScript boolean.''"
| "jsdoc_contract KNull =
     ''Carries a NULL Sequence field as JavaScript null.''"
| "jsdoc_contract KU8 =
     ''Carries an INTEGER field in the inclusive u8 range.''"
| "jsdoc_contract KU16 =
     ''Carries an INTEGER field in the inclusive u16 range.''"
| "jsdoc_contract KU32 =
     ''Carries an INTEGER field in the inclusive u32 range.''"
| "jsdoc_contract KU64 =
     ''Carries an INTEGER field as a JavaScript bigint in the inclusive u64 range.''"
| "jsdoc_contract KI8 =
     ''Carries an INTEGER field in the inclusive i8 range.''"
| "jsdoc_contract KI16 =
     ''Carries an INTEGER field in the inclusive i16 range.''"
| "jsdoc_contract KI32 =
     ''Carries an INTEGER field in the inclusive i32 range.''"
| "jsdoc_contract KI64 =
     ''Carries an INTEGER field as a JavaScript bigint in the inclusive i64 range.''"
| "jsdoc_contract KString =
     ''Carries a UTF-8 string Sequence field.''"
| "jsdoc_contract KIa5String =
     ''Carries an IA5String Sequence field validated by der.''"
| "jsdoc_contract KPrintableString =
     ''Carries a PrintableString Sequence field validated by der.''"
| "jsdoc_contract KTeletexString =
     ''Carries a TeletexString Sequence field validated by der.''"
| "jsdoc_contract KBmpString =
     ''Carries a BmpString Sequence field validated by der.''"
| "jsdoc_contract KOctetString =
     ''Carries an octet string Sequence field as Uint8Array.''"
| "jsdoc_contract KBitString =
     ''Carries a BIT STRING Sequence field as unusedBits plus bytes.''"
| "jsdoc_contract KObjectIdentifier =
     ''Carries an OBJECT IDENTIFIER Sequence field as a dotted string.''"
| "jsdoc_contract KAny =
     ''Carries an ANY Sequence field as opaque DER bytes.''"
| "jsdoc_contract KUtcTime =
     ''Carries a UTCTime Sequence field as an RFC 3339 string.''"
| "jsdoc_contract KGeneralizedTime =
     ''Carries a GeneralizedTime Sequence field as an RFC 3339 string.''"
| "jsdoc_contract (KNested _) =
     ''Carries a nested AsnCodec value for this Sequence field.''"
| "jsdoc_contract (KOption _) =
     ''Carries an OPTIONAL Sequence field. Nullish JS values map to None, and a present value maps to Some.''"
| "jsdoc_contract (KVec _) =
     ''Carries a SEQUENCE OF Sequence field as a JavaScript Array.''"
| "jsdoc_contract (KSetOfVec _) =
     ''Carries a SET OF Sequence field as a JavaScript Array.''"
| "jsdoc_contract (KSequenceOf _ _) =
     ''Carries a fixed-length SEQUENCE OF Sequence field as a JavaScript Array.''"
| "jsdoc_contract (KSetOf _ _) =
     ''Carries a fixed-length SET OF Sequence field as a JavaScript Array.''"

definition quote_ts_property :: "string \<Rightarrow> string list \<Rightarrow> string" where
  "quote_ts_property decl doc_lines =
     TAB @ ''/**'' @ NL @ concat (map (\<lambda>line. TAB @ '' * '' @ line @ NL) doc_lines) @
     TAB @ '' */'' @ NL @ TAB @ decl @ '';''"

definition kind_ts_property :: "field_kind \<Rightarrow> string \<Rightarrow> string list \<Rightarrow> string compiled" where
  "kind_ts_property kind key doc_lines =
     and_then (ts_type kind) (\<lambda>t.
       Inr (quote_ts_property
         (case kind of KOption _ \<Rightarrow> key @ ''?: '' @ t | _ \<Rightarrow> key @ '': '' @ t) doc_lines))"

text \<open>\<^verbatim>\<open>[String]::join\<close>.\<close>

fun join :: "string \<Rightarrow> string list \<Rightarrow> string" where
  "join sep [] = []"
| "join sep [x] = x"
| "join sep (x # y # xs) = x @ sep @ join sep (y # xs)"

definition quote_ts_interface :: "string \<Rightarrow> string list \<Rightarrow> string" where
  "quote_ts_interface js_name properties =
     ''export interface '' @ js_name @ '' {'' @ NL @ join NL properties @ NL @ ''}''"

definition quote_ts_codec :: "string \<Rightarrow> string" where
  "quote_ts_codec js_name =
     ''export const '' @ js_name @ '': MessageCodec<'' @ js_name @ ''> = {'' @ NL @
     TAB @ ''encode(value) {'' @ NL @ TAB @ TAB @ ''return encode'' @ js_name @ ''(value);'' @ NL @ TAB @ ''},'' @ NL @
     TAB @ ''decode(bodyDer) {'' @ NL @ TAB @ TAB @ ''return decode'' @ js_name @ ''(bodyDer);'' @ NL @ TAB @ ''},'' @ NL @
     ''};''"

section \<open>Attributes\<close>

fun doc_line :: "attribute \<Rightarrow> string list" where
  "doc_line (DocAttr (Some line)) =
     (let text = (case strip_prefix '' '' line of Some stripped \<Rightarrow> stripped | None \<Rightarrow> line)
      in if text = [] then [] else [text])"
| "doc_line _ = []"

definition field_doc_lines :: "field \<Rightarrow> string list" where
  "field_doc_lines f = concat (map doc_line (field_attrs f))"

text \<open>The arguments of one \<^verbatim>\<open>repr\<close> attribute: anything beside \<^verbatim>\<open>u8\<close> is an error.\<close>

fun repr_arguments :: "string list \<Rightarrow> bool \<Rightarrow> bool compiled" where
  "repr_arguments [] is_u8 = Inr is_u8"
| "repr_arguments (a # as) is_u8 =
     (if a = ''u8'' then repr_arguments as True else Inl ''AsnCodec Enumerated requires #[repr(u8)]'')"

fun ensure_repr_u8 :: "attribute list \<Rightarrow> unit compiled" where
  "ensure_repr_u8 [] = Inl ''AsnCodec Enumerated requires #[repr(u8)]''"
| "ensure_repr_u8 (ReprAttr args # attrs) =
     and_then (repr_arguments args False) (\<lambda>is_u8. if is_u8 then Inr () else ensure_repr_u8 attrs)"
| "ensure_repr_u8 (_ # attrs) = ensure_repr_u8 attrs"

fun asn_codec_arguments :: "(string \<times> string option) list \<Rightarrow> string option \<Rightarrow> string option compiled" where
  "asn_codec_arguments [] js_name = Inr js_name"
| "asn_codec_arguments ((name, literal) # args) js_name =
     (if name = ''js_name''
      then (case literal of
              Some text \<Rightarrow> asn_codec_arguments args (Some text)
            | None \<Rightarrow> Inl ''expected string literal'')
      else Inl ''unsupported asn_codec attribute'')"

fun js_name_attr :: "attribute list \<Rightarrow> string option compiled" where
  "js_name_attr [] = Inr None"
| "js_name_attr (AsnCodecAttr args # attrs) = asn_codec_arguments args None"
| "js_name_attr (_ # attrs) = js_name_attr attrs"

section \<open>Expansion\<close>

text \<open>
  What a successful derive emits: the \<^verbatim>\<open>impl\<close> block (as the declaration it implements), the
  \<^verbatim>\<open>ASN_CODEC_TS\<close> constant, the custom section and the two export names.
\<close>

record expansion =
  impl_decl :: decl
  asn_codec_ts :: string
  ts_section :: string
  encode_js_name :: string
  decode_js_name :: string

definition quote_exports :: "decl \<Rightarrow> string \<Rightarrow> string \<Rightarrow> expansion" where
  "quote_exports d js_name ts_text =
     \<lparr>impl_decl = d, asn_codec_ts = ts_text @ NL @ NL @ quote_ts_codec js_name @ NL, ts_section = ts_text,
      encode_js_name = ''encode'' @ js_name, decode_js_name = ''decode'' @ js_name\<rparr>"

definition emit_field :: "field \<Rightarrow> ((string \<times> field_kind) \<times> string) compiled" where
  "emit_field f =
     (case field_ident f of
        None \<Rightarrow> Inl ''expected named field''
      | Some key \<Rightarrow>
          and_then (field_kind_of (field_ty f)) (\<lambda>kind.
            let doc_lines = (if field_doc_lines f = [] then [jsdoc_contract kind] else field_doc_lines f)
            in and_then (kind_ts_property kind key doc_lines) (\<lambda>property. Inr ((key, kind), property))))"

definition emit_fields :: "field list \<Rightarrow> ((string \<times> field_kind) \<times> string) list compiled" where
  "emit_fields fs = map_result emit_field fs"

definition expand_sequence :: "variant_fields \<Rightarrow> string \<Rightarrow> expansion compiled" where
  "expand_sequence shape js_name =
     (case shape of
        Named fs \<Rightarrow>
          and_then (emit_fields fs) (\<lambda>emitted.
            Inr (quote_exports (Sequence (map fst emitted)) js_name
                   (quote_ts_interface js_name (map snd emitted))))
      | _ \<Rightarrow> Inl ''AsnCodec supports structs with named fields'')"

definition expand_enumerated :: "attribute list \<Rightarrow> variant list \<Rightarrow> string \<Rightarrow> expansion compiled" where
  "expand_enumerated attrs variants js_name =
     and_then (ensure_repr_u8 attrs) (\<lambda>_.
       Inr (quote_exports (Enumerated (map discriminant variants)) js_name
              (''export type '' @ js_name @ '' = number;'')))"

definition choice_variant :: "variant \<Rightarrow> ((string \<times> path) \<times> string) compiled" where
  "choice_variant v =
     (case variant_shape v of
        Unnamed [TypePath payload] \<Rightarrow>
          and_then (path_ts_name payload) (\<lambda>t.
            Inr ((variant_ident v, payload), ''{ '' @ variant_ident v @ '': '' @ t @ '' }''))
      | Unnamed [TypeOther] \<Rightarrow> Inl ''AsnCodec Choice payloads must be AsnCodec types''
      | _ \<Rightarrow> Inl ''AsnCodec Choice variants must be single-field tuples'')"

definition expand_choice :: "variant list \<Rightarrow> string \<Rightarrow> expansion compiled" where
  "expand_choice variants js_name =
     and_then (map_result choice_variant variants) (\<lambda>emitted.
       Inr (quote_exports (Choice (map fst emitted)) js_name
              (''export type '' @ js_name @ '' ='' @ NL @ TAB @ ''| '' @ join (NL @ TAB @ ''| '') (map snd emitted) @ '';'')))"

definition is_enumerated :: "variant list \<Rightarrow> bool" where
  "is_enumerated variants \<longleftrightarrow> variants \<noteq> [] \<and> list_all (\<lambda>v. variant_shape v = Unit) variants"

definition is_choice :: "variant list \<Rightarrow> bool" where
  "is_choice variants \<longleftrightarrow>
     variants \<noteq> [] \<and>
     list_all (\<lambda>v. case variant_shape v of Unnamed ts \<Rightarrow> length ts = 1 | _ \<Rightarrow> False) variants"

definition expand :: "derive_input \<Rightarrow> expansion compiled" where
  "expand input =
     and_then (js_name_attr (input_attrs input)) (\<lambda>attr.
       let js_name = (case attr of Some name \<Rightarrow> name | None \<Rightarrow> input_ident input)
       in case input_data input of
            Struct shape \<Rightarrow> expand_sequence shape js_name
          | Enum variants \<Rightarrow>
              if is_enumerated variants then expand_enumerated (input_attrs input) variants js_name
              else if is_choice variants then expand_choice variants js_name
              else Inl ''AsnCodec enums must be #[repr(u8)] Enumerated or Choice tuple variants''
          | Union \<Rightarrow> Inl ''AsnCodec supports structs and enums'')"

section \<open>Properties\<close>

text \<open>The field types the derive documents: leaves and nested types without generics, and the five wrappers.\<close>

inductive supported :: "ty \<Rightarrow> bool" where
  plain: "\<not> path_has_generics p \<Longrightarrow> supported (TypePath p)"
| wrapped: "single_type_arg p name = Some t \<Longrightarrow> name \<in> {''Option'', ''Vec'', ''SetOfVec''} \<Longrightarrow>
    supported t \<Longrightarrow> supported (TypePath p)"
| sized: "type_and_const_args p name = Some (t, len) \<Longrightarrow> name \<in> {''SequenceOf'', ''SetOf''} \<Longrightarrow>
    supported t \<Longrightarrow> supported (TypePath p)"

inductive_cases supportedE: "supported (TypePath p)"

lemma single_type_arg_name: "single_type_arg p name = Some t \<Longrightarrow> p \<noteq> [] \<and> segment_ident (last p) = name \<and> path_has_generics p"
  by (auto simp: single_type_arg_def path_has_generics_def list_ex_iff last_in_set intro!: bexI [of _ "last p"] split: if_splits path_arguments.splits)

lemma type_and_const_args_name:
  "type_and_const_args p name = Some t \<Longrightarrow> p \<noteq> [] \<and> segment_ident (last p) = name \<and> path_has_generics p"
  by (auto simp: type_and_const_args_def path_has_generics_def list_ex_iff last_in_set intro!: bexI [of _ "last p"] split: if_splits path_arguments.splits)

lemma leaf_field_kind_accepts:
  "(\<exists>k. leaf_field_kind (TypePath p) = Inr k) \<longleftrightarrow> \<not> path_has_generics p"
  by (auto split: option.split)

lemma field_kind_of_cases:
  assumes "field_kind_of (TypePath p) = Inr k"
  shows "leaf_field_kind (TypePath p) = Inr k \<or>
    (\<exists>name \<in> {''Option'', ''Vec'', ''SetOfVec''}. \<exists>t j. single_type_arg p name = Some t \<and> field_kind_of t = Inr j) \<or>
    (\<exists>name \<in> {''SequenceOf'', ''SetOf''}. \<exists>t len j. type_and_const_args p name = Some (t, len) \<and> field_kind_of t = Inr j)"
  using assms
  by (subst (asm) field_kind_of.simps) (auto simp: result_simps simp del: leaf_field_kind.simps split: option.splits)

lemma field_kind_of_supported: "field_kind_of t = Inr k \<Longrightarrow> supported t"
proof (induction t arbitrary: k rule: measure_induct_rule [where f = size])
  case (less t)
  show ?case
  proof (cases t)
    case TypeOther
    with less.prems show ?thesis by (simp add: field_kind_of.simps)
  next
    case (TypePath p)
    from less.prems have "field_kind_of (TypePath p) = Inr k" by (simp add: TypePath)
    from field_kind_of_cases [OF this] show ?thesis
    proof (elim disjE bexE exE conjE)
      assume "leaf_field_kind (TypePath p) = Inr k"
      then show ?thesis using leaf_field_kind_accepts [of p] by (auto simp: TypePath intro: plain)
    next
      fix name u j
      assume "name \<in> {''Option'', ''Vec'', ''SetOfVec''}" "single_type_arg p name = Some u" "field_kind_of u = Inr j"
      then show ?thesis unfolding TypePath
        using less.IH [of u j] TypePath single_type_arg_size [of p name u] by (blast intro: wrapped)
    next
      fix name u len j
      assume "name \<in> {''SequenceOf'', ''SetOf''}" "type_and_const_args p name = Some (u, len)" "field_kind_of u = Inr j"
      then show ?thesis unfolding TypePath
        using less.IH [of u j] TypePath type_and_const_args_size [of p name u len] by (blast intro: sized)
    qed
  qed
qed

lemma wrapper_first:
  assumes "single_type_arg p name = Some t"
  shows "single_type_arg p other = (if other = name then Some t else None)" and "type_and_const_args p other = None"
  using assms by (auto simp: single_type_arg_def type_and_const_args_def split: if_splits path_arguments.splits
      list.splits generic_argument.splits)

lemma sized_first:
  assumes "type_and_const_args p name = Some t"
  shows "type_and_const_args p other = (if other = name then Some t else None)" and "single_type_arg p other = None"
  using assms by (auto simp: single_type_arg_def type_and_const_args_def split: if_splits path_arguments.splits
      list.splits generic_argument.splits)

lemma supported_field_kind: "supported t \<Longrightarrow> \<exists>k. field_kind_of t = Inr k"
proof (induction rule: supported.induct)
  case (plain p)
  then have "single_type_arg p n = None" "type_and_const_args p n = None" for n
    using single_type_arg_name [of p n] type_and_const_args_name [of p n] by (metis option.exhaust)+
  with plain leaf_field_kind_accepts [of p] show ?case by (simp add: field_kind_of.simps del: leaf_field_kind.simps)
next
  case (wrapped p name t)
  then show ?case by (auto simp: field_kind_of.simps wrapper_first [OF wrapped(1)])
next
  case (sized p name t len)
  then show ?case by (auto simp: field_kind_of.simps sized_first [OF sized(1)])
qed

text \<open>
  The derive accepts exactly the documented field types: a path without generic arguments, or
  one of the wrappers \<^verbatim>\<open>Option\<close>, \<^verbatim>\<open>Vec\<close>, \<^verbatim>\<open>SetOfVec\<close>, \<^verbatim>\<open>SequenceOf\<close> and \<^verbatim>\<open>SetOf\<close>, to any depth, over an
  accepted type. Every other type is refused at compile time.
\<close>

lemma field_kind_accepts_documented_types:
  "(\<exists>k. field_kind_of t = Inr k) \<longleftrightarrow> supported t"
  using field_kind_of_supported supported_field_kind by blast

lemma map_result_Inr: "(\<exists>ys. map_result f xs = Inr ys) \<longleftrightarrow> (\<forall>x \<in> set xs. \<exists>y. f x = Inr y)"
  by (induction xs) (auto simp: result_simps)

lemma expand_sequence_accepts:
  "(\<exists>ex. expand_sequence shape name = Inr ex) \<longleftrightarrow>
     (\<exists>fs. shape = Named fs \<and> (\<forall>f \<in> set fs. \<exists>e. emit_field f = Inr e))"
  using map_result_Inr [of emit_field]
  by (auto simp: expand_sequence_def emit_fields_def result_simps split: variant_fields.splits)

lemma emit_field_accepts:
  "(\<exists>e. emit_field f = Inr e) \<longleftrightarrow>
     field_ident f \<noteq> None \<and> (\<exists>k t. field_kind_of (field_ty f) = Inr k \<and> ts_type k = Inr t)"
  by (auto simp: emit_field_def kind_ts_property_def result_simps Let_def split: option.splits)

lemma choice_accepts:
  "(\<exists>ex. expand_choice variants name = Inr ex) \<longleftrightarrow>
     (\<forall>v \<in> set variants. \<exists>p. variant_shape v = Unnamed [TypePath p] \<and> p \<noteq> [])"
proof -
  have "(\<exists>e. choice_variant v = Inr e) \<longleftrightarrow> (\<exists>p. variant_shape v = Unnamed [TypePath p] \<and> p \<noteq> [])" for v
    by (auto simp: choice_variant_def path_ts_name_def result_simps
        split: variant_fields.splits list.splits ty.splits if_splits)
  then show ?thesis
    using map_result_Inr [of choice_variant variants] by (auto simp: expand_choice_def result_simps)
qed

lemma and_then_ex: "(\<exists>v. and_then r k = Inr v) \<longleftrightarrow> (\<exists>x. r = Inr x \<and> (\<exists>v. k x = Inr v))"
  by (cases r) auto

lemma expand_struct_accepts:
  "(\<exists>ex. expand_sequence shape name = Inr ex) \<longleftrightarrow>
     (\<exists>fs. shape = Named fs \<and> list_all (\<lambda>f. field_ident f \<noteq> None \<and>
        (\<exists>k t. field_kind_of (field_ty f) = Inr k \<and> ts_type k = Inr t)) fs)"
  unfolding expand_sequence_accepts emit_field_accepts list_all_iff by (rule refl)

lemma expand_enum_accepts:
  "(\<exists>ex. (if is_enumerated vs then expand_enumerated attrs vs name
          else if is_choice vs then expand_choice vs name else Inl e) = Inr ex) \<longleftrightarrow>
     vs \<noteq> [] \<and>
     (list_all (\<lambda>v. variant_shape v = Unit) vs \<and> ensure_repr_u8 attrs = Inr () \<or>
      list_all (\<lambda>v. \<exists>p. variant_shape v = Unnamed [TypePath p] \<and> p \<noteq> []) vs)"
proof (cases "vs = [] \<or> is_enumerated vs")
  case True
  then show ?thesis
    by (cases vs) (auto simp: expand_enumerated_def is_enumerated_def is_choice_def result_simps)
next
  case False
  then have "\<not> list_all (\<lambda>v. variant_shape v = Unit) vs" "vs \<noteq> []" by (auto simp: is_enumerated_def)
  moreover have "is_choice vs" if "list_all (\<lambda>v. \<exists>p. variant_shape v = Unnamed [TypePath p] \<and> p \<noteq> []) vs"
    using that False by (fastforce simp: is_choice_def list_all_iff split: variant_fields.splits)
  ultimately show ?thesis using False choice_accepts [of vs name] by (auto simp: list_all_iff)
qed


end
