(* ===== verification/Asn_Fixtures.thy ===== *)
theory Asn_Fixtures
  imports Asn_Derive "HOL-Library.Char_ord" "HOL-Library.List_Lexorder"
begin

text \<open>
  The fixture messages (\<^verbatim>\<open>asn/tightbeam-asn-fixtures/src/lib.rs\<close>) as inputs of the derive: the
  declarations as the macro sees them, the sample values, and the TypeScript module around their
  exports. They exercise the derive's classification and the round trip on real declarations.
\<close>

section \<open>Declarations\<close>

abbreviation named :: "string \<Rightarrow> ty" where
  "named name \<equiv> TypePath [Segment name ArgsNone]"

abbreviation generic :: "string \<Rightarrow> generic_argument list \<Rightarrow> ty" where
  "generic name args \<equiv> TypePath [Segment name (AngleBracketed args)]"

text \<open>A public field with one line of documentation.\<close>

abbreviation fixture_field :: "string \<Rightarrow> ty \<Rightarrow> string \<Rightarrow> field" where
  "fixture_field name t line \<equiv> \<lparr>field_ident = Some name, field_ty = t, field_attrs = [DocAttr (Some line)]\<rparr>"

definition doc_input :: derive_input where
  "doc_input =
     \<lparr>input_ident = ''Doc'', input_attrs = [DocAttr (Some '' Minimal document body used by engine tests.''), AsnCodecAttr [(''js_name'', Some ''Doc'')]],
      input_data = Struct (Named [
       fixture_field ''title'' (named ''String'') '' UTF-8 title carried as the Sequence string field.''])\<rparr>"

definition envelope_input :: derive_input where
  "envelope_input =
     \<lparr>input_ident = ''Envelope'', input_attrs = [DocAttr (Some '' Nested envelope used to exercise AsnCodec field recursion.''), AsnCodecAttr [(''js_name'', Some ''Envelope'')]],
      input_data = Struct (Named [
       fixture_field ''doc'' (named ''Doc'') '' Nested document Sequence carried inside the envelope.'',
       fixture_field ''payload'' (named ''OctetString'') '' Opaque octet payload beside the nested document.''])\<rparr>"

definition status_input :: derive_input where
  "status_input =
     \<lparr>input_ident = ''Status'', input_attrs = [DocAttr (Some '' Outcome discriminant matching CSR status shape.''), ReprAttr [''u8''], AsnCodecAttr [(''js_name'', Some ''Status'')]],
      input_data = Enum [
       \<lparr>variant_ident = ''Ok'', variant_shape = Unit, discriminant = 0\<rparr>,
       \<lparr>variant_ident = ''InvalidRequest'', variant_shape = Unit, discriminant = 1\<rparr>,
       \<lparr>variant_ident = ''RateLimited'', variant_shape = Unit, discriminant = 2\<rparr>]\<rparr>"

definition status_report_input :: derive_input where
  "status_report_input =
     \<lparr>input_ident = ''StatusReport'', input_attrs = [DocAttr (Some '' Sequence carrying a nested Enumerated field.''), AsnCodecAttr [(''js_name'', Some ''StatusReport'')]],
      input_data = Struct (Named [
       fixture_field ''title'' (named ''String'') '' UTF-8 title carried beside the status discriminant.'',
       fixture_field ''status'' (named ''Status'') '' Nested Enumerated outcome projected as a JS number.''])\<rparr>"

definition list_pad_input :: derive_input where
  "list_pad_input =
     \<lparr>input_ident = ''ListPad'', input_attrs = [DocAttr (Some '' Empty list query pad (INTEGER) for Choice coverage.''), AsnCodecAttr [(''js_name'', Some ''ListPad'')]],
      input_data = Struct (Named [
       fixture_field ''pad'' (named ''u8'') '' INTEGER pad required by the List Choice payload shape.''])\<rparr>"

definition register_body_input :: derive_input where
  "register_body_input =
     \<lparr>input_ident = ''RegisterBody'', input_attrs = [DocAttr (Some '' Nested register payload for Choice coverage.''), AsnCodecAttr [(''js_name'', Some ''RegisterBody'')]],
      input_data = Struct (Named [
       fixture_field ''doc'' (named ''Doc'') '' Nested document Sequence for the Register Choice variant.''])\<rparr>"

definition request_input :: derive_input where
  "request_input =
     \<lparr>input_ident = ''Request'', input_attrs = [DocAttr (Some '' Request Choice with pad Sequence and nested Sequence variants.''), AsnCodecAttr [(''js_name'', Some ''Request'')]],
      input_data = Enum [
       \<lparr>variant_ident = ''Register'', variant_shape = Unnamed [named ''RegisterBody''], discriminant = 0\<rparr>,
       \<lparr>variant_ident = ''List'', variant_shape = Unnamed [named ''ListPad''], discriminant = 0\<rparr>]\<rparr>"

definition record_input :: derive_input where
  "record_input =
     \<lparr>input_ident = ''Record'', input_attrs = [DocAttr (Some '' Nested identity-shaped Sequence for list-result fixture coverage.''), AsnCodecAttr [(''js_name'', Some ''Record'')]],
      input_data = Struct (Named [
       fixture_field ''subject'' (named ''String'') '' UTF-8 subject name for the nested list element.''])\<rparr>"

definition ack_input :: derive_input where
  "ack_input =
     \<lparr>input_ident = ''Ack'', input_attrs = [DocAttr (Some '' Ack-shaped Sequence with an OPTIONAL Enumerated error.''), AsnCodecAttr [(''js_name'', Some ''Ack'')]],
      input_data = Struct (Named [
       fixture_field ''error'' (generic ''Option'' [ArgType (named ''Status'')]) '' OPTIONAL Enumerated error omitted when the ack succeeds.''])\<rparr>"

definition list_result_input :: derive_input where
  "list_result_input =
     \<lparr>input_ident = ''ListResult'', input_attrs = [DocAttr (Some '' List-result Sequence carrying SEQUENCE OF nested records.''), AsnCodecAttr [(''js_name'', Some ''ListResult'')]],
      input_data = Struct (Named [
       fixture_field ''records'' (generic ''Vec'' [ArgType (named ''Record'')]) '' Nested Sequence elements for the list result body.''])\<rparr>"

definition leaf_bundle_input :: derive_input where
  "leaf_bundle_input =
     \<lparr>input_ident = ''LeafBundle'', input_attrs = [DocAttr (Some '' Sequence exercising der-owned AsnCodec leaf field vocabulary.''), AsnCodecAttr [(''js_name'', Some ''LeafBundle'')]],
      input_data = Struct (Named [
       fixture_field ''flag'' (named ''bool'') '' BOOLEAN leaf projected as a JS boolean.'',
       fixture_field ''empty'' (named ''Null'') '' NULL leaf projected as JS null.'',
       fixture_field ''i8_value'' (named ''i8'') '' INTEGER leaf in the inclusive i8 range.'',
       fixture_field ''u16_value'' (named ''u16'') '' INTEGER leaf in the inclusive u16 range.'',
       fixture_field ''i32_value'' (named ''i32'') '' INTEGER leaf in the inclusive i32 range.'',
       fixture_field ''u32_value'' (named ''u32'') '' INTEGER leaf in the inclusive u32 range.'',
       fixture_field ''u64_value'' (named ''u64'') '' INTEGER leaf requiring a JS bigint.'',
       fixture_field ''i64_value'' (named ''i64'') '' INTEGER leaf requiring a JS bigint.'',
       fixture_field ''ia5'' (named ''Ia5String'') '' IA5String leaf validated by the der constructor.'',
       fixture_field ''printable'' (named ''PrintableString'') '' PrintableString leaf validated by the der constructor.'',
       fixture_field ''teletex'' (named ''TeletexString'') '' TeletexString leaf validated by the der constructor.'',
       fixture_field ''bmp'' (named ''BmpString'') '' BmpString leaf validated by the der constructor.'',
       fixture_field ''bits'' (named ''BitString'') '' BIT STRING leaf with unused-bit count and raw bytes.'',
       fixture_field ''oid'' (named ''ObjectIdentifier'') '' OBJECT IDENTIFIER leaf as a dotted string.'',
       fixture_field ''any'' (named ''Any'') '' ANY leaf carrying opaque DER bytes.'',
       fixture_field ''utc'' (named ''UtcTime'') '' UTCTime leaf as an RFC 3339 string.'',
       fixture_field ''generalized'' (named ''GeneralizedTime'') '' GeneralizedTime leaf as an RFC 3339 string.''])\<rparr>"

definition nest_bundle_input :: derive_input where
  "nest_bundle_input =
     \<lparr>input_ident = ''NestBundle'', input_attrs = [DocAttr (Some '' Sequence exercising recursive containers and SET/SEQUENCE OF shapes.''), AsnCodecAttr [(''js_name'', Some ''NestBundle'')]],
      input_data = Struct (Named [
       fixture_field ''nested'' (generic ''Option'' [ArgType (generic ''Vec'' [ArgType (named ''u8'')])]) '' OPTIONAL SEQUENCE OF INTEGER values.'',
       fixture_field ''deeper'' (generic ''Option'' [ArgType (generic ''Vec'' [ArgType (named ''Record'')])]) '' OPTIONAL SEQUENCE OF nested Sequence values.'',
       fixture_field ''tags'' (generic ''SetOfVec'' [ArgType (named ''String'')]) '' SET OF UTF-8 strings as a JS Array.'',
       fixture_field ''triple'' (generic ''SequenceOf'' [ArgType (named ''u8''), ArgConst (ExprLit 3)]) '' Fixed-length SEQUENCE OF INTEGER values.'',
       fixture_field ''pair'' (generic ''SetOf'' [ArgType (named ''u8''), ArgConst (ExprLit 2)]) '' Fixed-length SET OF INTEGER values.''])\<rparr>"

definition fixtures :: "derive_input list" where
  "fixtures = [doc_input, envelope_input, status_input, status_report_input, list_pad_input, register_body_input,
     request_input, record_input, ack_input, list_result_input, leaf_bundle_input, nest_bundle_input]"

section \<open>The module\<close>

definition module_line :: "string \<Rightarrow> string" where
  "module_line name = TAB @ name @ '','' @ NL"

definition CODECS_TS_HEADER :: string where
  "CODECS_TS_HEADER =
     ''import type { MessageCodec } from '' @ QUOTE @ ''@wahidgroup/tightbeam-ws-client'' @ QUOTE @ '';'' @ NL @ NL @
     ''import {'' @ NL @
     concat (map module_line
       [''decodeAck'', ''decodeDoc'', ''decodeEnvelope'', ''decodeLeafBundle'', ''decodeListPad'', ''decodeListResult'',
        ''decodeNestBundle'', ''decodeRecord'', ''decodeRegisterBody'', ''decodeRequest'', ''decodeStatus'', ''decodeStatusReport'',
        ''encodeAck'', ''encodeDoc'', ''encodeEnvelope'', ''encodeLeafBundle'', ''encodeListPad'', ''encodeListResult'',
        ''encodeNestBundle'', ''encodeRecord'', ''encodeRegisterBody'', ''encodeRequest'', ''encodeStatus'', ''encodeStatusReport'']) @
     ''} from '' @ QUOTE @ ''./tightbeam_asn_fixtures.js'' @ QUOTE @ '';'' @ NL @ NL"

definition all_codecs_ts :: "string compiled" where
  "all_codecs_ts =
     and_then (map_result expand fixtures) (\<lambda>es. Inr (CODECS_TS_HEADER @ concat (map (\<lambda>e. asn_codec_ts e @ NL) es)))"

section \<open>Samples\<close>

text \<open>
  \<^verbatim>\<open>Any::new\<close>, \<^verbatim>\<open>DateTime::new\<close> and \<^verbatim>\<open>SetOf::try_from\<close> are parameters like the rest of the \<^verbatim>\<open>der\<close> crate. A panic is
  its message.
\<close>

definition sample_leaf_bundle ::
  "'d der_api \<Rightarrow> (bytes \<Rightarrow> der_error + 'd) \<Rightarrow> (nat list \<Rightarrow> der_error + 'd) \<Rightarrow> string + 'd rust_value" where
  "sample_leaf_bundle d integer_any datetime_new =
     and_then (map_err (\<lambda>_. ''ia5'') (ia5_new d ''abc'')) (\<lambda>ia5.
     and_then (map_err (\<lambda>_. ''printable'') (printable_new d ''ABC'')) (\<lambda>printable.
     and_then (map_err (\<lambda>_. ''teletex'') (teletex_new d ''tel'')) (\<lambda>teletex.
     and_then (map_err (\<lambda>_. ''bmp'') (bmp_from_utf8 d ''Bmp'')) (\<lambda>bmp.
     and_then (map_err (\<lambda>_. ''bits'') (bitstring_new d 3 [168])) (\<lambda>bits.
     and_then (map_err (\<lambda>_. ''oid'') (oid_new d ''1.2.840.113549.1.1.1'')) (\<lambda>oid.
     and_then (map_err (\<lambda>_. ''any'') (integer_any [1])) (\<lambda>any.
     and_then (map_err (\<lambda>_. ''datetime'') (datetime_new [2024, 6, 15, 12, 30, 45])) (\<lambda>datetime.
     and_then (map_err (\<lambda>_. ''utc'') (utc_from_datetime d datetime)) (\<lambda>utc.
       Inr (RStruct
         [(''flag'', RBool True), (''empty'', RNull), (''i8_value'', RI8 (- 7)), (''u16_value'', RU16 1000),
          (''i32_value'', RI32 (- 300000)), (''u32_value'', RU32 4000000000), (''u64_value'', RU64 9000000000000000000),
          (''i64_value'', RI64 (- 9000000000000000000)), (''ia5'', ROpaque ia5), (''printable'', ROpaque printable),
          (''teletex'', ROpaque teletex), (''bmp'', ROpaque bmp), (''bits'', ROpaque bits), (''oid'', ROpaque oid),
          (''any'', ROpaque any), (''utc'', ROpaque utc), (''generalized'', ROpaque (generalized_from_datetime d datetime))]))))))))))"

definition sample_nest_bundle ::
  "'d surroundings \<Rightarrow> ('d rust_value list \<Rightarrow> der_error + 'd rust_value list) \<Rightarrow> string + 'd rust_value" where
  "sample_nest_bundle g set_of_try_from =
     and_then (map_err (\<lambda>_. ''tags'') (set_of_vec g [RString ''a'', RString ''b''])) (\<lambda>tags.
     and_then (map_err (\<lambda>_. ''triple 1'') (sequence_of_add g 3 [] (RU8 1))) (\<lambda>triple.
     and_then (map_err (\<lambda>_. ''triple 2'') (sequence_of_add g 3 triple (RU8 2))) (\<lambda>triple.
     and_then (map_err (\<lambda>_. ''triple 3'') (sequence_of_add g 3 triple (RU8 3))) (\<lambda>triple.
     and_then (map_err (\<lambda>_. ''pair'') (set_of_try_from [RU8 1, RU8 2])) (\<lambda>pair.
       Inr (RStruct
         [(''nested'', ROption (Some (RList [RU8 1, RU8 2, RU8 3]))),
          (''deeper'', ROption (Some (RList [RStruct [(''subject'', RString ''nested'')]]))),
          (''tags'', RList tags), (''triple'', RList triple), (''pair'', RList pair)]))))))"

section \<open>Properties\<close>

text \<open>What the derive makes of the fixtures.\<close>

definition fixture_decls :: "(string \<times> decl) list" where
  "fixture_decls =
     [(''Doc'', Sequence [(''title'', KString)]),
      (''Envelope'', Sequence [(''doc'', KNested [Segment ''Doc'' ArgsNone]), (''payload'', KOctetString)]),
      (''Status'', Enumerated [0, 1, 2]),
      (''StatusReport'', Sequence [(''title'', KString), (''status'', KNested [Segment ''Status'' ArgsNone])]),
      (''ListPad'', Sequence [(''pad'', KU8)]),
      (''RegisterBody'', Sequence [(''doc'', KNested [Segment ''Doc'' ArgsNone])]),
      (''Request'', Choice [(''Register'', [Segment ''RegisterBody'' ArgsNone]), (''List'', [Segment ''ListPad'' ArgsNone])]),
      (''Record'', Sequence [(''subject'', KString)]),
      (''Ack'', Sequence [(''error'', KOption (KNested [Segment ''Status'' ArgsNone]))]),
      (''ListResult'', Sequence [(''records'', KVec (KNested [Segment ''Record'' ArgsNone]))]),
      (''LeafBundle'', Sequence
        [(''flag'', KBool), (''empty'', KNull), (''i8_value'', KI8), (''u16_value'', KU16), (''i32_value'', KI32),
         (''u32_value'', KU32), (''u64_value'', KU64), (''i64_value'', KI64), (''ia5'', KIa5String),
         (''printable'', KPrintableString), (''teletex'', KTeletexString), (''bmp'', KBmpString), (''bits'', KBitString),
         (''oid'', KObjectIdentifier), (''any'', KAny), (''utc'', KUtcTime), (''generalized'', KGeneralizedTime)]),
      (''NestBundle'', Sequence
        [(''nested'', KOption (KVec KU8)), (''deeper'', KOption (KVec (KNested [Segment ''Record'' ArgsNone]))),
         (''tags'', KSetOfVec KString), (''triple'', KSequenceOf KU8 (ExprLit 3)), (''pair'', KSetOf KU8 (ExprLit 2))])]"

lemma fixtures_expand:
  "map (map_sum (\<lambda>e. e) impl_decl \<circ> expand) fixtures = map (Inr \<circ> snd) fixture_decls"
  by code_simp

text \<open>
  The wire types in scope are the fixtures, each under the declaration its derive emits. The \<^verbatim>\<open>der\<close> crate
  documents that what a constructor accepts reads back from its own text, and the containers that a
  set once built stays as it is and that a fixed-length list takes elements up to its length.
\<close>

definition fixture_scope :: "'d surroundings \<Rightarrow> bool" where
  "fixture_scope g \<longleftrightarrow> (\<forall>name. decls g [Segment name ArgsNone] = map_of fixture_decls name)"

definition der_reads_back :: "'d der_api \<Rightarrow> (bytes \<Rightarrow> der_error + 'd) \<Rightarrow> bool" where
  "der_reads_back d integer_any \<longleftrightarrow>
     (\<forall>t x. ia5_new d t = Inr x \<longrightarrow> leaf_fits d KIa5String (ROpaque x)) \<and>
     (\<forall>t x. printable_new d t = Inr x \<longrightarrow> leaf_fits d KPrintableString (ROpaque x)) \<and>
     (\<forall>t x. teletex_new d t = Inr x \<longrightarrow> leaf_fits d KTeletexString (ROpaque x)) \<and>
     (\<forall>t x. bmp_from_utf8 d t = Inr x \<longrightarrow> leaf_fits d KBmpString (ROpaque x)) \<and>
     (\<forall>n b x. bitstring_new d n b = Inr x \<longrightarrow> leaf_fits d KBitString (ROpaque x)) \<and>
     (\<forall>t x. oid_new d t = Inr x \<longrightarrow> leaf_fits d KObjectIdentifier (ROpaque x)) \<and>
     (\<forall>b x. integer_any b = Inr x \<longrightarrow> leaf_fits d KAny (ROpaque x)) \<and>
     (\<forall>t x. utc_from_datetime d t = Inr x \<longrightarrow> leaf_fits d KUtcTime (ROpaque x)) \<and>
     (\<forall>t. leaf_fits d KGeneralizedTime (ROpaque (generalized_from_datetime d t)))"

definition containers_read_back :: "'d surroundings \<Rightarrow> ('d rust_value list \<Rightarrow> der_error + 'd rust_value list) \<Rightarrow> bool" where
  "containers_read_back g set_of_try_from \<longleftrightarrow>
     (\<forall>xs ys. set_of_vec g xs = Inr ys \<longrightarrow> set_of_vec g ys = Inr ys \<and> set ys = set xs) \<and>
     (\<forall>n xs x. length xs < n \<longrightarrow> sequence_of_add g n xs x = Inr (xs @ [x])) \<and>
     (\<forall>xs ys. set_of_try_from xs = Inr ys \<longrightarrow> length ys = length xs \<and> set ys = set xs \<and>
        read_into (set_of_insert g (length xs)) Inr ys [] = Inr ys)"

lemma leaf_bundle_is_a:
  assumes "fixture_scope g" and "der_reads_back (der g) integer_any"
    and "sample_leaf_bundle (der g) integer_any datetime_new = Inr r"
  shows "is_a g [Segment ''LeafBundle'' ArgsNone] r"
proof -
  obtain fs where fs: "decls g [Segment ''LeafBundle'' ArgsNone] = Some (Sequence fs)"
    "map_of fixture_decls ''LeafBundle'' = Some (Sequence fs)"
    using assms(1) by (simp add: fixture_scope_def fixture_decls_def)
  obtain xs where xs: "r = RStruct xs" "map fst xs = map fst fs"
    "\<forall>f \<in> set fs. \<exists>x. map_of xs (fst f) = Some x \<and> leaf_fits (der g) (snd f) x"
    using assms(2,3) fs(2)
    by (auto simp: sample_leaf_bundle_def der_reads_back_def fixture_decls_def result_simps simp del: leaf_fits.simps(12-21))
  have "distinct (map fst fs)" using fs(2) by (auto simp: fixture_decls_def)
  with xs(2,3) show ?thesis unfolding xs(1) by (intro is_sequence [OF fs(1)]) (blast intro: fits_leaf)+
qed

lemma nest_bundle_is_a:
  assumes "fixture_scope g" and "containers_read_back g set_of_try_from" and "sample_nest_bundle g set_of_try_from = Inr r"
  shows "is_a g [Segment ''NestBundle'' ArgsNone] r"
proof -
  have decl: "decls g [Segment ''Record'' ArgsNone] = Some (Sequence [(''subject'', KString)])"
    "decls g [Segment ''NestBundle'' ArgsNone] = Some (Sequence
       [(''nested'', KOption (KVec KU8)), (''deeper'', KOption (KVec (KNested [Segment ''Record'' ArgsNone]))),
        (''tags'', KSetOfVec KString), (''triple'', KSequenceOf KU8 (ExprLit 3)), (''pair'', KSetOf KU8 (ExprLit 2))])"
    using assms(1) by (simp_all add: fixture_scope_def fixture_decls_def)
  note law = assms(2) [unfolded containers_read_back_def]
  obtain tags pair where built: "set_of_vec g [RString ''a'', RString ''b''] = Inr tags" "set_of_try_from [RU8 1, RU8 2] = Inr pair"
    and r: "r = RStruct
         [(''nested'', ROption (Some (RList [RU8 1, RU8 2, RU8 3]))),
          (''deeper'', ROption (Some (RList [RStruct [(''subject'', RString ''nested'')]]))),
          (''tags'', RList tags), (''triple'', RList [RU8 1, RU8 2, RU8 3]), (''pair'', RList pair)]"
    using assms(3) law by (auto simp: sample_nest_bundle_def result_simps)
  have leaf: "fits g KU8 (RU8 n)" "fits g KString (RString t)" for n t by (auto intro: fits_leaf)
  have "is_a g [Segment ''Record'' ArgsNone] (RStruct [(''subject'', RString ''nested'')])"
    by (intro is_sequence [OF decl(1)]) (simp_all add: leaf)
  then have "fits g (KOption (KVec (KNested [Segment ''Record'' ArgsNone]))) (ROption (Some (RList [RStruct [(''subject'', RString ''nested'')]])))"
    by (intro fits_some fits_vec) (auto intro: fits_nested simp: nullable_def)
  moreover have "fits g (KOption (KVec KU8)) (ROption (Some (RList [RU8 1, RU8 2, RU8 3])))"
    by (intro fits_some fits_vec) (auto simp: leaf nullable_def)
  moreover have "fits g (KSetOfVec KString) (RList tags)"
    using law built(1) by (intro fits_set_of_vec) (auto simp: leaf)
  moreover have "fits g (KSequenceOf KU8 (ExprLit 3)) (RList [RU8 1, RU8 2, RU8 3])"
    using law by (intro fits_sequence_of) (auto simp: leaf)
  moreover have "length pair = 2 \<and> set pair = {RU8 1, RU8 2} \<and> read_into (set_of_insert g 2) Inr pair [] = Inr pair"
    using law [THEN conjunct2, THEN conjunct2, rule_format, OF built(2)] by (simp add: numeral_2_eq_2)
  then have "fits g (KSetOf KU8 (ExprLit 2)) (RList pair)"
    by (intro fits_set_of) (auto simp: leaf)
  ultimately show ?thesis unfolding r by (intro is_sequence [OF decl(2)]) auto
qed

text \<open>The two samples survive the trip through JavaScript, whatever \<^verbatim>\<open>der\<close> crate keeps its word.\<close>

lemma fixture_samples_round_trip:
  assumes "fixture_scope g" and "der_reads_back (der g) integer_any" and "containers_read_back g set_of_try_from"
    and "sample_leaf_bundle (der g) integer_any datetime_new = Inr l" and "sample_nest_bundle g set_of_try_from = Inr n"
  shows "(\<exists>v. to_js g [Segment ''LeafBundle'' ArgsNone] l = Inr v \<and> from_js g [Segment ''LeafBundle'' ArgsNone] v = Inr l) \<and>
    (\<exists>v. to_js g [Segment ''NestBundle'' ArgsNone] n = Inr v \<and> from_js g [Segment ''NestBundle'' ArgsNone] v = Inr n)"
  using leaf_bundle_is_a [OF assms(1,2,4)] nest_bundle_is_a [OF assms(1,3,5)]
  by (intro conjI wire_codec.gives_back)

text \<open>The module's hand-written header imports exactly the exports of the fixtures, decoders first, each sorted.\<close>

lemma fixture_header_imports_exports:
  "case map_result expand fixtures of
     Inl _ \<Rightarrow> False
   | Inr es \<Rightarrow>
       CODECS_TS_HEADER =
         ''import type { MessageCodec } from '' @ QUOTE @ ''@wahidgroup/tightbeam-ws-client'' @ QUOTE @ '';'' @ NL @ NL @
         ''import {'' @ NL @ concat (map module_line (sort (map decode_js_name es) @ sort (map encode_js_name es))) @
         ''} from '' @ QUOTE @ ''./tightbeam_asn_fixtures.js'' @ QUOTE @ '';'' @ NL @ NL"
  by code_simp

end
