(* ===== verification/Asn_Typing.thy ===== *)
theory Asn_Typing
  imports Asn_Roundtrip
begin

text \<open>
  Type soundness of the generated readers: whatever JavaScript value \<^verbatim>\<open>from_js\<close> accepts, the value it
  builds has the declared Rust type. The hypothesis is what \<^verbatim>\<open>der\<close>'s containers promise: they hold
  only elements that were put in.
\<close>

fun leaf_shape :: "field_kind \<Rightarrow> 'd rust_value \<Rightarrow> bool" where
  "leaf_shape KBool r = (case r of RBool _ \<Rightarrow> True | _ \<Rightarrow> False)"
| "leaf_shape KNull r = (case r of RNull \<Rightarrow> True | _ \<Rightarrow> False)"
| "leaf_shape KU8 r = (case r of RU8 _ \<Rightarrow> True | _ \<Rightarrow> False)"
| "leaf_shape KU16 r = (case r of RU16 _ \<Rightarrow> True | _ \<Rightarrow> False)"
| "leaf_shape KU32 r = (case r of RU32 _ \<Rightarrow> True | _ \<Rightarrow> False)"
| "leaf_shape KU64 r = (case r of RU64 _ \<Rightarrow> True | _ \<Rightarrow> False)"
| "leaf_shape KI8 r = (case r of RI8 _ \<Rightarrow> True | _ \<Rightarrow> False)"
| "leaf_shape KI16 r = (case r of RI16 _ \<Rightarrow> True | _ \<Rightarrow> False)"
| "leaf_shape KI32 r = (case r of RI32 _ \<Rightarrow> True | _ \<Rightarrow> False)"
| "leaf_shape KI64 r = (case r of RI64 _ \<Rightarrow> True | _ \<Rightarrow> False)"
| "leaf_shape KString r = (case r of RString _ \<Rightarrow> True | _ \<Rightarrow> False)"
| "leaf_shape k r = (k \<in> {KIa5String, KPrintableString, KTeletexString, KBmpString, KOctetString, KBitString,
     KObjectIdentifier, KAny, KUtcTime, KGeneralizedTime} \<and> (case r of ROpaque _ \<Rightarrow> True | _ \<Rightarrow> False))"

text \<open>The typing judgement: of a field kind, and of a declared wire type.\<close>

inductive has_kind :: "'d surroundings \<Rightarrow> field_kind \<Rightarrow> 'd rust_value \<Rightarrow> bool"
  and has_type :: "'d surroundings \<Rightarrow> path \<Rightarrow> 'd rust_value \<Rightarrow> bool" for g where
  kind_leaf: "leaf_shape k r \<Longrightarrow> has_kind g k r"
| kind_nested: "has_type g p r \<Longrightarrow> has_kind g (KNested p) r"
| kind_none: "has_kind g (KOption k) (ROption None)"
| kind_some: "has_kind g k r \<Longrightarrow> has_kind g (KOption k) (ROption (Some r))"
| kind_vec: "(\<forall>x \<in> set xs. has_kind g k x) \<Longrightarrow> has_kind g (KVec k) (RList xs)"
| kind_set_of_vec: "(\<forall>x \<in> set xs. has_kind g k x) \<Longrightarrow> has_kind g (KSetOfVec k) (RList xs)"
| kind_sequence_of: "(\<forall>x \<in> set xs. has_kind g k x) \<Longrightarrow> has_kind g (KSequenceOf k n) (RList xs)"
| kind_set_of: "(\<forall>x \<in> set xs. has_kind g k x) \<Longrightarrow> has_kind g (KSetOf k n) (RList xs)"
| type_sequence: "decls g p = Some (Sequence fs) \<Longrightarrow> map fst xs = map fst fs \<Longrightarrow>
    (\<forall>i < length fs. has_kind g (snd (fs ! i)) (snd (xs ! i))) \<Longrightarrow> has_type g p (RStruct xs)"
| type_enumerated: "decls g p = Some (Enumerated ns) \<Longrightarrow> n \<in> set ns \<Longrightarrow> has_type g p (REnum n)"
| type_choice: "decls g p = Some (Choice vs) \<Longrightarrow> map_of vs key = Some q \<Longrightarrow> has_type g q x \<Longrightarrow> has_type g p (RVariant key x)"

definition containers_hold :: "'d surroundings \<Rightarrow> bool" where
  "containers_hold g \<longleftrightarrow>
     (\<forall>xs ys. set_of_vec g xs = Inr ys \<longrightarrow> set ys \<subseteq> set xs) \<and>
     (\<forall>n xs x ys. sequence_of_add g n xs x = Inr ys \<longrightarrow> set ys \<subseteq> insert x (set xs)) \<and>
     (\<forall>n xs x ys. set_of_insert g n xs x = Inr ys \<longrightarrow> set ys \<subseteq> insert x (set xs))"

lemma leaf_value_shape: "leaf_from_value d k v = Inr r \<Longrightarrow> leaf_shape k r"
  by (cases k) (auto simp: leaf_def and_then_Inr)

lemma leaf_field_shape: "leaf_from_field d k key v = Inr r \<Longrightarrow> leaf_shape k r"
  by (cases k) (auto simp: leaf_def and_then_Inr)

lemma map_result_nth:
  "map_result f xs = Inr ys \<longleftrightarrow> length ys = length xs \<and> (\<forall>i < length xs. f (xs ! i) = Inr (ys ! i))"
proof (induction xs arbitrary: ys)
  case (Cons x xs)
  then show ?case by (cases ys) (auto simp: result_simps nth_Cons split: nat.split)
qed auto

lemma map_result_all:
  assumes "map_result f xs = Inr ys" and "\<And>x y. x \<in> set xs \<Longrightarrow> f x = Inr y \<Longrightarrow> P y"
  shows "\<forall>y \<in> set ys. P y"
proof
  fix y assume "y \<in> set ys"
  then obtain i where "i < length ys" "y = ys ! i" by (auto simp: in_set_conv_nth)
  moreover from this assms(1) have "f (xs ! i) = Inr (ys ! i)" "i < length xs" unfolding map_result_nth by simp_all
  ultimately show "P y" using assms(2) [OF nth_mem] by simp
qed

lemma read_into_all:
  assumes "\<And>acc x ys. add acc x = Inr ys \<Longrightarrow> set ys \<subseteq> insert x (set acc)"
    and "read_into add get xs acc = Inr ys" and "\<forall>y \<in> set acc. P y" and "\<And>x y. x \<in> set xs \<Longrightarrow> get x = Inr y \<Longrightarrow> P y"
  shows "\<forall>y \<in> set ys. P y"
  using assms(2-4)
proof (induction xs arbitrary: acc)
  case (Cons x xs)
  then obtain y acc' where step: "get x = Inr y" "add acc y = Inr acc'" "read_into add get xs acc' = Inr ys"
    by (auto simp: result_simps)
  have "P y" by (rule Cons.prems(3) [OF _ step(1)]) simp
  then have held: "\<forall>z \<in> set acc'. P z" using assms(1) [OF step(2)] Cons.prems(2) by auto
  show ?case by (rule Cons.IH [OF step(3) held]) (rule Cons.prems(3), simp_all)
qed simp

lemma read_fields:
  assumes "map_result (\<lambda>(key, kind). and_then (get kind key) (\<lambda>x. Inr (key, x))) fs = Inr xs"
    and "\<And>key kind x. (key, kind) \<in> set fs \<Longrightarrow> get kind key = Inr x \<Longrightarrow> P kind x"
  shows "map fst xs = map fst fs \<and> (\<forall>i < length fs. P (snd (fs ! i)) (snd (xs ! i)))"
proof -
  have len: "length xs = length fs" and each: "i < length fs \<Longrightarrow>
      (case fs ! i of (key, kind) \<Rightarrow> and_then (get kind key) (\<lambda>x. Inr (key, x))) = Inr (xs ! i)" for i
    using assms(1) unfolding map_result_nth by simp_all
  have field: "fst (xs ! i) = fst (fs ! i) \<and> P (snd (fs ! i)) (snd (xs ! i))" if "i < length fs" for i
  proof -
    obtain key kind where f: "fs ! i = (key, kind)" by (cases "fs ! i")
    with each [OF that] obtain x where "get kind key = Inr x" "xs ! i = (key, x)" by (auto simp: and_then_Inr)
    moreover have "(key, kind) \<in> set fs" using that f nth_mem by metis
    ultimately show ?thesis using assms(2) f by simp
  qed
  have "map fst xs = map fst fs" using len field by (intro nth_equalityI) simp_all
  with field show ?thesis by simp
qed

text \<open>Reading the elements of a container, whichever way they are put together.\<close>

lemma read_items:
  assumes "containers_hold g" and "\<And>x r. x \<in> set vs \<Longrightarrow> get x = Inr r \<Longrightarrow> P r"
  shows "map_result get vs = Inr xs \<Longrightarrow> \<forall>y \<in> set xs. P y"
    and "map_result get vs = Inr items \<Longrightarrow> set_of_vec g items = Inr xs \<Longrightarrow> \<forall>y \<in> set xs. P y"
    and "read_into (sequence_of_add g n) get vs [] = Inr xs \<Longrightarrow> \<forall>y \<in> set xs. P y"
    and "read_into (set_of_insert g n) get vs [] = Inr xs \<Longrightarrow> \<forall>y \<in> set xs. P y"
proof -
  have listed: "\<forall>y \<in> set xs. P y" if "map_result get vs = Inr xs" for xs
    using that assms(2) by (rule map_result_all)
  show "\<forall>y \<in> set xs. P y" if "map_result get vs = Inr xs" using that by (rule listed)
  show "\<forall>y \<in> set xs. P y" if "map_result get vs = Inr items" "set_of_vec g items = Inr xs"
    using listed [OF that(1)] that(2) assms(1) unfolding containers_hold_def by blast
  show "\<forall>y \<in> set xs. P y" if "read_into (sequence_of_add g n) get vs [] = Inr xs"
    by (rule read_into_all [OF _ that]) (use assms in \<open>auto simp: containers_hold_def\<close>)
  show "\<forall>y \<in> set xs. P y" if "read_into (set_of_insert g n) get vs [] = Inr xs"
    by (rule read_into_all [OF _ that]) (use assms in \<open>auto simp: containers_hold_def\<close>)
qed

lemma reading_well_typed:
  "containers_hold g \<Longrightarrow> from_js g p v = Inr r \<Longrightarrow> has_type g p r"
  "containers_hold g \<Longrightarrow> from_value g k v = Inr r \<Longrightarrow> has_kind g k r"
  "containers_hold g \<Longrightarrow> from_field g k key v = Inr r \<Longrightarrow> has_kind g k r"
proof (induction g p v and g k v and g k key v arbitrary: r and r and r rule: from_js_from_value_from_field.induct)
  case (1 g p v)
  show ?case
  proof (cases "decls g p")
    case None
    with 1 show ?thesis by (simp add: from_js.simps)
  next
    case (Some d)
    show ?thesis
    proof (cases d)
      case (Sequence fs)
      from 1(4) obtain xs where xs: "r = RStruct xs"
        "map_result (\<lambda>(key, kind). and_then (from_field g kind key v) (\<lambda>x. Inr (key, x))) fs = Inr xs"
        by (auto simp: from_js.simps [of g p v] Some Sequence result_simps)
      have "map fst xs = map fst fs \<and> (\<forall>i < length fs. has_kind g (snd (fs ! i)) (snd (xs ! i)))"
        by (rule read_fields [OF xs(2)]) (use 1(1) [OF Some Sequence _ refl] 1(3) in blast)
      with Some Sequence xs(1) show ?thesis by (auto intro: type_sequence)
    next
      case (Enumerated ns)
      with 1(4) Some show ?thesis by (auto simp: from_js.simps [of g p v] result_simps intro: type_enumerated split: if_splits)
    next
      case (Choice vs)
      from 1(4) obtain key entry q x where x: "single_entry v = Inr (key, entry)" "map_of vs key = Some q"
        "from_js g q entry = Inr x" "r = RVariant key x"
        by (auto simp: from_js.simps [of g p v] Some Choice result_simps split: option.splits)
      from 1(2) [OF Some Choice x(1) refl x(2) 1(3) x(3)] have "has_type g q x" .
      with Some Choice x show ?thesis by (auto intro: type_choice)
    qed
  qed
next
  case (3 g kind v)
  then show ?case by (auto simp: and_then_Inr intro: kind_none kind_some split: if_splits)
next
  case (10 g kind key v)
  then obtain found where found: "optional_field v key = Inr found" by (auto simp: and_then_Inr)
  show ?case
  proof (cases found)
    case None
    with 10(3) found show ?thesis by (auto intro: kind_none)
  next
    case (Some present)
    with 10(3) found obtain x where "from_value g kind present = Inr x" "r = ROption (Some x)" by (auto simp: and_then_Inr)
    with 10(1) [OF found Some 10(2)] show ?thesis by (auto intro: kind_some)
  qed
next
  case (4 g kind v)
  then obtain vs xs where "as_array v = Inr vs" "map_result (from_value g kind) vs = Inr xs" "r = RList xs"
    by (auto simp: and_then_Inr)
  with read_items(1) [OF 4(2), of vs "from_value g kind"] 4(1,2) show ?case by (metis kind_vec)
next
  case (5 g kind v)
  then obtain vs items xs where "as_array v = Inr vs" "map_result (from_value g kind) vs = Inr items"
    "set_of_vec g items = Inr xs" "r = RList xs" by (auto simp: and_then_Inr)
  with read_items(2) [OF 5(2), of vs "from_value g kind"] 5(1,2) show ?case by (metis kind_set_of_vec)
next
  case (6 g kind len v)
  then obtain vs xs where "as_array_len v (len_of g len) = Inr vs"
    "read_into (sequence_of_add g (len_of g len)) (from_value g kind) vs [] = Inr xs" "r = RList xs"
    by (auto simp: and_then_Inr)
  with read_items(3) [OF 6(2), of vs "from_value g kind"] 6(1,2) show ?case by (metis kind_sequence_of)
next
  case (7 g kind len v)
  then obtain vs xs where "as_array_len v (len_of g len) = Inr vs"
    "read_into (set_of_insert g (len_of g len)) (from_value g kind) vs [] = Inr xs" "r = RList xs"
    by (auto simp: and_then_Inr)
  with read_items(4) [OF 7(2), of vs "from_value g kind"] 7(1,2) show ?case by (metis kind_set_of)
next
  case (11 g kind key v)
  then obtain vs xs where "array_field v key = Inr vs" "map_result (from_value g kind) vs = Inr xs" "r = RList xs"
    by (auto simp: and_then_Inr)
  with read_items(1) [OF 11(2), of vs "from_value g kind"] 11(1,2) show ?case by (metis kind_vec)
next
  case (12 g kind key v)
  then obtain vs items xs where "array_field v key = Inr vs" "map_result (from_value g kind) vs = Inr items"
    "set_of_vec g items = Inr xs" "r = RList xs" by (auto simp: and_then_Inr)
  with read_items(2) [OF 12(2), of vs "from_value g kind"] 12(1,2) show ?case by (metis kind_set_of_vec)
next
  case (13 g kind len key v)
  then obtain vs xs where "array_field v key = Inr vs" "\<not> length vs \<noteq> len_of g len"
    "read_into (sequence_of_add g (len_of g len)) (from_value g kind) vs [] = Inr xs" "r = RList xs"
    by (auto simp: and_then_Inr split: if_splits)
  with read_items(3) [OF 13(2), of vs "from_value g kind"] 13(1,2) show ?case by (metis kind_sequence_of)
next
  case (14 g kind len key v)
  then obtain vs xs where "array_field v key = Inr vs" "\<not> length vs \<noteq> len_of g len"
    "read_into (set_of_insert g (len_of g len)) (from_value g kind) vs [] = Inr xs" "r = RList xs"
    by (auto simp: and_then_Inr split: if_splits)
  with read_items(4) [OF 14(2), of vs "from_value g kind"] 14(1,2) show ?case by (metis kind_set_of)
qed (auto simp: leaf_def and_then_Inr intro!: kind_leaf kind_nested)



end
