(* ===== verification/Asn_Emit.thy ===== *)
theory Asn_Emit
  imports Rust_Text "HOL-Library.Char_ord" "HOL-Library.List_Lexorder"
begin

text \<open>
  The generator of TypeScript codecs (\<^verbatim>\<open>asn/tightbeam-asn/src/emit.rs\<close>) and its command line
  (\<^verbatim>\<open>asn/tightbeam-asn/src/bin/tightbeam-asn-emit.rs\<close>): which \<^verbatim>\<open>encode\<close>/\<^verbatim>\<open>decode\<close> pairs a declaration
  file exports, the module written for them, and the argument parser. A \<^verbatim>\<open>BTreeSet<String>\<close> is its
  elements in ascending order of their octets; the file system is a parameter.
\<close>

section \<open>Discovering pairs\<close>

definition is_ascii_alphanumeric :: "char \<Rightarrow> bool" where
  "is_ascii_alphanumeric c \<longleftrightarrow>
     (let n = (of_char c :: nat) in 48 \<le> n \<and> n \<le> 57 \<or> 65 \<le> n \<and> n \<le> 90 \<or> 97 \<le> n \<and> n \<le> 122)"

datatype 'io emit_error = Io 'io | NoCodecPairs

record emit_options =
  import_spec :: string
  init_import :: "string option"
  message_codec_from :: string

definition default_emit_options :: emit_options where
  "default_emit_options =
     \<lparr>import_spec = ''#apollyon-asn'', init_import = None,
      message_codec_from = ''@wahidgroup/tightbeam-ws-client''\<rparr>"

text \<open>One pass of the loop of \<^verbatim>\<open>collect_export_names\<close>: the name the line adds, if any.\<close>

definition export_name :: "string \<Rightarrow> string \<Rightarrow> string option" where
  "export_name marker line =
     (case strip_prefix marker (trim_start line) of
        None \<Rightarrow> None
      | Some rest \<Rightarrow>
          if CHR ''('' \<notin> set rest then None
          else let name = takeWhile (\<lambda>c. c \<noteq> CHR ''('') rest
               in if name = [] then None
                  else if \<not> list_all (\<lambda>ch. is_ascii_alphanumeric ch \<or> ch = CHR ''_'') name then None
                  else Some name)"

fun collect_names :: "string \<Rightarrow> string list \<Rightarrow> string list \<Rightarrow> string list" where
  "collect_names marker [] names = names"
| "collect_names marker (line # ls) names =
     (case export_name marker line of
        None \<Rightarrow> collect_names marker ls names
      | Some name \<Rightarrow> collect_names marker ls (insort_insert name names))"

definition collect_export_names :: "string \<Rightarrow> string \<Rightarrow> string list" where
  "collect_export_names dts prefix = collect_names (''export function '' @ prefix) (str_lines dts) []"

definition discover_pairs :: "string \<Rightarrow> 'io emit_error + string list" where
  "discover_pairs dts =
     (let encodes = collect_export_names dts ''encode'';
          decodes = collect_export_names dts ''decode'';
          names = filter (\<lambda>name. name \<in> set decodes) encodes
      in if names = [] then Inl NoCodecPairs else Inr names)"

section \<open>The module\<close>

definition emit_imports :: "string list \<Rightarrow> emit_options \<Rightarrow> string" where
  "emit_imports names opts =
     ''// Generated by tightbeam-asn-emit. DO NOT EDIT.'' @ NL @
     ''// Regenerate after wasm-pack via the consumer asn-wasm script.'' @ NL @
     NL @
     ''import type { MessageCodec } from '' @ QUOTE @ message_codec_from opts @ QUOTE @ '';'' @ NL @ NL @
     ''import type * as Asn from '' @ QUOTE @ import_spec opts @ QUOTE @ '';'' @ NL @
     (case init_import opts of
        Some spec \<Rightarrow> ''import { ensureAsnInit } from '' @ QUOTE @ spec @ QUOTE @ '';'' @ NL
      | None \<Rightarrow> []) @
     ''import {'' @ NL @
     concat (map (\<lambda>name. TAB @ ''decode'' @ name @ '','' @ NL) names) @
     concat (map (\<lambda>(index, name). TAB @ ''encode'' @ name @ (if index + 1 < length names then '','' @ NL else NL))
       (enumerate 0 names)) @
     ''} from '' @ QUOTE @ import_spec opts @ QUOTE @ '';'' @ NL @ NL"

definition emit_helpers :: "emit_options \<Rightarrow> string" where
  "emit_helpers opts =
     ''function asCodec<T>('' @ NL @
     TAB @ ''encode: (value: T) => Uint8Array,'' @ NL @
     TAB @ ''decode: (bodyDer: Uint8Array) => T,'' @ NL @
     ''): MessageCodec<T> {'' @ NL @
     TAB @ ''return { encode, decode };'' @ NL @
     ''}'' @ NL @
     (if init_import opts \<noteq> None
      then NL @
        ''export async function encodeAsn<T>('' @ NL @
        TAB @ ''codec: MessageCodec<T>,'' @ NL @
        TAB @ ''value: T,'' @ NL @
        ''): Promise<Uint8Array> {'' @ NL @
        TAB @ ''await ensureAsnInit();'' @ NL @
        TAB @ ''return codec.encode(value);'' @ NL @
        ''}'' @ NL @ NL @
        ''export async function decodeAsn<T>('' @ NL @
        TAB @ ''codec: MessageCodec<T>,'' @ NL @
        TAB @ ''bodyDer: Uint8Array,'' @ NL @
        ''): Promise<T> {'' @ NL @
        TAB @ ''await ensureAsnInit();'' @ NL @
        TAB @ ''return codec.decode(bodyDer);'' @ NL @
        ''}'' @ NL
      else [])"

definition emit_codec :: "string \<Rightarrow> string" where
  "emit_codec name =
     NL @ ''export const '' @ name @ '': MessageCodec<'' @ name @ ''> = asCodec('' @ NL @
     TAB @ ''encode'' @ name @ '','' @ NL @
     TAB @ ''decode'' @ name @ '','' @ NL @
     '');'' @ NL"

definition emit_codecs_ts :: "string list \<Rightarrow> emit_options \<Rightarrow> string" where
  "emit_codecs_ts names opts =
     emit_imports names opts @
     concat (map (\<lambda>name. ''export type '' @ name @ '' = Asn.'' @ name @ '';'' @ NL) names) @
     NL @
     emit_helpers opts @
     concat (map emit_codec names)"

section \<open>Files\<close>

text \<open>
  The file system calls, over its state \<open>'s\<close>: what a read returns, and the state a creation or a
  write leaves with its outcome. A path is its text.
\<close>

record ('s, 'io) file_system =
  read_to_string :: "'s \<Rightarrow> string \<Rightarrow> 'io + string"
  parent :: "string \<Rightarrow> string option"
  create_dir_all :: "string \<Rightarrow> 's \<Rightarrow> 's \<times> ('io + unit)"
  write_file :: "string \<Rightarrow> string \<Rightarrow> 's \<Rightarrow> 's \<times> ('io + unit)"

definition create_parent :: "('s, 'io) file_system \<Rightarrow> string \<Rightarrow> 's \<Rightarrow> 's \<times> ('io + unit)" where
  "create_parent fs out s =
     (case parent fs out of
        Some dir \<Rightarrow> if dir \<noteq> [] then create_dir_all fs dir s else (s, Inr ())
      | None \<Rightarrow> (s, Inr ()))"

definition emit_from_paths ::
  "('s, 'io) file_system \<Rightarrow> string \<Rightarrow> string \<Rightarrow> emit_options \<Rightarrow> 's \<Rightarrow> 's \<times> ('io emit_error + string list)" where
  "emit_from_paths fs from_dts out opts s =
     (case read_to_string fs s from_dts of
        Inl e \<Rightarrow> (s, Inl (Io e))
      | Inr dts \<Rightarrow>
          (case discover_pairs dts of
             Inl e \<Rightarrow> (s, Inl e)
           | Inr names \<Rightarrow>
               let source = emit_codecs_ts names opts
               in case create_parent fs out s of
                    (s', Inl e) \<Rightarrow> (s', Inl (Io e))
                  | (s', Inr ()) \<Rightarrow>
                      (case write_file fs out source s' of
                         (s'', Inl e) \<Rightarrow> (s'', Inl (Io e))
                       | (s'', Inr ()) \<Rightarrow> (s'', Inr names))))"

section \<open>The command line\<close>

datatype 'io cli_error =
    MissingFromDts
  | MissingOut
  | UnknownArg string
  | MissingValue string
  | Emit "'io emit_error"

record emit_args =
  from_dts_path :: string
  out_path :: string
  args_opts :: emit_options

datatype parsed = Help | Run emit_args

fun require_value :: "string list \<Rightarrow> string \<Rightarrow> 'io cli_error + string \<times> string list" where
  "require_value [] flag = Inl (MissingValue flag)"
| "require_value (v # iter) flag = Inr (v, iter)"

lemma require_value_shorter: "require_value iter flag = Inr (v, rest) \<Longrightarrow> length rest < length iter"
  by (cases iter) auto

text \<open>The loop of \<^verbatim>\<open>parse_args\<close>, over the iterator and its three variables.\<close>

function parse_loop ::
  "string list \<Rightarrow> string option \<Rightarrow> string option \<Rightarrow> emit_options \<Rightarrow> 'io cli_error + parsed" where
  "parse_loop [] from_dts out opts =
     (case from_dts of
        None \<Rightarrow> Inl MissingFromDts
      | Some from_dts \<Rightarrow>
          (case out of
             None \<Rightarrow> Inl MissingOut
           | Some out \<Rightarrow> Inr (Run \<lparr>from_dts_path = from_dts, out_path = out, args_opts = opts\<rparr>)))"
| "parse_loop (arg # iter) from_dts out opts =
     (if arg = ''--from-dts'' then
        and_then (require_value iter ''--from-dts'') (\<lambda>(v, rest). parse_loop rest (Some v) out opts)
      else if arg = ''--out'' then
        and_then (require_value iter ''--out'') (\<lambda>(v, rest). parse_loop rest from_dts (Some v) opts)
      else if arg = ''--import'' then
        and_then (require_value iter ''--import'') (\<lambda>(v, rest).
          parse_loop rest from_dts out (opts\<lparr>import_spec := v\<rparr>))
      else if arg = ''--init-import'' then
        and_then (require_value iter ''--init-import'') (\<lambda>(v, rest).
          parse_loop rest from_dts out (opts\<lparr>init_import := Some v\<rparr>))
      else if arg = ''--message-codec-from'' then
        and_then (require_value iter ''--message-codec-from'') (\<lambda>(v, rest).
          parse_loop rest from_dts out (opts\<lparr>message_codec_from := v\<rparr>))
      else if arg = ''--help'' \<or> arg = ''-h'' then Inr Help
      else Inl (UnknownArg arg))"
  by pat_completeness auto
termination
  by (relation "measure (\<lambda>(iter, _). length iter)") (auto dest: require_value_shorter)

definition parse_args :: "string list \<Rightarrow> 'io cli_error + parsed" where
  "parse_args argv = parse_loop argv None None default_emit_options"

text \<open>\<^verbatim>\<open>run\<close>: parse, then emit; the usage text and the summary line go to the terminal.\<close>

definition run ::
  "('s, 'io) file_system \<Rightarrow> string list \<Rightarrow> 's \<Rightarrow> 's \<times> ('io cli_error + unit)" where
  "run fs argv s =
     (case parse_args argv of
        Inl e \<Rightarrow> (s, Inl e)
      | Inr Help \<Rightarrow> (s, Inr ())
      | Inr (Run args) \<Rightarrow>
          (case emit_from_paths fs (from_dts_path args) (out_path args) (args_opts args) s of
             (s', Inl e) \<Rightarrow> (s', Inl (Emit e))
           | (s', Inr names) \<Rightarrow> (s', Inr ())))"

text \<open>\<^verbatim>\<open>main\<close>: whether the process ends with success.\<close>

definition emit_main :: "('s, 'io) file_system \<Rightarrow> string list \<Rightarrow> 's \<Rightarrow> 's \<times> bool" where
  "emit_main fs argv s = (case run fs argv s of (s', Inr _) \<Rightarrow> (s', True) | (s', Inl _) \<Rightarrow> (s', False))"

section \<open>Properties\<close>

definition is_identifier :: "string \<Rightarrow> bool" where
  "is_identifier name \<longleftrightarrow> name \<noteq> [] \<and> list_all (\<lambda>ch. is_ascii_alphanumeric ch \<or> ch = CHR ''_'') name"

text \<open>
  What it means for a declaration file to export a function named \<open>prefix @ name\<close>: a line that is
  white space, \<^verbatim>\<open>export function\<close>, the name and an opening parenthesis.
\<close>

definition declares :: "string \<Rightarrow> string \<Rightarrow> string \<Rightarrow> bool" where
  "declares dts prefix name \<longleftrightarrow>
     is_identifier name \<and>
     (\<exists>line \<in> set (str_lines dts). \<exists>ws rest. set ws \<subseteq> set white_space \<and>
        line = concat ws @ ''export function '' @ prefix @ name @ ''('' @ rest)"

lemma before_parenthesis:
  "CHR ''('' \<in> set rest \<and> takeWhile (\<lambda>c. c \<noteq> CHR ''('') rest = name \<longleftrightarrow>
     (\<exists>tail. rest = name @ ''('' @ tail) \<and> CHR ''('' \<notin> set name"
proof
  have "CHR ''('' \<in> set rest \<Longrightarrow> \<exists>tail. rest = takeWhile (\<lambda>c. c \<noteq> CHR ''('') rest @ ''('' @ tail"
    by (induction rest) auto
  moreover have "CHR ''('' \<notin> set (takeWhile (\<lambda>c. c \<noteq> CHR ''('') rest)" by (auto dest: set_takeWhileD)
  moreover assume "CHR ''('' \<in> set rest \<and> takeWhile (\<lambda>c. c \<noteq> CHR ''('') rest = name"
  ultimately show "(\<exists>tail. rest = name @ ''('' @ tail) \<and> CHR ''('' \<notin> set name" by auto
next
  assume "(\<exists>tail. rest = name @ ''('' @ tail) \<and> CHR ''('' \<notin> set name"
  then obtain tail where "rest = name @ CHR ''('' # tail" "\<And>c. c \<in> set name \<Longrightarrow> c \<noteq> CHR ''(''" by auto
  then show "CHR ''('' \<in> set rest \<and> takeWhile (\<lambda>c. c \<noteq> CHR ''('') rest = name"
    using takeWhile_append2 [of name "\<lambda>c. c \<noteq> CHR ''(''" "CHR ''('' # tail"] by simp
qed

lemma is_identifier_no_parenthesis: "is_identifier name \<Longrightarrow> CHR ''('' \<notin> set name"
  by (auto simp: is_identifier_def list_all_iff is_ascii_alphanumeric_def)

lemma export_name_Some:
  "export_name marker line = Some name \<longleftrightarrow>
     is_identifier name \<and> (\<exists>rest. trim_start line = marker @ name @ ''('' @ rest)"
proof -
  have "export_name marker line = Some name \<longleftrightarrow> is_identifier name \<and>
      (\<exists>rest. trim_start line = marker @ rest \<and>
        CHR ''('' \<in> set rest \<and> takeWhile (\<lambda>c. c \<noteq> CHR ''('') rest = name)"
    unfolding export_name_def is_identifier_def by (auto simp: Let_def strip_prefix_None split: option.splits if_splits)
  then show ?thesis unfolding before_parenthesis using is_identifier_no_parenthesis by auto
qed

lemma trim_export:
  "trim_start line = ''export function '' @ s \<longleftrightarrow>
     (\<exists>ws. set ws \<subseteq> set white_space \<and> line = concat ws @ ''export function '' @ s)"
proof -
  have "trim_start (''export function '' @ s) = ''export function '' @ s" for s
    using trim_start_visible [of "CHR ''e''"] by (simp add: white_space_def)
  then show ?thesis using trim_start_decompose [of line] trim_start_concat by metis
qed

lemma set_collect_names:
  "set (collect_names marker ls names) = set names \<union> {n. \<exists>line \<in> set ls. export_name marker line = Some n}"
  by (induction ls arbitrary: names) (auto simp: set_insort_insert split: option.split)

lemma sorted_collect_names:
  "sorted names \<Longrightarrow> distinct names \<Longrightarrow>
     sorted (collect_names marker ls names) \<and> distinct (collect_names marker ls names)"
  by (induction ls arbitrary: names)
     (auto simp: sorted_insort_insert distinct_insort_insert split: option.split)

lemma set_collect_export_names: "set (collect_export_names dts prefix) = {n. declares dts prefix n}"
  using trim_export [of _ "prefix @ n @ ''('' @ rest" for n rest]
  by (auto simp: collect_export_names_def set_collect_names export_name_Some declares_def) 

text \<open>
  C23. The generator finds exactly the complete pairs: the names it returns are, in ascending order
  and without repetition, those for which the declaration file exports both an \<^verbatim>\<open>encode\<close> and a
  \<^verbatim>\<open>decode\<close> function; a file without any is an error.
\<close>

theorem discover_pairs_exact:
  "discover_pairs dts =
     (let names = sorted_list_of_set {n. declares dts ''encode'' n \<and> declares dts ''decode'' n}
      in if names = [] then Inl NoCodecPairs else Inr names)"
proof -
  let ?enc = "collect_export_names dts ''encode''"
  let ?names = "filter (\<lambda>n. n \<in> set (collect_export_names dts ''decode'')) ?enc"
  have "sorted ?enc \<and> distinct ?enc" by (simp add: collect_export_names_def sorted_collect_names)
  then have "sorted ?names" "distinct ?names" by (simp_all add: sorted_filter [of "\<lambda>x. x", simplified])
  moreover have "set ?names = {n. declares dts ''encode'' n \<and> declares dts ''decode'' n}"
    by (auto simp: set_collect_export_names)
  ultimately have "?names = sorted_list_of_set {n. declares dts ''encode'' n \<and> declares dts ''decode'' n}"
    using sorted_list_of_set.idem_if_sorted_distinct [of ?names] by simp
  then show ?thesis unfolding discover_pairs_def Let_def by (simp only:)
qed

text \<open>The flags that take a value, and what the last setting of each leaves.\<close>

definition value_flags :: "string set" where
  "value_flags = {''--from-dts'', ''--out'', ''--import'', ''--init-import'', ''--message-codec-from''}"

definition flag_words :: "(string \<times> string) list \<Rightarrow> string list" where
  "flag_words settings = concat (map (\<lambda>(flag, value). [flag, value]) settings)"

definition setting_or :: "string option \<Rightarrow> string \<Rightarrow> (string \<times> string) list \<Rightarrow> string option" where
  "setting_or old flag settings = (case map_of (rev settings) flag of None \<Rightarrow> old | Some v \<Rightarrow> Some v)"

lemma setting_or_Cons:
  "setting_or old f ((flag, v) # settings) = setting_or (if f = flag then Some v else old) f settings"
  by (simp add: setting_or_def map_add_def split: option.split)

lemma parse_loop_settings:
  assumes "fst ` set settings \<subseteq> value_flags"
  shows "parse_loop (flag_words settings) from_dts out opts =
    parse_loop [] (setting_or from_dts ''--from-dts'' settings) (setting_or out ''--out'' settings)
      \<lparr>import_spec = the (setting_or (Some (import_spec opts)) ''--import'' settings),
       init_import = setting_or (init_import opts) ''--init-import'' settings,
       message_codec_from = the (setting_or (Some (message_codec_from opts)) ''--message-codec-from'' settings)\<rparr>"
  using assms
proof (induction settings arbitrary: from_dts out opts)
  case Nil
  then show ?case by (cases opts) (simp add: flag_words_def setting_or_def)
next
  case (Cons setting settings)
  obtain flag v where setting: "setting = (flag, v)" by fastforce
  have words: "flag_words ((flag, v) # settings) = flag # v # flag_words settings" by (simp add: flag_words_def)
  from Cons.prems have "flag \<in> value_flags" by (simp add: setting)
  then show ?case
    unfolding setting words value_flags_def
    by (elim insertE emptyE) (simp_all add: setting_or_Cons Cons.IH [OF order_trans [OF image_mono Cons.prems]] subset_insertI del: parse_loop.simps(1))
qed

text \<open>
  The command line is read flag by flag, the last setting of a flag winning whatever the order,
  with the defaults for what is not given; a missing input is reported before a missing output.
\<close>

lemma parse_args_last_wins:
  assumes "fst ` set settings \<subseteq> value_flags"
  shows "parse_args (flag_words settings) =
    (case map_of (rev settings) ''--from-dts'' of
       None \<Rightarrow> Inl MissingFromDts
     | Some f \<Rightarrow>
         (case map_of (rev settings) ''--out'' of
            None \<Rightarrow> Inl MissingOut
          | Some out \<Rightarrow>
              Inr (Run \<lparr>from_dts_path = f, out_path = out, args_opts =
                \<lparr>import_spec = case_option ''#apollyon-asn'' (\<lambda>v. v) (map_of (rev settings) ''--import''),
                 init_import = map_of (rev settings) ''--init-import'',
                 message_codec_from =
                   case_option ''@wahidgroup/tightbeam-ws-client'' (\<lambda>v. v) (map_of (rev settings) ''--message-codec-from'')\<rparr>\<rparr>)))"
  unfolding parse_args_def parse_loop_settings [OF assms]
  by (simp add: setting_or_def default_emit_options_def split: option.split)

end
