(* ===== verification/Ws_Socket.thy ===== *)
theory Ws_Socket
  imports Ws_Fault
begin

text \<open>
  The browser socket's lifecycle (\<^verbatim>\<open>ws/tightbeam-ws-wasm/src/socket.rs\<close>), the timer of the browser clock
  (\<^verbatim>\<open>clock.rs\<close>) and the client's keepalive loop (\<^verbatim>\<open>mux.rs\<close>). The socket is an event target: an event
  reaches the listeners that are attached when it is dispatched, in the order they were attached, and
  a \<^verbatim>\<open>once\<close> listener is detached by its own dispatch. The browser and the \<^verbatim>\<open>gloo\<close> wrapper may dispatch
  any sequence of \<^verbatim>\<open>open\<close> and \<^verbatim>\<open>close\<close> events.
\<close>

section \<open>Events and promises\<close>

record close_event =
  close_code :: "16 word"
  close_reason :: string
  was_clean :: bool

datatype socket_event = SocketOpen | SocketClose close_event

datatype promise = Pending | Fulfilled js_value | Rejected js_value

text \<open>The settlers of a promise act once.\<close>

definition resolve :: "js_value \<Rightarrow> promise \<Rightarrow> promise" where
  "resolve v p = (if p = Pending then Fulfilled v else p)"

definition reject :: "js_value \<Rightarrow> promise \<Rightarrow> promise" where
  "reject v p = (if p = Pending then Rejected v else p)"

definition close_info :: "close_event \<Rightarrow> js_value" where
  "close_info event =
     (let info = JObject [];
          info = set_property info ''code'' (JNumber (number_of_unsigned (close_code event)));
          info = set_property info ''reason'' (JString (close_reason event))
      in set_property info ''wasClean'' (JBool (was_clean event)))"

section \<open>The opening\<close>

text \<open>One \<^verbatim>\<open>opened()\<close> promise: the shared slot, which listeners are attached, and the promise.\<close>

record open_watch =
  watch_held :: bool
  on_open :: bool
  on_close :: bool
  open_outcome :: promise

definition open_promise :: open_watch where
  "open_promise = \<lparr>watch_held = True, on_open = True, on_close = True, open_outcome = Pending\<rparr>"

definition take_watch :: "open_watch \<Rightarrow> open_watch option" where
  "take_watch w = (if watch_held w then Some (w\<lparr>watch_held := False, on_open := False, on_close := False\<rparr>) else None)"

definition closed_before_open :: "close_event \<Rightarrow> js_value" where
  "closed_before_open event =
     connection_closed (''the socket closed before it opened (code '' @ index_name (unat (close_code event)) @ '')'')"

fun watch_dispatch :: "socket_event \<Rightarrow> open_watch \<Rightarrow> open_watch" where
  "watch_dispatch SocketOpen w =
     (if on_open w
      then case take_watch (w\<lparr>on_open := False\<rparr>) of
             Some t \<Rightarrow> t\<lparr>open_outcome := resolve JUndefined (open_outcome t)\<rparr>
           | None \<Rightarrow> w\<lparr>on_open := False\<rparr>
      else w)"
| "watch_dispatch (SocketClose event) w =
     (if on_close w
      then case take_watch (w\<lparr>on_close := False\<rparr>) of
             Some t \<Rightarrow> t\<lparr>open_outcome := reject (closed_before_open event) (open_outcome t)\<rparr>
           | None \<Rightarrow> w\<lparr>on_close := False\<rparr>
      else w)"

section \<open>The monitor\<close>

text \<open>The \<^verbatim>\<open>close\<close> listener with its own closure's slot and its resolver, the \<^verbatim>\<open>closed\<close> promise, and the openings asked for.\<close>

record socket_monitor =
  close_listening :: bool
  close_held :: bool
  resolver :: bool
  closed_promise :: promise
  openings :: "open_watch list"

definition open_observed :: socket_monitor where
  "open_observed =
     \<lparr>close_listening = True, close_held = True, resolver = True, closed_promise = Pending, openings = []\<rparr>"

definition close_dispatch :: "close_event \<Rightarrow> socket_monitor \<Rightarrow> socket_monitor" where
  "close_dispatch event m =
     (if close_listening m
      then let m = m\<lparr>close_listening := False, close_held := False\<rparr>
           in if resolver m
              then m\<lparr>resolver := False, closed_promise := resolve (close_info event) (closed_promise m)\<rparr>
              else m
      else m)"

definition dispatch :: "socket_event \<Rightarrow> socket_monitor \<Rightarrow> socket_monitor" where
  "dispatch event m =
     (let m = (case event of SocketClose e \<Rightarrow> close_dispatch e m | SocketOpen \<Rightarrow> m)
      in m\<lparr>openings := map (watch_dispatch event) (openings m)\<rparr>)"

text \<open>\<^verbatim>\<open>opened()\<close> at a \<^verbatim>\<open>readyState\<close>; a promise that is settled at once has no watch.\<close>

definition opened_watch :: "16 word \<Rightarrow> open_watch" where
  "opened_watch ready_state =
     (if ready_state = 1 then \<lparr>watch_held = False, on_open = False, on_close = False, open_outcome = Fulfilled JUndefined\<rparr>
      else if ready_state = 0 then open_promise
      else \<lparr>watch_held = False, on_open = False, on_close = False,
             open_outcome = Rejected (connection_closed ''the socket closed before it opened'')\<rparr>)"

definition opened_at :: "16 word \<Rightarrow> socket_monitor \<Rightarrow> nat \<times> socket_monitor" where
  "opened_at ready_state m = (length (openings m), m\<lparr>openings := openings m @ [opened_watch ready_state]\<rparr>)"

section \<open>Timers\<close>

definition MAX_TIMEOUT_MILLIS :: rat where "MAX_TIMEOUT_MILLIS = 2147483647"

text \<open>\<^verbatim>\<open>f64::min\<close> against the cap: the cap for a value that is not a number.\<close>

fun timeout_millis :: "js_number \<Rightarrow> js_number" where
  "timeout_millis (Finite x) = Finite (min x MAX_TIMEOUT_MILLIS)"
| "timeout_millis Infinity = Finite MAX_TIMEOUT_MILLIS"
| "timeout_millis NaN = Finite MAX_TIMEOUT_MILLIS"
| "timeout_millis NegInfinity = NegInfinity"

text \<open>
  \<^verbatim>\<open>timeout\<close>: what the host's \<^verbatim>\<open>setTimeout\<close> does with the delay, \<open>None\<close> when the host has none. The
  result is the delay armed, or nothing when the promise resolves at once. \<open>millis\<close> is the span's
  seconds times 1000.
\<close>

definition timeout :: "(js_number \<Rightarrow> js_value + js_value) option \<Rightarrow> js_number \<Rightarrow> js_number option" where
  "timeout set_timeout millis =
     (case set_timeout of
        Some timer \<Rightarrow> (case timer (timeout_millis millis) of Inr _ \<Rightarrow> Some (timeout_millis millis) | Inl _ \<Rightarrow> None)
      | None \<Rightarrow> None)"

text \<open>
  The host's clocks. A host is its global object with property reads, calls and numbers, each of which
  may fail; \<open>over_1000\<close> is the division of a reading by 1000 in floating point.
\<close>

record 'o clock_host =
  host_global :: 'o
  host_get :: "'o \<Rightarrow> string \<Rightarrow> 'o option"
  host_function :: "'o \<Rightarrow> ('o \<Rightarrow> 'o option) option"
  host_f64 :: "'o \<Rightarrow> js_number option"
  date_now :: js_number
  over_1000 :: "js_number \<Rightarrow> js_number"

definition performance_now :: "'o clock_host \<Rightarrow> js_number option" where
  "performance_now host =
     Option.bind (host_get host (host_global host) ''performance'') (\<lambda>performance.
     Option.bind (host_get host performance ''now'') (\<lambda>now.
     Option.bind (host_function host now) (\<lambda>now.
     Option.bind (now performance) (host_f64 host))))"

text \<open>\<^verbatim>\<open>release\<close>: the call it makes on the timer, if any.\<close>

definition release_timer :: "'o clock_host \<Rightarrow> 'o \<Rightarrow> 'o option option" where
  "release_timer host timer =
     map_option (\<lambda>unref. unref timer) (Option.bind (host_get host timer ''unref'') (host_function host))"

text \<open>\<^verbatim>\<open>Duration::try_from_secs_f64\<close> in nanoseconds: refused when negative, not a number or beyond 64 bits of seconds.\<close>

fun duration_from_secs :: "js_number \<Rightarrow> nat option" where
  "duration_from_secs (Finite x) =
     (let nanos = round (x * 10 ^ 9)
      in if x < 0 \<or> 2 ^ 64 * 10 ^ 9 \<le> nanos then None else Some (nat nanos))"
| "duration_from_secs _ = None"

definition monotonic :: "'o clock_host \<Rightarrow> nat" where
  "monotonic host =
     (let millis = (case performance_now host of Some now \<Rightarrow> now | None \<Rightarrow> date_now host)
      in case duration_from_secs (over_1000 host millis) of Some elapsed \<Rightarrow> elapsed | None \<Rightarrow> 0)"

text \<open>The keepalive: sleep, ping, and stop at the first ping that fails. The number of pings sent and whether it ended.\<close>

fun mux_keep_alive :: "(transport_fault + unit) list \<Rightarrow> nat \<times> bool" where
  "mux_keep_alive [] = (0, False)"
| "mux_keep_alive (Inl _ # pings) = (1, True)"
| "mux_keep_alive (Inr _ # pings) = (let (sent, ended) = mux_keep_alive pings in (Suc sent, ended))"

section \<open>Properties\<close>

lemma watch_settled:
  "\<not> on_open w \<Longrightarrow> \<not> on_close w \<Longrightarrow> watch_dispatch e w = w"
  by (cases e) simp_all

lemma watch_first:
  "watch_dispatch e open_promise = \<lparr>watch_held = False, on_open = False, on_close = False,
     open_outcome = (case e of SocketOpen \<Rightarrow> Fulfilled JUndefined | SocketClose event \<Rightarrow> Rejected (closed_before_open event))\<rparr>"
  by (cases e) (simp_all add: open_promise_def take_watch_def resolve_def reject_def)

lemma watch_run_settled:
  "\<not> on_open w \<Longrightarrow> \<not> on_close w \<Longrightarrow> fold watch_dispatch es w = w"
  by (induction es) (simp_all add: watch_settled)

lemma dispatch_openings [simp]: "openings (dispatch e m) = map (watch_dispatch e) (openings m)"
  by (simp add: dispatch_def close_dispatch_def Let_def split: socket_event.split)

lemma run_openings: "openings (fold dispatch es m) = map (fold watch_dispatch es) (openings m)"
  by (induction es arbitrary: m) simp_all

definition close_events :: "socket_event list \<Rightarrow> close_event list" where
  "close_events es = concat (map (\<lambda>e. case e of SocketClose event \<Rightarrow> [event] | SocketOpen \<Rightarrow> []) es)"

lemma closed_stays: "\<not> close_listening m \<Longrightarrow> closed_promise (fold dispatch es m) = closed_promise m \<and> \<not> close_listening (fold dispatch es m)"
  by (induction es arbitrary: m) (simp_all add: dispatch_def close_dispatch_def split: socket_event.split)

lemma run_closed:
  assumes "close_listening m" "resolver m" "closed_promise m = Pending"
  shows "closed_promise (fold dispatch es m) = (case close_events es of [] \<Rightarrow> Pending | event # _ \<Rightarrow> Fulfilled (close_info event))"
  using assms
proof (induction es arbitrary: m)
  case (Cons e es)
  show ?case
  proof (cases e)
    case SocketOpen
    with Cons show ?thesis by (simp add: dispatch_def close_events_def)
  next
    case (SocketClose event)
    have "closed_promise (dispatch e m) = Fulfilled (close_info event)" "\<not> close_listening (dispatch e m)"
      using Cons.prems by (simp_all add: SocketClose dispatch_def close_dispatch_def resolve_def)
    with closed_stays [of "dispatch e m" es] show ?thesis by (simp add: SocketClose close_events_def)
  qed
qed (simp add: close_events_def)

lemma closed_congruence:
  assumes "(close_listening a, resolver a, closed_promise a) = (close_listening b, resolver b, closed_promise b)"
  shows "closed_promise (fold dispatch es a) = closed_promise (fold dispatch es b)"
  using assms
proof (induction es arbitrary: a b)
  case (Cons e es)
  from Cons.prems have "(close_listening (dispatch e a), resolver (dispatch e a), closed_promise (dispatch e a)) =
      (close_listening (dispatch e b), resolver (dispatch e b), closed_promise (dispatch e b))"
    by (simp add: dispatch_def close_dispatch_def Let_def split: socket_event.split)
  from Cons.IH [OF this] show ?case by simp
qed simp

lemma closed_ignores_openings: "closed_promise (fold dispatch es (m\<lparr>openings := ws\<rparr>)) = closed_promise (fold dispatch es m)"
  by (rule closed_congruence) simp

text \<open>
  C40. The socket's promises are settled by the first event that concerns them and by no later one,
  whatever the browser and the wrapper dispatch: an opening asked for while connecting resolves on
  \<^verbatim>\<open>open\<close>, rejects as \<^verbatim>\<open>ConnectionClosed\<close> with the close code on \<^verbatim>\<open>close\<close>, and is pending before either;
  once settled it has no listener left. The \<^verbatim>\<open>closed\<close> promise resolves with the info of the first close
  event, counting the events before the opening was asked for.
\<close>

theorem first_event_settles:
  assumes "opened_at 0 (fold dispatch before open_observed) = (i, m)" and "m' = fold dispatch after m"
  shows "open_outcome (openings m' ! i) =
      (case after of [] \<Rightarrow> Pending
       | SocketOpen # _ \<Rightarrow> Fulfilled JUndefined
       | SocketClose event # _ \<Rightarrow> Rejected (closed_before_open event)) \<and>
    (after \<noteq> [] \<longrightarrow> \<not> on_open (openings m' ! i) \<and> \<not> on_close (openings m' ! i)) \<and>
    closed_promise m' = (case close_events (before @ after) of [] \<Rightarrow> Pending | event # _ \<Rightarrow> Fulfilled (close_info event))"
proof -
  let ?m0 = "fold dispatch before open_observed"
  have i: "i = length (openings ?m0)" and m: "m = ?m0\<lparr>openings := openings ?m0 @ [open_promise]\<rparr>"
    using assms(1) by (simp_all add: opened_at_def opened_watch_def)
  have watch: "openings m' ! i = fold watch_dispatch after open_promise"
    by (simp add: assms(2) m i run_openings nth_append)
  have shape: "fold watch_dispatch after open_promise =
      (case after of [] \<Rightarrow> open_promise | e # _ \<Rightarrow> watch_dispatch e open_promise)"
    by (simp add: watch_first watch_run_settled split: list.split)
  have "open_outcome (openings m' ! i) =
      (case after of [] \<Rightarrow> Pending
       | SocketOpen # _ \<Rightarrow> Fulfilled JUndefined
       | SocketClose event # _ \<Rightarrow> Rejected (closed_before_open event))"
    unfolding watch shape by (simp add: watch_first split: list.split socket_event.split) (simp add: open_promise_def)
  moreover have "after \<noteq> [] \<longrightarrow> \<not> on_open (openings m' ! i) \<and> \<not> on_close (openings m' ! i)"
    unfolding watch shape by (simp add: watch_first split: list.split)
  moreover have "closed_promise m' = closed_promise (fold dispatch (before @ after) open_observed)"
    by (simp add: assms(2) m closed_ignores_openings)
  then have "closed_promise m' = (case close_events (before @ after) of [] \<Rightarrow> Pending | event # _ \<Rightarrow> Fulfilled (close_info event))"
    using run_closed [of open_observed "before @ after"] by (simp add: open_observed_def del: fold_append)
  ultimately show ?thesis by blast
qed

theorem first_event_settles_witness:
  "let event = \<lparr>close_code = 1006, close_reason = [], was_clean = False\<rparr>;
       late = \<lparr>close_code = 1000, close_reason = [], was_clean = True\<rparr>;
       m = fold dispatch [SocketClose event, SocketOpen, SocketClose late] (snd (opened_at 0 open_observed))
   in open_outcome (openings m ! 0) = Rejected (closed_before_open event) \<and> closed_promise m = Fulfilled (close_info event)"
proof -
  have "opened_at 0 (fold dispatch [] open_observed) = (0, snd (opened_at 0 open_observed))"
    by (simp add: opened_at_def open_observed_def)
  from first_event_settles [OF this refl, of "[SocketClose \<lparr>close_code = 1006, close_reason = [], was_clean = False\<rparr>,
      SocketOpen, SocketClose \<lparr>close_code = 1000, close_reason = [], was_clean = True\<rparr>]"]
  show ?thesis by (simp add: close_events_def Let_def del: fold_simps)
qed

text \<open>The close info shows the event, a timer is never armed past the cap, and a host without one never blocks.\<close>

lemma close_info_fields:
  "reflect_get (close_info e) ''code'' = Inr (JNumber (number_of_unsigned (close_code e)))"
  "reflect_get (close_info e) ''reason'' = Inr (JString (close_reason e))"
  "reflect_get (close_info e) ''wasClean'' = Inr (JBool (was_clean e))"
  by (simp_all add: close_info_def set_property_def Let_def)

lemma timeout_bounded:
  "timeout host millis = Some (Finite x) \<Longrightarrow> x \<le> MAX_TIMEOUT_MILLIS" "timeout None millis = None"
  by (cases millis; auto simp: timeout_def split: option.splits sum.splits)+

lemma mux_keep_alive_stops:
  "mux_keep_alive pings =
     (length (takeWhile (\<lambda>p. \<not> isl p) pings) + (if list_all (\<lambda>p. \<not> isl p) pings then 0 else 1),
      \<not> list_all (\<lambda>p. \<not> isl p) pings)"
  by (induction pings rule: mux_keep_alive.induct) simp_all

end
