(* ===== verification/Ws_Signer.thy ===== *)
theory Ws_Signer
  imports Ws_Fault
begin

text \<open>
  The JavaScript-backed transport signer (\<^verbatim>\<open>ws/tightbeam-ws-wasm/src/signer.rs\<close>): binding the signer's
  public key to the certificate, and copying the signature out of whatever array-like the signer
  resolves with.
\<close>

section \<open>Faults\<close>

datatype signer_fault =
    PublicKeyMismatch
  | EmptySignature
  | MissingLength
  | NonIntegerLength
  | NonNumericByte
  | ByteOutOfRange
  | JsRejected

fun signer_fault_code :: "signer_fault \<Rightarrow> string" where
  "signer_fault_code PublicKeyMismatch = ''PublicKeyMismatch''"
| "signer_fault_code EmptySignature = ''EmptySignature''"
| "signer_fault_code MissingLength = ''MissingLength''"
| "signer_fault_code NonIntegerLength = ''NonIntegerLength''"
| "signer_fault_code NonNumericByte = ''NonNumericByte''"
| "signer_fault_code ByteOutOfRange = ''ByteOutOfRange''"
| "signer_fault_code JsRejected = ''ExternalSignerRejected''"

fun signer_fault_message :: "signer_fault \<Rightarrow> string" where
  "signer_fault_message PublicKeyMismatch = ''signer publicKeyDer must equal certificate SPKI DER''"
| "signer_fault_message EmptySignature = ''signPrehash returned an empty signature''"
| "signer_fault_message MissingLength = ''signPrehash result has no length''"
| "signer_fault_message NonIntegerLength = ''signPrehash length must be an integer''"
| "signer_fault_message NonNumericByte = ''signPrehash byte is not a number''"
| "signer_fault_message ByteOutOfRange = ''signPrehash byte out of range''"
| "signer_fault_message JsRejected = ''external signer rejected the prehash''"

section \<open>The provider\<close>

text \<open>A duck-typed signer: its two getters and its method.\<close>

record transport_signer =
  algorithm_oid_text :: string
  public_key_octets :: bytes
  sign_prehash_js :: "bytes \<Rightarrow> js_call"

record signing_provider =
  provider_signer :: transport_signer
  provider_algorithm :: algorithm_identifier
  provider_public_key :: bytes

definition provider_new ::
  "(string \<Rightarrow> string + string) \<Rightarrow> transport_signer \<Rightarrow> bytes \<Rightarrow> js_value + signing_provider" where
  "provider_new parse_oid signer cert_spki =
     and_then (map_err fault_to_js (parse_oid (algorithm_oid_text signer))) (\<lambda>oid.
       if public_key_octets signer \<noteq> cert_spki
       then Inl (validation (signer_fault_code PublicKeyMismatch) (signer_fault_message PublicKeyMismatch))
       else Inr \<lparr>provider_signer = signer, provider_algorithm = \<lparr>alg_oid = oid, alg_parameters = None\<rparr>,
                 provider_public_key = public_key_octets signer\<rparr>)"

fun outside_u8 :: "js_number \<Rightarrow> bool" where
  "outside_u8 (Finite x) = (x < 0 \<or> x > 255)"
| "outside_u8 _ = True"

fun f64_as_u8 :: "js_number \<Rightarrow> u8" where
  "f64_as_u8 (Finite x) = (if x \<ge> 256 then - 1 else if x < 0 then 0 else word_of_int \<lfloor>x\<rfloor>)"
| "f64_as_u8 Infinity = - 1"
| "f64_as_u8 _ = 0"

text \<open>\<^verbatim>\<open>length as u32\<close> of a non-negative whole number.\<close>

fun f64_as_count :: "js_number \<Rightarrow> nat" where
  "f64_as_count (Finite x) = (if x \<ge> 2 ^ 32 then 2 ^ 32 - 1 else nat \<lfloor>x\<rfloor>)"
| "f64_as_count Infinity = 2 ^ 32 - 1"
| "f64_as_count _ = 0"

definition array_byte :: "js_value \<Rightarrow> nat \<Rightarrow> signer_fault + u8" where
  "array_byte v index =
     and_then (map_err (\<lambda>_. NonNumericByte) (reflect_get v (index_name index))) (\<lambda>entry.
     and_then (ok_or NonNumericByte (as_f64 entry)) (\<lambda>byte.
       if outside_u8 byte \<or> not_whole byte then Inl ByteOutOfRange else Inr (f64_as_u8 byte)))"

definition bytes_from_array_like :: "js_value \<Rightarrow> signer_fault + bytes" where
  "bytes_from_array_like v =
     and_then (map_err (\<lambda>_. MissingLength) (reflect_get v ''length'')) (\<lambda>l.
     and_then (ok_or MissingLength (as_f64 l)) (\<lambda>len.
       if negative len \<or> not_whole len then Inl NonIntegerLength
       else map_result (array_byte v) [0 ..< f64_as_count len]))"

text \<open>\<^verbatim>\<open>sign_prehash\<close>: \<^verbatim>\<open>Promise::resolve\<close> adopts a promise and passes a plain value through.\<close>

definition provider_sign_prehash :: "signing_provider \<Rightarrow> bytes \<Rightarrow> (signer_fault + bytes) option" where
  "provider_sign_prehash p prehash =
     map_option (\<lambda>outcome.
       and_then (map_err (\<lambda>_. JsRejected) outcome) (\<lambda>resolved.
       and_then (bytes_from_array_like resolved) (\<lambda>signature.
         if signature = [] then Inl EmptySignature else Inr signature)))
       (settled (sign_prehash_js (provider_signer p) prehash))"

section \<open>Copying by index\<close>

text \<open>The number a decimal name stands for.\<close>

definition digits_value :: "string \<Rightarrow> nat" where
  "digits_value s = foldl (\<lambda>a c. a * 10 + (of_char c - 48)) 0 s"

lemma digits_value_index_name: "digits_value (index_name n) = n"
proof (induction n rule: index_name.induct)
  case (1 n)
  have digit: "(of_char (char_of (48 + n mod 10 :: nat)) :: nat) - 48 = n mod 10"
    by (simp add: of_char_of)
  show ?case
  proof (cases "n < 10")
    case True
    then show ?thesis using digit by (subst index_name.simps) (simp add: digits_value_def)
  next
    case False
    with 1 have "digits_value (index_name (n div 10)) = n div 10" by simp
    with False digit show ?thesis by (subst index_name.simps) (simp add: digits_value_def)
  qed
qed

lemma index_name_inj: "index_name i = index_name j \<longleftrightarrow> i = j"
  by (metis digits_value_index_name)

lemma index_name_not_length: "index_name i \<noteq> ''length''"
proof
  assume length: "index_name i = ''length''"
  have "hd (index_name n) = CHR ''l'' \<longrightarrow> False" for n
  proof (induction n rule: index_name.induct)
    case (1 n)
    have "index_name m \<noteq> []" for m by (subst index_name.simps) simp
    moreover have "char_of (48 + n) \<noteq> CHR ''l''" if "n < 10"
    proof
      assume "char_of (48 + n) = CHR ''l''"
      then have "of_char (char_of (48 + n)) = (of_char (CHR ''l'') :: nat)" by simp
      with that show False by (simp add: of_char_of)
    qed
    ultimately show ?case using 1 by (subst index_name.simps) (simp add: hd_append)
  qed
  from this [of i] length show False by simp
qed

lemma element_index:
  assumes "i < length vs"
  shows "element vs (index_name i) = vs ! i"
proof -
  have "find (\<lambda>j. index_name j = index_name i) [0 ..< length vs] = Some i"
    unfolding find_Some_iff by (rule exI [of _ i]) (use assms in \<open>simp add: index_name_inj\<close>)
  then show ?thesis by (simp add: element_def)
qed

lemma array_byte_number: "as_f64 v = Some n \<longleftrightarrow> v = JNumber n"
  by (cases v) auto

lemma octet_number:
  "\<not> outside_u8 n \<and> \<not> not_whole n \<and> f64_as_u8 n = w \<longleftrightarrow> n = number_of_unsigned w"
proof (cases n rule: js_number.exhaust)
  case (Finite x)
  have bound: "uint w \<le> 255" "0 \<le> uint w" for w :: u8 using uint_lt2p [of w] by simp_all
  show ?thesis
  proof
    assume "\<not> outside_u8 n \<and> \<not> not_whole n \<and> f64_as_u8 n = w"
    then have x: "0 \<le> x" "x \<le> 255" "x = of_int \<lfloor>x\<rfloor>" "w = word_of_int \<lfloor>x\<rfloor>"
      by (auto simp: Finite fract_zero not_less)
    then have range: "0 \<le> \<lfloor>x\<rfloor>" "\<lfloor>x\<rfloor> \<le> 255" by (simp_all add: floor_le_iff)
    then have "uint w = \<lfloor>x\<rfloor>" using x(4) by (simp add: uint_word_of_int_eq take_bit_int_eq_self)
    with x(3) show "n = number_of_unsigned w" by (simp add: Finite number_of_unsigned_def)
  next
    assume "n = number_of_unsigned w"
    then obtain i where "x = of_int i" "0 \<le> i" "i \<le> 255" "w = word_of_int i"
      using bound [of w] by (auto simp: Finite number_of_unsigned_def intro: that [of "uint w"])
    then show "\<not> outside_u8 n \<and> \<not> not_whole n \<and> f64_as_u8 n = w"
      by (simp add: Finite fract_zero not_less)
  qed
qed (simp_all add: number_of_unsigned_def)

lemma array_byte_JArray:
  assumes "i < length vs"
  shows "array_byte (JArray vs) i = Inr w \<longleftrightarrow> vs ! i = JNumber (number_of_unsigned w)"
proof -
  have "array_byte (JArray vs) i = Inr w \<longleftrightarrow>
      (\<exists>n. vs ! i = JNumber n \<and> \<not> outside_u8 n \<and> \<not> not_whole n \<and> f64_as_u8 n = w)"
    by (auto simp: array_byte_def index_name_not_length element_index [OF assms] result_simps array_byte_number
        split: if_splits)
  then show ?thesis by (simp only: octet_number) blast
qed

lemma map_result_upt:
  "map_result f [0 ..< n] = Inr ys \<longleftrightarrow> length ys = n \<and> (\<forall>i < n. f i = Inr (ys ! i))"
proof -
  have "map_result f xs = Inr ys \<longleftrightarrow> length ys = length xs \<and> (\<forall>i < length xs. f (xs ! i) = Inr (ys ! i))" for xs ys
  proof (induction xs arbitrary: ys)
    case (Cons x xs)
    then show ?case by (cases ys) (auto simp: result_simps nth_Cons split: nat.split)
  qed auto
  then show ?thesis by simp
qed

lemma array_length:
  "bytes_from_array_like (JArray vs) = map_result (array_byte (JArray vs)) [0 ..< min (length vs) (2 ^ 32 - 1)]"
proof -
  have "(2 ^ 32 :: rat) \<le> of_nat (length vs) \<longleftrightarrow> 2 ^ 32 \<le> length vs"
    by (metis of_nat_le_iff of_nat_numeral of_nat_power)
  then show ?thesis by (auto simp: bytes_from_array_like_def ok_or_def fract_zero min_def)
qed

text \<open>
  The signature leaves JavaScript octet for octet: an array of at most \<open>2\<^sup>32 - 1\<close> entries yields
  the octets \<open>b\<close> exactly when its entries are the numbers of \<open>b\<close>, one each; nothing is truncated,
  rounded or reduced modulo 256, and an empty signature is refused.
\<close>

lemma signature_octets_exact:
  assumes "length vs < 2 ^ 32" and "settled (sign_prehash_js (provider_signer p) prehash) = Some (Inr (JArray vs))"
  shows "(bytes_from_array_like (JArray vs) = Inr b \<longleftrightarrow> vs = map (\<lambda>w. JNumber (number_of_unsigned w)) b) \<and>
    (provider_sign_prehash p prehash = Some (Inr b) \<longleftrightarrow> b \<noteq> [] \<and> vs = map (\<lambda>w. JNumber (number_of_unsigned w)) b)"
proof -
  have "min (length vs) (2 ^ 32 - 1) = length vs" using assms(1) by simp
  then have "bytes_from_array_like (JArray vs) = Inr b \<longleftrightarrow>
      length b = length vs \<and> (\<forall>i < length vs. vs ! i = JNumber (number_of_unsigned (b ! i)))"
    unfolding array_length map_result_upt by (auto simp: array_byte_JArray)
  moreover have "\<dots> \<longleftrightarrow> vs = map (\<lambda>w. JNumber (number_of_unsigned w)) b"
    by (auto intro: nth_equalityI)
  ultimately show ?thesis using assms(2) by (auto simp: provider_sign_prehash_def result_simps)
qed

end
