(* ===== verification/Ws_Session.thy ===== *)
theory Ws_Session
  imports Ws_Handles Ws_Socket Ws_Signer
begin

text \<open>
  Dialing a session: transport assembly (\<^verbatim>\<open>ws/tightbeam-ws-wasm/src/secure.rs\<close>, \<^verbatim>\<open>protocol.rs\<close>), the signing
  identity of an external signer (\<^verbatim>\<open>signer.rs\<close>), and the connect functions and calls of the client
  (\<^verbatim>\<open>mux.rs\<close>). Certificates, trust stores, keys, the client builder's \<^verbatim>\<open>adopt\<close> and the browser's socket
  constructor are upstream: the fields of \<open>secure_api\<close>. An upstream error that only crosses the
  boundary through \<^verbatim>\<open>to_js\<close> is its display text.
\<close>

section \<open>The browser's protocol\<close>

text \<open>
  A page neither accepts connections nor dials through the protocol: its sockets are opened through the
  lifecycle observer. \<open>invalid_state\<close> is upstream's error of that name.
\<close>

datatype opened_socket = OpenedSocket

definition opened_socket_bytes :: "opened_socket \<Rightarrow> bytes" where
  "opened_socket_bytes addr = []"

definition browser_default_bind_address :: "transport_fault + opened_socket" where
  "browser_default_bind_address = Inr OpenedSocket"

definition browser_bind_cleartext :: "transport_fault \<Rightarrow> opened_socket \<Rightarrow> transport_fault + unit \<times> opened_socket" where
  "browser_bind_cleartext invalid_state addr = Inl invalid_state"

definition browser_connect :: "transport_fault \<Rightarrow> opened_socket \<Rightarrow> transport_fault + 'stream" where
  "browser_connect invalid_state addr = Inl invalid_state"

section \<open>Transport assembly\<close>

text \<open>What the client builder was given before it adopts a stream.\<close>

record ('trust, 'ident) client_builder =
  trust_store :: "'trust option"
  client_identity :: "'ident option"
  cleartext_allowed :: bool

record ('cert, 'trust, 'key, 'ident, 'sock, 'trans) secure_api =
  cert_from_der :: "bytes \<Rightarrow> string + 'cert"
  trust_with :: "'cert \<Rightarrow> string + 'trust"
  key_from_scalar :: "bytes \<Rightarrow> string + 'key"
  identity_new :: "'cert \<Rightarrow> 'key \<Rightarrow> string + 'ident"
  identity_with_provider :: "'cert \<Rightarrow> signing_provider \<Rightarrow> string + 'ident"
  cert_spki_der :: "'cert \<Rightarrow> string + bytes"
  parse_oid :: "string \<Rightarrow> string + string"
  socket_new :: "string \<Rightarrow> js_value + 'sock"
  gloo_wrap :: "'sock \<Rightarrow> string + 'sock"
  adopt :: "('trust, 'ident) client_builder \<Rightarrow> 'sock \<Rightarrow> transport_fault + 'trans"

definition builder :: "('trust, 'ident) client_builder" where
  "builder = \<lparr>trust_store = None, client_identity = None, cleartext_allowed = False\<rparr>"

definition pinned ::
  "('cert, 'trust, 'key, 'ident, 'sock, 'trans) secure_api \<Rightarrow> 'sock \<Rightarrow> 'trust \<Rightarrow> 'ident option \<Rightarrow> transport_fault + 'trans" where
  "pinned api stream trust ident =
     (let b = builder\<lparr>trust_store := Some trust\<rparr>;
          b = (case ident of Some i \<Rightarrow> b\<lparr>client_identity := Some i\<rparr> | None \<Rightarrow> b)
      in adopt api b stream)"

definition cleartext :: "('cert, 'trust, 'key, 'ident, 'sock, 'trans) secure_api \<Rightarrow> 'sock \<Rightarrow> transport_fault + 'trans" where
  "cleartext api stream = adopt api (builder\<lparr>cleartext_allowed := True\<rparr>) stream"

definition profile_trust_store ::
  "('cert, 'trust, 'key, 'ident, 'sock, 'trans) secure_api \<Rightarrow> bytes \<Rightarrow> js_value + 'trust" where
  "profile_trust_store api server_cert_der =
     and_then (map_err fault_to_js (cert_from_der api server_cert_der)) (\<lambda>cert. map_err fault_to_js (trust_with api cert))"

definition build_transport_with ::
  "('cert, 'trust, 'key, 'ident, 'sock, 'trans) secure_api \<Rightarrow> 'sock \<Rightarrow> 'trust \<Rightarrow> 'ident option \<Rightarrow> js_value + 'trans" where
  "build_transport_with api socket trust ident = map_err transport_to_js (pinned api socket trust ident)"

definition cleartext_transport ::
  "('cert, 'trust, 'key, 'ident, 'sock, 'trans) secure_api \<Rightarrow> 'sock \<Rightarrow> js_value + 'trans" where
  "cleartext_transport api socket = map_err transport_to_js (cleartext api socket)"

definition signing_key_from_bytes ::
  "('cert, 'trust, 'key, 'ident, 'sock, 'trans) secure_api \<Rightarrow> bytes \<Rightarrow> js_value + 'key" where
  "signing_key_from_bytes api b =
     (if length b \<noteq> 32 then Inl (validation ''InvalidSigningKey'' ''secp256k1 signing key must be exactly 32 bytes'')
      else map_err fault_to_js (key_from_scalar api b))"

text \<open>\<^verbatim>\<open>ClientIdentity\<close>: certificate and raw key.\<close>

definition profile_identity ::
  "('cert, 'trust, 'key, 'ident, 'sock, 'trans) secure_api \<Rightarrow> bytes \<times> bytes \<Rightarrow> js_value + 'ident" where
  "profile_identity api ident =
     and_then (map_err fault_to_js (cert_from_der api (fst ident))) (\<lambda>cert.
     and_then (signing_key_from_bytes api (snd ident)) (\<lambda>key. map_err fault_to_js (identity_new api cert key)))"

definition signer_identity ::
  "('cert, 'trust, 'key, 'ident, 'sock, 'trans) secure_api \<Rightarrow> transport_signer \<Rightarrow> bytes \<Rightarrow> js_value + 'ident" where
  "signer_identity api signer cert_der =
     and_then (map_err fault_to_js (cert_from_der api cert_der)) (\<lambda>cert.
     and_then (map_err fault_to_js (cert_spki_der api cert)) (\<lambda>spki.
     and_then (provider_new (parse_oid api) signer spki) (\<lambda>provider.
       map_err fault_to_js (identity_with_provider api cert provider))))"

text \<open>A result, and whether a socket was opened on the way.\<close>

definition observe :: "('cert, 'trust, 'key, 'ident, 'sock, 'trans) secure_api \<Rightarrow> string \<Rightarrow> (js_value + 'sock) \<times> bool" where
  "observe api url =
     (case socket_new api url of
        Inl e \<Rightarrow> (Inl e, False)
      | Inr raw \<Rightarrow> (map_err fault_to_js (gloo_wrap api raw), True))"

definition dial ::
  "('cert, 'trust, 'key, 'ident, 'sock, 'trans) secure_api \<Rightarrow> string \<Rightarrow> js_value + 'trust \<times> 'ident option \<Rightarrow>
   (js_value + 'trans) \<times> bool" where
  "dial api url material =
     (case material of
        Inl e \<Rightarrow> (Inl e, False)
      | Inr (trust, ident) \<Rightarrow>
          (let (observed, out) = observe api url
           in (and_then observed (\<lambda>socket. build_transport_with api socket trust ident), out)))"

definition transport_material ::
  "('cert, 'trust, 'key, 'ident, 'sock, 'trans) secure_api \<Rightarrow> bytes \<Rightarrow> (bytes \<times> bytes) option \<Rightarrow> js_value + 'trust \<times> 'ident option" where
  "transport_material api server_cert_der ident =
     and_then (profile_trust_store api server_cert_der) (\<lambda>trust.
       case ident of
         Some i \<Rightarrow> and_then (profile_identity api i) (\<lambda>i. Inr (trust, Some i))
       | None \<Rightarrow> Inr (trust, None))"

definition build_transport ::
  "('cert, 'trust, 'key, 'ident, 'sock, 'trans) secure_api \<Rightarrow> string \<Rightarrow> bytes \<Rightarrow> (bytes \<times> bytes) option \<Rightarrow>
   (js_value + 'trans) \<times> bool" where
  "build_transport api url server_cert_der ident = dial api url (transport_material api server_cert_der ident)"

definition signer_material ::
  "('cert, 'trust, 'key, 'ident, 'sock, 'trans) secure_api \<Rightarrow> bytes \<Rightarrow> bytes \<Rightarrow> transport_signer \<Rightarrow> js_value + 'trust \<times> 'ident option" where
  "signer_material api server_cert_der client_cert_der signer =
     and_then (profile_trust_store api server_cert_der) (\<lambda>trust.
     and_then (signer_identity api signer client_cert_der) (\<lambda>i. Inr (trust, Some i)))"

definition build_signer_transport ::
  "('cert, 'trust, 'key, 'ident, 'sock, 'trans) secure_api \<Rightarrow> string \<Rightarrow> bytes \<Rightarrow> bytes \<Rightarrow> transport_signer \<Rightarrow>
   (js_value + 'trans) \<times> bool" where
  "build_signer_transport api url server_cert_der client_cert_der signer =
     dial api url (signer_material api server_cert_der client_cert_der signer)"

section \<open>Connecting\<close>

text \<open>
  How a connect call ended: its promise (\<open>None\<close>: still pending), whether it opened a socket, and
  whether it closed it. \<open>negotiation\<close> gives the polls of \<^verbatim>\<open>negotiate\<close> over a transport.
\<close>

record 'a connected_client =
  outcome :: "(js_value + 'a) option"
  dialed :: bool
  shut :: bool

definition run_establish ::
  "(js_value \<times> bool) option \<Rightarrow> ('trans \<Rightarrow> session_offer \<Rightarrow> 'a poll list) \<Rightarrow> (js_value + 'trans) \<times> bool \<Rightarrow>
   js_value + session_offer \<Rightarrow> 'a connected_client" where
  "run_establish signal negotiation built session =
     (case and_then (fst built) (\<lambda>transport. and_then session (\<lambda>offer. Inr (transport, offer))) of
        Inl e \<Rightarrow> \<lparr>outcome = Some (Inl e), dialed = snd built, shut = False\<rparr>
      | Inr (transport, offer) \<Rightarrow>
          (case establish signal (negotiation transport offer) of
             None \<Rightarrow> \<lparr>outcome = None, dialed = snd built, shut = False\<rparr>
           | Some (result, closing) \<Rightarrow> \<lparr>outcome = Some result, dialed = snd built, shut = closing\<rparr>))"

definition connect ::
  "('cert, 'trust, 'key, 'ident, 'sock, 'trans) secure_api \<Rightarrow> ('trans \<Rightarrow> session_offer \<Rightarrow> 'a poll list) \<Rightarrow>
   string \<Rightarrow> bytes \<Rightarrow> (js_value \<times> bool) option \<Rightarrow> 'a connected_client" where
  "connect api negotiation url server_cert_der signal =
     (case abort_reason signal of
        Some reason \<Rightarrow> \<lparr>outcome = Some (Inl reason), dialed = False, shut = False\<rparr>
      | None \<Rightarrow> run_establish signal negotiation (build_transport api url server_cert_der None) (Inr no_session_offer))"

definition connect_mutual ::
  "('cert, 'trust, 'key, 'ident, 'sock, 'trans) secure_api \<Rightarrow> js_host \<Rightarrow> (bytes \<Rightarrow> wire_error + bytes) \<Rightarrow>
   ('trans \<Rightarrow> session_offer \<Rightarrow> 'a poll list) \<Rightarrow>
   string \<Rightarrow> bytes \<Rightarrow> bytes \<Rightarrow> bytes \<Rightarrow> (js_value \<times> bool) option \<Rightarrow> js_value \<Rightarrow> 'a connected_client" where
  "connect_mutual api host octet_string negotiation url server_cert_der client_cert_der client_signing_key signal session =
     (case abort_reason signal of
        Some reason \<Rightarrow> \<lparr>outcome = Some (Inl reason), dialed = False, shut = False\<rparr>
      | None \<Rightarrow> run_establish signal negotiation
          (build_transport api url server_cert_der (Some (client_cert_der, client_signing_key)))
          (session_offer_from_js host octet_string session))"

definition connect_mutual_with_signer ::
  "('cert, 'trust, 'key, 'ident, 'sock, 'trans) secure_api \<Rightarrow> js_host \<Rightarrow> (bytes \<Rightarrow> wire_error + bytes) \<Rightarrow>
   ('trans \<Rightarrow> session_offer \<Rightarrow> 'a poll list) \<Rightarrow>
   string \<Rightarrow> bytes \<Rightarrow> bytes \<Rightarrow> transport_signer \<Rightarrow> (js_value \<times> bool) option \<Rightarrow> js_value \<Rightarrow> 'a connected_client" where
  "connect_mutual_with_signer api host octet_string negotiation url server_cert_der client_cert_der signer signal session =
     (case abort_reason signal of
        Some reason \<Rightarrow> \<lparr>outcome = Some (Inl reason), dialed = False, shut = False\<rparr>
      | None \<Rightarrow> run_establish signal negotiation
          (build_signer_transport api url server_cert_der client_cert_der signer)
          (session_offer_from_js host octet_string session))"

text \<open>\<open>open_polls\<close> are the polls of the monitor's \<^verbatim>\<open>opened\<close> promise; \<open>split\<close> what splitting a cleartext transport answers.\<close>

definition connect_cleartext ::
  "('cert, 'trust, 'key, 'ident, 'sock, 'trans) secure_api \<Rightarrow> ('trans \<Rightarrow> transport_fault + 'a) \<Rightarrow> unit poll list \<Rightarrow>
   string \<Rightarrow> (js_value \<times> bool) option \<Rightarrow> 'a connected_client" where
  "connect_cleartext api into_split open_polls url signal =
     (case abort_reason signal of
        Some reason \<Rightarrow> \<lparr>outcome = Some (Inl reason), dialed = False, shut = False\<rparr>
      | None \<Rightarrow>
          (let (observed, out) = observe api url
           in case observed of
                Inl e \<Rightarrow> \<lparr>outcome = Some (Inl e), dialed = out, shut = False\<rparr>
              | Inr socket \<Rightarrow>
                  (case await_open signal open_polls of
                     None \<Rightarrow> \<lparr>outcome = None, dialed = out, shut = False\<rparr>
                   | Some (open_result, closing) \<Rightarrow>
                       \<lparr>outcome = Some (
                          and_then open_result (\<lambda>_.
                          and_then (cleartext_transport api socket) (\<lambda>transport. map_err transport_to_js (into_split transport)))),
                        dialed = out, shut = closing\<rparr>)))"

section \<open>Client calls\<close>

text \<open>
  The promises of a connected client, over what the mux handle's call answers at each poll: the raw
  answer, whether the abort promise has resolved, and the signal's flag.
\<close>

definition void_poll :: "(transport_fault + unit) option \<times> bool \<times> bool \<Rightarrow> js_value poll" where
  "void_poll = (\<lambda>(answer, seen, flag).
     \<lparr>ready = map_option (\<lambda>a. and_then (map_err transport_to_js a) (\<lambda>_. Inr JUndefined)) answer, abort_seen = seen, aborted = flag\<rparr>)"

definition client_ping ::
  "(js_value \<times> bool) option \<Rightarrow> ((transport_fault + unit) option \<times> bool \<times> bool) list \<Rightarrow> (js_value + js_value) option" where
  "client_ping signal answers = race_optional_abort signal (map void_poll answers)"

definition wait_for_stream_slot ::
  "(js_value \<times> bool) option \<Rightarrow> ((transport_fault + unit) option \<times> bool \<times> bool) list \<Rightarrow> (js_value + js_value) option" where
  "wait_for_stream_slot signal answers = race_optional_abort signal (map void_poll answers)"

definition client_shutdown :: "transport_fault + unit \<Rightarrow> js_value + js_value" where
  "client_shutdown answer = and_then (map_err transport_to_js answer) (\<lambda>_. Inr JUndefined)"

definition shutdown_with ::
  "(u32 \<Rightarrow> client_goaway) \<Rightarrow> (client_goaway \<Rightarrow> transport_fault + unit) \<Rightarrow> js_value \<Rightarrow> js_value + js_value" where
  "shutdown_with reason_of_code shutdown reason =
     and_then (reason_from_js reason_of_code reason) (\<lambda>r. and_then (map_err transport_to_js (shutdown r)) (\<lambda>_. Inr JUndefined))"

definition client_request ::
  "('e, 's, 'd) wire_api \<Rightarrow> error_texts \<Rightarrow> ('e, 's) emitter \<Rightarrow> bytes \<Rightarrow> (js_value + js_value) option" where
  "client_request api texts emit frame_der = run_stream_emit api texts emit frame_der"

definition submit_work where
  "submit_work api texts urns status_of emit target work_frame_der =
     run_submit_work api texts urns status_of emit target work_frame_der"

text \<open>
  The forms under a signal race the same future; a poll shows what the handle's emit answers then, if
  it does.
\<close>

definition emit_poll ::
  "(('e, 's) emitter \<Rightarrow> (js_value + js_value) option) \<Rightarrow> (transport_fault + ('e, 's) frame option) option \<times> bool \<times> bool \<Rightarrow>
   js_value poll" where
  "emit_poll future = (\<lambda>(answer, seen, flag). \<lparr>ready = future (\<lambda>_. answer), abort_seen = seen, aborted = flag\<rparr>)"

definition request_with_signal where
  "request_with_signal api texts frame_der signal answers =
     map_option fst (race_abort (fst signal) (snd signal) (map (emit_poll (\<lambda>emit. run_stream_emit api texts emit frame_der)) answers))"

definition submit_work_with_signal where
  "submit_work_with_signal api texts urns status_of target work_frame_der signal answers =
     map_option fst (race_abort (fst signal) (snd signal)
       (map (emit_poll (\<lambda>emit. run_submit_work api texts urns status_of emit target work_frame_der)) answers))"

text \<open>\<^verbatim>\<open>openStream\<close>, \<^verbatim>\<open>openDuplex\<close> and their routed forms; \<open>open_stream\<close> is the handle's call.\<close>

definition open_request_stream :: "transport_fault + unit \<Rightarrow> js_value + request_inner" where
  "open_request_stream answer = and_then (map_err transport_to_js answer) (\<lambda>_. Inr request_from_parts)"

definition open_request_stream_to ::
  "error_texts \<Rightarrow> (string \<Rightarrow> 'u option) \<Rightarrow> ('u \<Rightarrow> transport_fault + unit) \<Rightarrow> string \<Rightarrow> js_value + request_inner" where
  "open_request_stream_to texts urn_of open_to target =
     and_then (parse_stream_target texts urn_of target) (\<lambda>urn. open_request_stream (open_to urn))"

definition open_duplex_stream :: "transport_fault + unit \<Rightarrow> js_value + duplex_inner" where
  "open_duplex_stream answer = and_then (map_err transport_to_js answer) (\<lambda>_. Inr duplex_from_parts)"

definition open_duplex_stream_to ::
  "error_texts \<Rightarrow> (string \<Rightarrow> 'u option) \<Rightarrow> ('u \<Rightarrow> transport_fault + unit) \<Rightarrow> string \<Rightarrow> js_value + duplex_inner" where
  "open_duplex_stream_to texts urn_of open_to target =
     and_then (parse_stream_target texts urn_of target) (\<lambda>urn. open_duplex_stream (open_to urn))"

text \<open>The client's methods hand over to the streams.\<close>

definition client_open_stream where "client_open_stream answer = open_request_stream answer"
definition client_open_stream_to where "client_open_stream_to texts urn_of open_to target = open_request_stream_to texts urn_of open_to target"
definition client_open_duplex where "client_open_duplex answer = open_duplex_stream answer"
definition client_open_duplex_to where "client_open_duplex_to texts urn_of open_to target = open_duplex_stream_to texts urn_of open_to target"

text \<open>\<open>receipt\<close>: the stored receipt's encoding.\<close>

definition session_receipt_der :: "('x + bytes) option \<Rightarrow> bytes option" where
  "session_receipt_der receipt = (case receipt of Some (Inr der) \<Rightarrow> Some der | _ \<Rightarrow> None)"

section \<open>Properties\<close>

lemma observe_dialed: "snd (observe api url) \<longleftrightarrow> \<not> isl (socket_new api url)"
  by (simp add: observe_def split: sum.split)

lemma dial_dialed: "snd (dial api url material) \<longleftrightarrow> \<not> isl material \<and> \<not> isl (socket_new api url)"
  using observe_dialed [of api url] by (auto simp: dial_def Let_def split: sum.split prod.split)

lemma dial_material: "material = Inl e \<Longrightarrow> dial api url material = (Inl e, False)"
  by (simp add: dial_def)

lemma dial_transport:
  "fst (dial api url material) = Inr t \<longleftrightarrow>
     (\<exists>trust ident raw socket. material = Inr (trust, ident) \<and> socket_new api url = Inr raw \<and> gloo_wrap api raw = Inr socket \<and>
        adopt api \<lparr>trust_store = Some trust, client_identity = ident, cleartext_allowed = False\<rparr> socket = Inr t)"
proof -
  have pin: "pinned api s trust ident = adopt api \<lparr>trust_store = Some trust, client_identity = ident, cleartext_allowed = False\<rparr> s"
    for s trust ident
    by (simp add: pinned_def builder_def Let_def split: option.split)
  show ?thesis
    by (auto simp: dial_def observe_def build_transport_with_def pin result_simps Let_def split: sum.splits)
qed

lemma run_establish_dialed [simp]: "dialed (run_establish signal negotiation built session) = snd built"
  by (simp add: run_establish_def split: sum.split option.split prod.split)

lemma run_establish_client:
  "outcome (run_establish signal negotiation built session) = Some (Inr client) \<Longrightarrow>
     \<exists>t offer closing. fst built = Inr t \<and> session = Inr offer \<and>
       establish signal (negotiation t offer) = Some (Inr client, closing)"
  by (auto simp: run_establish_def split: sum.splits option.splits prod.splits) (auto simp: result_simps)

lemma run_establish_material:
  "fst built = Inl e \<Longrightarrow> outcome (run_establish signal negotiation built session) = Some (Inl e)"
  by (simp add: run_establish_def)

text \<open>
  C36. A mutual dial opens a socket only on sound material, and speaks over it only to the pinned
  server: an aborted signal rejects at once; a certificate, key or identity that does not decode
  rejects with that error and no socket is opened; a client is only ever the outcome of a negotiation,
  under the given session offer, over the transport of the dialed socket, which pins the given server
  certificate, presents the given identity and does not allow cleartext.
\<close>

theorem mutual_dial_is_pinned:
  fixes api :: "('cert, 'trust, 'key, 'ident, 'sock, 'trans) secure_api"
  assumes "result = connect_mutual api host octet_string negotiation url server_cert client_cert key signal session"
    and "material = transport_material api server_cert (Some (client_cert, key))"
  shows "(\<forall>reason. signal = Some (reason, True) \<longrightarrow> outcome result = Some (Inl reason) \<and> \<not> dialed result) \<and>
    (\<forall>e. abort_reason signal = None \<and> material = Inl e \<longrightarrow> outcome result = Some (Inl e)) \<and>
    (dialed result \<longleftrightarrow> abort_reason signal = None \<and> \<not> isl material \<and> \<not> isl (socket_new api url)) \<and>
    (length key \<noteq> 32 \<longrightarrow> \<not> dialed result) \<and>
    (\<forall>client. outcome result = Some (Inr client) \<longrightarrow>
       (\<exists>cert trust ident raw socket t offer closing. cert_from_der api server_cert = Inr cert \<and> trust_with api cert = Inr trust \<and>
          profile_identity api (client_cert, key) = Inr ident \<and> socket_new api url = Inr raw \<and> gloo_wrap api raw = Inr socket \<and>
          adopt api \<lparr>trust_store = Some trust, client_identity = Some ident, cleartext_allowed = False\<rparr> socket = Inr t \<and>
          session_offer_from_js host octet_string session = Inr offer \<and>
          establish signal (negotiation t offer) = Some (Inr client, closing)))"
proof (intro conjI)
  note defs = assms(1) connect_mutual_def build_transport_def
  show "\<forall>reason. signal = Some (reason, True) \<longrightarrow> outcome result = Some (Inl reason) \<and> \<not> dialed result"
    by (simp add: defs abort_reason_def)
  show "\<forall>e. abort_reason signal = None \<and> material = Inl e \<longrightarrow> outcome result = Some (Inl e)"
    by (auto simp: defs assms(2) dial_material intro!: run_establish_material)
  show dialed: "dialed result \<longleftrightarrow> abort_reason signal = None \<and> \<not> isl material \<and> \<not> isl (socket_new api url)"
    by (simp add: defs assms(2) dial_dialed split: option.split)
  have "length key = 32" if "material = Inr m" for m
    using that by (auto simp: assms(2) transport_material_def profile_identity_def signing_key_from_bytes_def result_simps split: if_splits)
  then show "length key \<noteq> 32 \<longrightarrow> \<not> dialed result" using dialed by (cases material) auto
  show "\<forall>client. outcome result = Some (Inr client) \<longrightarrow>
       (\<exists>cert trust ident raw socket t offer closing. cert_from_der api server_cert = Inr cert \<and> trust_with api cert = Inr trust \<and>
          profile_identity api (client_cert, key) = Inr ident \<and> socket_new api url = Inr raw \<and> gloo_wrap api raw = Inr socket \<and>
          adopt api \<lparr>trust_store = Some trust, client_identity = Some ident, cleartext_allowed = False\<rparr> socket = Inr t \<and>
          session_offer_from_js host octet_string session = Inr offer \<and>
          establish signal (negotiation t offer) = Some (Inr client, closing))"
  proof (intro allI impI)
    fix client assume client: "outcome result = Some (Inr client)"
    then obtain t offer closing where t: "fst (dial api url material) = Inr t"
      and session: "session_offer_from_js host octet_string session = Inr offer"
      "establish signal (negotiation t offer) = Some (Inr client, closing)"
      by (auto simp: defs assms(2) split: option.splits dest: run_establish_client)
    from t obtain trust ident raw socket where "material = Inr (trust, ident)"
      and adopted: "socket_new api url = Inr raw" "gloo_wrap api raw = Inr socket"
      "adopt api \<lparr>trust_store = Some trust, client_identity = ident, cleartext_allowed = False\<rparr> socket = Inr t"
      unfolding dial_transport by blast
    then obtain cert i where "cert_from_der api server_cert = Inr cert" "trust_with api cert = Inr trust"
      "profile_identity api (client_cert, key) = Inr i" "ident = Some i"
      by (auto simp: assms(2) transport_material_def profile_trust_store_def result_simps)
    with adopted session show "\<exists>cert trust ident raw socket t offer closing. cert_from_der api server_cert = Inr cert \<and>
        trust_with api cert = Inr trust \<and> profile_identity api (client_cert, key) = Inr ident \<and>
        socket_new api url = Inr raw \<and> gloo_wrap api raw = Inr socket \<and>
        adopt api \<lparr>trust_store = Some trust, client_identity = Some ident, cleartext_allowed = False\<rparr> socket = Inr t \<and>
        session_offer_from_js host octet_string session = Inr offer \<and>
        establish signal (negotiation t offer) = Some (Inr client, closing)" by blast
  qed
qed

definition example_secure :: "(bytes, bytes, bytes, bytes \<times> bytes, string, string) secure_api" where
  "example_secure =
     \<lparr>cert_from_der = (\<lambda>b. if b = [] then Inl ''empty'' else Inr b), trust_with = Inr, key_from_scalar = Inr,
      identity_new = (\<lambda>c k. Inr (c, k)), identity_with_provider = (\<lambda>c p. Inr (c, provider_public_key p)), cert_spki_der = Inr,
      parse_oid = Inr, socket_new = Inr, gloo_wrap = Inr,
      adopt = (\<lambda>b s. if trust_store b = None \<and> \<not> cleartext_allowed b
         then Inl \<lparr>fault_case = OtherTransport, fault_debug = ''InvalidState'', fault_display = ''invalid''\<rparr> else Inr s)\<rparr>"

definition example_dial :: "bytes \<Rightarrow> unit connected_client" where
  "example_dial key = connect_mutual example_secure
     \<lparr>is_function = (\<lambda>_. False), uint8_new = (\<lambda>_. []), uint8_cast = (\<lambda>_. [])\<rparr> Inr (\<lambda>t offer. []) ''ws://h/'' [1] [2] key None JUndefined"

theorem mutual_dial_is_pinned_witness: "\<not> dialed (example_dial [3]) \<and> dialed (example_dial (replicate 32 0))"
proof
  show "\<not> dialed (example_dial [3])"
    using mutual_dial_is_pinned [OF example_dial_def refl, of "[3]"] by auto
  have "\<not> isl (transport_material example_secure [1] (Some ([2], replicate 32 0)))" "\<not> isl (socket_new example_secure ''ws://h/'')"
    by (simp_all add: example_secure_def transport_material_def profile_trust_store_def profile_identity_def signing_key_from_bytes_def)
  then show "dialed (example_dial (replicate 32 0))"
    using mutual_dial_is_pinned [OF example_dial_def refl, of "replicate 32 0"] by (simp add: abort_reason_def)
qed

text \<open>A plain session pins the server as well, and only \<^verbatim>\<open>connectCleartext\<close> adopts a stream without a trust store.\<close>

lemma plain_dial_is_pinned:
  assumes "outcome (connect api negotiation url server_cert signal) = Some (Inr client)"
  shows "\<exists>cert trust socket t. cert_from_der api server_cert = Inr cert \<and> trust_with api cert = Inr trust \<and>
    adopt api \<lparr>trust_store = Some trust, client_identity = None, cleartext_allowed = False\<rparr> socket = Inr t"
proof -
  obtain t where "fst (dial api url (transport_material api server_cert None)) = Inr t"
    using assms by (auto simp: connect_def build_transport_def split: option.splits dest: run_establish_client)
  then show ?thesis
    unfolding dial_transport by (auto simp: transport_material_def profile_trust_store_def result_simps)
qed

text \<open>An external signer is only used when its key is the certificate's.\<close>

lemma signer_dial_binds_key:
  assumes "outcome (connect_mutual_with_signer api host octet_string negotiation url server_cert client_cert signer signal session) = Some (Inr client)"
  shows "\<exists>cert. cert_from_der api client_cert = Inr cert \<and> cert_spki_der api cert = Inr (public_key_octets signer)"
proof -
  obtain t where "fst (dial api url (signer_material api server_cert client_cert signer)) = Inr t"
    using assms by (auto simp: connect_mutual_with_signer_def build_signer_transport_def split: option.splits dest: run_establish_client)
  then obtain x where "signer_material api server_cert client_cert signer = Inr x"
    unfolding dial_transport by blast
  then show ?thesis
    by (auto simp: signer_material_def signer_identity_def provider_new_def result_simps split: if_splits)
qed

text \<open>Only \<^verbatim>\<open>connectCleartext\<close> builds on a stream without a trust store, and only once the socket has opened.\<close>

lemma cleartext_dial:
  assumes "outcome (connect_cleartext api into_split open_polls url signal) = Some (Inr client)"
  shows "\<exists>socket t closing. await_open signal open_polls = Some (Inr (), closing) \<and>
    adopt api \<lparr>trust_store = None, client_identity = None, cleartext_allowed = True\<rparr> socket = Inr t \<and> into_split t = Inr client"
  using assms
  by (auto simp: connect_cleartext_def cleartext_transport_def cleartext_def builder_def result_simps Let_def
      split: option.splits prod.splits sum.splits)

text \<open>
  A ping or a wait for a slot settles as the handle answers or with the abort reason, and only an
  unaborted call resolves; without a signal it settles exactly when the handle does.
\<close>

lemma void_call_settles:
  "client_ping (Some (reason, True)) polls = Some (Inl reason)"
  "client_ping (Some (reason, False)) polls = Some (Inr v) \<Longrightarrow>
     v = JUndefined \<and> (\<exists>p \<in> set polls. fst p = Some (Inr ()))"
  "client_ping None polls = map_option (\<lambda>a. and_then (map_err transport_to_js a) (\<lambda>_. Inr JUndefined))
     (Option.bind (find (\<lambda>p. fst p \<noteq> None) polls) fst)"
  "wait_for_stream_slot signal polls = client_ping signal polls"
proof -
  show "client_ping (Some (reason, True)) polls = Some (Inl reason)"
    by (simp add: client_ping_def race_optional_abort_def race_abort_def)
  show "client_ping None polls = map_option (\<lambda>a. and_then (map_err transport_to_js a) (\<lambda>_. Inr JUndefined))
     (Option.bind (find (\<lambda>p. fst p \<noteq> None) polls) fst)"
    by (induction polls) (auto simp: client_ping_def race_optional_abort_def void_poll_def split: option.split)
  show "wait_for_stream_slot signal polls = client_ping signal polls"
    by (simp add: wait_for_stream_slot_def client_ping_def)
  assume "client_ping (Some (reason, False)) polls = Some (Inr v)"
  then show "v = JUndefined \<and> (\<exists>p \<in> set polls. fst p = Some (Inr ()))"
    by (induction polls)
       (auto simp: client_ping_def race_optional_abort_def race_abort_def void_poll_def result_simps split: option.splits if_splits)
qed

text \<open>A shutdown reason is one of the reserved labels or a 32-bit code; anything else is refused before the handle is asked.\<close>

lemma u32_code:
  fixes code :: u32
  shows "\<not> not_whole (number_of_unsigned code)" "\<not> outside_u32 (number_of_unsigned code)" "f64_as_u32 (number_of_unsigned code) = code"
proof -
  have less: "uint code < 2 ^ 32" using uint_lt2p [of code] by simp
  then have bound: "(of_int (uint code) :: rat) \<le> of_int 4294967295" by (intro of_int_le_iff [THEN iffD2]) simp
  have whole: "fract (of_int k :: rat) = 0" for k by (simp add: fract_def)
  show "\<not> not_whole (number_of_unsigned code)" by (simp add: number_of_unsigned_def whole del: of_int_uint)
  show "\<not> outside_u32 (number_of_unsigned code)" using bound by (simp add: number_of_unsigned_def not_less del: of_int_uint)
  have "\<not> (2 ^ 32 :: rat) \<le> of_int (uint code)" using bound by (simp del: of_int_uint)
  then show "f64_as_u32 (number_of_unsigned code) = code" by (simp add: number_of_unsigned_def word_of_int_uint del: of_int_uint)
qed

lemma shutdown_with_accepts:
  "(\<forall>c. reason \<noteq> Application c) \<Longrightarrow>
     shutdown_with reason_of_code shutdown (JString (goaway_label reason)) = client_shutdown (shutdown reason)"
  "isl (shutdown_with reason_of_code shutdown (JString ''Application''))"
  "shutdown_with reason_of_code shutdown (JNumber (number_of_unsigned (code :: u32))) = client_shutdown (shutdown (reason_of_code code))"
  by (cases reason; simp add: shutdown_with_def client_shutdown_def reason_from_js_def ok_or_def)
     (simp_all add: shutdown_with_def client_shutdown_def reason_from_js_def ok_or_def u32_code)

text \<open>A routed stream is only opened on a target that parses as a URN.\<close>

lemma routed_open:
  "open_request_stream_to texts urn_of open_to target = Inr r \<longleftrightarrow>
     (\<exists>urn. urn_of target = Some urn \<and> open_to urn = Inr () \<and> r = request_from_parts)"
  "open_duplex_stream_to texts urn_of open_to target = Inr d \<longleftrightarrow>
     (\<exists>urn. urn_of target = Some urn \<and> open_to urn = Inr () \<and> d = duplex_from_parts)"
  by (auto simp: open_request_stream_to_def open_request_stream_def open_duplex_stream_to_def open_duplex_stream_def
      parse_stream_target_def result_simps)

end
