(* ===== verification/Wire_Seal.thy ===== *)
theory Wire_Seal
  imports Wire_Frame_Properties
begin

text \<open>
  The profile primitives around the structure path (the end of \<^verbatim>\<open>ws/tightbeam-ws-wasm/src/build.rs\<close>):
  signing and verifying frames, sealing a body and opening it again. Keys, digests, the CMS
  verifier and the content encryption are upstream code and the fields of \<open>profile_api\<close>.
\<close>

record ('e, 's, 'sk, 'vk, 'ek, 'dk) profile_api =
  sha3_256 :: "bytes \<Rightarrow> bytes"
  key_sign_prehash :: "'sk \<Rightarrow> bytes \<Rightarrow> wire_error + bytes"
  key_skid :: "'vk \<Rightarrow> wire_error + bytes"
  cms_verify :: "'s \<Rightarrow> 'vk \<Rightarrow> bytes \<Rightarrow> wire_error + unit"
  encrypt_content :: "'ek \<Rightarrow> bytes \<Rightarrow> string option \<Rightarrow> wire_error + 'e"
  take_content :: "'e \<Rightarrow> wire_error + bytes \<times> 'e"
  decrypt_content :: "'dk \<Rightarrow> 'e \<Rightarrow> bytes \<Rightarrow> wire_error + bytes"

section \<open>Signatures\<close>

definition sha3_256_digest :: "('e, 's, 'sk, 'vk, 'ek, 'dk) profile_api \<Rightarrow> bytes \<Rightarrow> bytes" where
  "sha3_256_digest profile octets = sha3_256 profile octets"

definition sign_prehash :: "('e, 's, 'sk, 'vk, 'ek, 'dk) profile_api \<Rightarrow> 'sk \<Rightarrow> bytes \<Rightarrow> wire_error + bytes" where
  "sign_prehash profile key prehash = key_sign_prehash profile key prehash"

definition signer_id :: "('e, 's, 'sk, 'vk, 'ek, 'dk) profile_api \<Rightarrow> 'vk \<Rightarrow> wire_error + bytes" where
  "signer_id profile key = key_skid profile key"

definition verify_signature ::
  "('e, 's, 'd) wire_api \<Rightarrow> ('e, 's, 'sk, 'vk, 'ek, 'dk) profile_api \<Rightarrow> 'vk \<Rightarrow> bytes \<Rightarrow> wire_error + unit" where
  "verify_signature api profile key frame_der =
     and_then (frame_from_der api frame_der) (\<lambda>frame.
     and_then (ok_or MissingSignature (nonrepudiation frame)) (\<lambda>signer_info.
     and_then (frame_to_tbs api frame) (\<lambda>tbs. cms_verify profile signer_info key tbs)))"

section \<open>Sealed bodies\<close>

record sealed_body =
  sealed_algorithm_oid :: string
  sealed_envelope_der :: bytes
  sealed_ciphertext :: bytes

definition sealed_body_of ::
  "('e, 's, 'd) wire_api \<Rightarrow> ('e, 's, 'sk, 'vk, 'ek, 'dk) profile_api \<Rightarrow> 'e \<Rightarrow> wire_error + sealed_body" where
  "sealed_body_of api profile envelope =
     and_then (take_content profile envelope) (\<lambda>(ciphertext, detached).
     and_then (envelope_to_der api detached) (\<lambda>der.
       Inr \<lparr>sealed_algorithm_oid = envelope_algorithm api detached, sealed_envelope_der = der, sealed_ciphertext = ciphertext\<rparr>))"

definition opened ::
  "('e, 's, 'd) wire_api \<Rightarrow> ('e, 's, 'sk, 'vk, 'ek, 'dk) profile_api \<Rightarrow> 'dk \<Rightarrow> bytes \<Rightarrow> bytes \<Rightarrow> wire_error + bytes" where
  "opened api profile decryptor envelope_der ciphertext =
     and_then (envelope_parse api envelope_der) (\<lambda>sealed. decrypt_content profile decryptor sealed ciphertext)"

text \<open>The two profile encryptors seal the same way, under their own content encryptor.\<close>

definition aes_seal ::
  "('e, 's, 'd) wire_api \<Rightarrow> ('e, 's, 'sk, 'vk, 'ek, 'dk) profile_api \<Rightarrow> 'ek \<Rightarrow> bytes \<Rightarrow> string option \<Rightarrow> wire_error + sealed_body" where
  "aes_seal api profile provider plaintext content_oid =
     and_then (encrypt_content profile provider plaintext content_oid) (sealed_body_of api profile)"

definition aes_open ::
  "('e, 's, 'd) wire_api \<Rightarrow> ('e, 's, 'sk, 'vk, 'ek, 'dk) profile_api \<Rightarrow> 'dk \<Rightarrow> bytes \<Rightarrow> bytes \<Rightarrow> wire_error + bytes" where
  "aes_open api profile provider envelope_der ciphertext = opened api profile provider envelope_der ciphertext"

definition hpke_seal ::
  "('e, 's, 'd) wire_api \<Rightarrow> ('e, 's, 'sk, 'vk, 'ek, 'dk) profile_api \<Rightarrow> 'ek \<Rightarrow> bytes \<Rightarrow> string option \<Rightarrow> wire_error + sealed_body" where
  "hpke_seal api profile inner plaintext content_oid =
     and_then (encrypt_content profile inner plaintext content_oid) (sealed_body_of api profile)"

definition hpke_open ::
  "('e, 's, 'd) wire_api \<Rightarrow> ('e, 's, 'sk, 'vk, 'ek, 'dk) profile_api \<Rightarrow> 'dk \<Rightarrow> bytes \<Rightarrow> bytes \<Rightarrow> wire_error + bytes" where
  "hpke_open api profile inner envelope_der ciphertext = opened api profile inner envelope_der ciphertext"

section \<open>Properties\<close>

text \<open>
  What a matching pair of keys promises: content that was encrypted, and detached from its envelope,
  decrypts against that envelope; and the CMS verifier accepts a draft completed with a signature
  over its prehash. The envelope's encoding reads back.
\<close>

definition content_laws ::
  "('e, 's, 'd) wire_api \<Rightarrow> ('e, 's, 'sk, 'vk, 'ek, 'dk) profile_api \<Rightarrow> 'ek \<Rightarrow> 'dk \<Rightarrow> bool" where
  "content_laws api profile ek dk \<longleftrightarrow>
     (\<forall>p oid e c e'. encrypt_content profile ek p oid = Inr e \<longrightarrow> take_content profile e = Inr (c, e') \<longrightarrow>
        decrypt_content profile dk e' c = Inr p) \<and>
     (\<forall>e d. envelope_to_der api e = Inr d \<longrightarrow> envelope_parse api d = Inr e)"

definition verify_laws ::
  "('e, 's, 'd) wire_api \<Rightarrow> ('e, 's, 'sk, 'vk, 'ek, 'dk) profile_api \<Rightarrow> 'sk \<Rightarrow> 'vk \<Rightarrow> bool" where
  "verify_laws api profile sk vk \<longleftrightarrow>
     (\<forall>sid tbs d sg si. cms_draft api sid tbs = Inr d \<longrightarrow> key_sign_prehash profile sk (draft_prehash api d) = Inr sg \<longrightarrow>
        draft_complete api d sg = Inr si \<longrightarrow> cms_verify profile si vk tbs = Inr ())"

text \<open>
  A sealed frame opens: a body sealed under a key, installed in a frame with its envelope, is
  recovered from the frame's own body by the matching key, whichever profile sealed it.
\<close>

lemma sealed_frame_opens:
  assumes "wire_laws api" and "content_laws api profile ek dk"
    and "aes_seal api profile ek plaintext oid = Inr s \<or> hpke_seal api profile ek plaintext oid = Inr s"
    and "set_confidentiality api frame_der (sealed_envelope_der s) (sealed_ciphertext s) = Inr der"
  shows "\<exists>f. frame_from_der api der = Inr f \<and>
    aes_open api profile dk (sealed_envelope_der s) (frame_body f) = Inr plaintext \<and>
    hpke_open api profile dk (sealed_envelope_der s) (frame_body f) = Inr plaintext"
proof -
  from assms(3) obtain e c e' where seal: "encrypt_content profile ek plaintext oid = Inr e"
    "take_content profile e = Inr (c, e')" "envelope_to_der api e' = Inr (sealed_envelope_der s)" "sealed_ciphertext s = c"
    by (auto simp: aes_seal_def hpke_seal_def sealed_body_of_def result_simps)
  have "\<exists>f. frame_from_der api der = Inr f \<and> frame_body f = sealed_ciphertext s"
    using assms(4) finish_body [OF assms(1)] by (auto simp: set_confidentiality_def result_simps)
  then obtain f where f: "frame_from_der api der = Inr f" "frame_body f = c" using seal(4) by blast
  have "opened api profile dk (sealed_envelope_der s) c = Inr plaintext"
    using assms(2) seal by (simp add: content_laws_def opened_def)
  with f show ?thesis by (simp add: aes_open_def hpke_open_def)
qed

text \<open>
  A frame signed the documented way verifies: sign the prehash the library hands out, attach the
  signature under the same key identifier, and the pinned key accepts the frame. A frame with no
  signature is refused as such.
\<close>

lemma signed_frame_verifies:
  assumes "signing_laws api" and "verify_laws api profile sk vk"
    and "signing_prehash api der kid = Inr h" and "sign_prehash profile sk h = Inr sg"
    and "attach_signature api der sg kid = Inr der'"
  shows "verify_signature api profile vk der' = Inr () \<and>
    (frame_from_der api plain = Inr f \<and> nonrepudiation f = None \<longrightarrow>
       verify_signature api profile vk plain = Inl MissingSignature)"
proof -
  from assms(5) obtain f sid d si g where steps: "frame_from_der api der = Inr f" "signer_identifier_of api kid = Inr sid"
    "signature_draft api f sid = Inr d" "draft_complete api d sg = Inr si"
    "attach_signer_info api f si = Inr g" "frame_to_der api g = Inr der'"
    by (auto simp: attach_signature_def result_simps)
  obtain tbs where tbs: "frame_to_tbs api f = Inr tbs" "cms_draft api sid tbs = Inr d"
    using steps(3) by (auto simp: signature_draft_def result_simps)
  have h: "h = draft_prehash api d" using assms(3) steps(1-3) by (simp add: signing_prehash_def)
  have g: "g = f\<lparr>nonrepudiation := Some si\<rparr>" "frame_from_der api der' = Inr g"
    using assms(1) steps(5,6) by (auto simp: signing_laws_def)
  have "nonrepudiation g = Some si" "frame_to_tbs api g = Inr tbs"
    using assms(1) tbs(1) unfolding g(1) by (simp_all add: signing_laws_def)
  moreover have "cms_verify profile si vk tbs = Inr ()"
    using assms(2,4) tbs(2) steps(4) unfolding verify_laws_def sign_prehash_def h by blast
  ultimately show ?thesis using g(2) by (simp add: verify_signature_def ok_or_def)
qed

definition example_profile :: "(bytes, bytes, unit, unit, unit, unit) profile_api" where
  "example_profile =
     \<lparr>sha3_256 = (\<lambda>b. b), key_sign_prehash = (\<lambda>_ h. Inr h), key_skid = (\<lambda>_. Inr [5, 6]),
      cms_verify = (\<lambda>si _ tbs. if drop 2 si = tbs then Inr () else Inl (Upstream ''verify'')),
      encrypt_content = (\<lambda>_ p _. Inr p), take_content = (\<lambda>e. Inr (map (\<lambda>x. x + 1) e, [])),
      decrypt_content = (\<lambda>_ e c. Inr (map (\<lambda>x. x - 1) c))\<rparr>"

end
