(* ===== verification/Ws_Bindings.thy ===== *)
theory Ws_Bindings
  imports Ws_Fault
begin

text \<open>
  The JavaScript surface of frame assembly (\<^verbatim>\<open>ws/tightbeam-ws-wasm/src/bindings.rs\<close>): the frame
  composer, the exported structure operations with their error wrapping, and the frame view with its
  getters and its one-shot object of fields. OID parsing and the matrix constructor are parameters;
  an OID is its dotted text and a priority its ordinal.
\<close>

section \<open>Ordinals and identifiers\<close>

definition js_fail :: "error_texts \<Rightarrow> wire_error + 'a \<Rightarrow> js_value + 'a" where
  "js_fail texts r = map_err (\<lambda>e. js_error (wire_display texts e)) r"

definition oid_from :: "(string \<Rightarrow> string option) \<Rightarrow> string \<Rightarrow> string \<Rightarrow> js_value + string" where
  "oid_from parse_oid dotted path = ok_or (js_error (path @ '' is not a valid dotted OID'')) (parse_oid dotted)"

definition version_from_ordinal :: "u8 \<Rightarrow> version option" where
  "version_from_ordinal ordinal =
     (if ordinal = 0 then Some V0 else if ordinal = 1 then Some V1
      else if ordinal = 2 then Some V2 else if ordinal = 3 then Some V3 else None)"

definition priority_from_ordinal :: "u8 \<Rightarrow> u8 option" where
  "priority_from_ordinal ordinal = (if ordinal \<in> {0, 1, 2, 3, 4, 5} then Some ordinal else None)"

definition js_digest_info ::
  "('e, 's, 'd) wire_api \<Rightarrow> error_texts \<Rightarrow> (string \<Rightarrow> string option) \<Rightarrow> string \<Rightarrow> bytes \<Rightarrow> js_value + digest_info" where
  "js_digest_info api texts parse_oid algorithm_oid digest =
     and_then (oid_from parse_oid algorithm_oid ''previousHash.algorithmOid'') (\<lambda>oid.
     and_then (js_fail texts (octets_new api digest)) (\<lambda>digest.
       Inr \<lparr>digest_algorithm = \<lparr>alg_oid = oid, alg_parameters = None\<rparr>, digest_octets = digest\<rparr>))"

section \<open>The composer\<close>

text \<open>\<^verbatim>\<open>FrameConfig::default()\<close>, which a composer starts from.\<close>

definition composer_new :: frame_config where
  "composer_new =
     \<lparr>config_version = None, config_id = [], config_order = 0, config_message = [],
      config_priority = None, config_lifetime = None, config_previous_hash = None, config_matrix = None\<rparr>"

definition with_version :: "u8 \<Rightarrow> frame_config \<Rightarrow> js_value + frame_config" where
  "with_version ordinal c =
     and_then (ok_or (js_error ''version ordinal must be in 0..=3'') (version_from_ordinal ordinal))
       (\<lambda>v. Inr (c\<lparr>config_version := Some v\<rparr>))"

definition with_id :: "bytes \<Rightarrow> frame_config \<Rightarrow> frame_config" where
  "with_id i c = c\<lparr>config_id := i\<rparr>"

definition with_order :: "u64 \<Rightarrow> frame_config \<Rightarrow> frame_config" where
  "with_order order c = c\<lparr>config_order := order\<rparr>"

definition with_message :: "bytes \<Rightarrow> frame_config \<Rightarrow> frame_config" where
  "with_message body_der c = c\<lparr>config_message := body_der\<rparr>"

definition with_priority :: "u8 \<Rightarrow> frame_config \<Rightarrow> js_value + frame_config" where
  "with_priority ordinal c =
     and_then (ok_or (js_error ''priority ordinal must be in 0..=5'') (priority_from_ordinal ordinal))
       (\<lambda>p. Inr (c\<lparr>config_priority := Some p\<rparr>))"

definition with_lifetime :: "u64 \<Rightarrow> frame_config \<Rightarrow> frame_config" where
  "with_lifetime seconds c = c\<lparr>config_lifetime := Some seconds\<rparr>"

definition with_previous_hash ::
  "('e, 's, 'd) wire_api \<Rightarrow> error_texts \<Rightarrow> (string \<Rightarrow> string option) \<Rightarrow> string \<Rightarrow> bytes \<Rightarrow> frame_config \<Rightarrow>
   js_value + frame_config" where
  "with_previous_hash api texts parse_oid algorithm_oid digest c =
     and_then (js_digest_info api texts parse_oid algorithm_oid digest) (\<lambda>d. Inr (c\<lparr>config_previous_hash := Some d\<rparr>))"

definition with_matrix ::
  "(u8 \<Rightarrow> bytes \<Rightarrow> matrix_dyn option) \<Rightarrow> u8 \<Rightarrow> bytes \<Rightarrow> frame_config \<Rightarrow> js_value + frame_config" where
  "with_matrix from_row_major n octets c =
     and_then (ok_or (js_error ''matrix data length must equal n*n'') (from_row_major n octets))
       (\<lambda>m. Inr (c\<lparr>config_matrix := Some m\<rparr>))"

definition composer_build :: "('e, 's, 'd) wire_api \<Rightarrow> error_texts \<Rightarrow> frame_config \<Rightarrow> js_value + bytes" where
  "composer_build api texts c = js_fail texts (config_build api c)"

datatype composer_call =
    WithVersion u8
  | WithId bytes
  | WithOrder u64
  | WithMessage bytes
  | WithPriority u8
  | WithLifetime u64
  | WithPreviousHash string bytes
  | WithMatrix u8 bytes

fun composer_call_run ::
  "('e, 's, 'd) wire_api \<Rightarrow> error_texts \<Rightarrow> (string \<Rightarrow> string option) \<Rightarrow> (u8 \<Rightarrow> bytes \<Rightarrow> matrix_dyn option) \<Rightarrow>
   composer_call \<Rightarrow> frame_config \<Rightarrow> js_value + frame_config" where
  "composer_call_run api texts parse_oid from_row_major (WithVersion v) c = with_version v c"
| "composer_call_run api texts parse_oid from_row_major (WithId i) c = Inr (with_id i c)"
| "composer_call_run api texts parse_oid from_row_major (WithOrder n) c = Inr (with_order n c)"
| "composer_call_run api texts parse_oid from_row_major (WithMessage m) c = Inr (with_message m c)"
| "composer_call_run api texts parse_oid from_row_major (WithPriority p) c = with_priority p c"
| "composer_call_run api texts parse_oid from_row_major (WithLifetime s) c = Inr (with_lifetime s c)"
| "composer_call_run api texts parse_oid from_row_major (WithPreviousHash a d) c = with_previous_hash api texts parse_oid a d c"
| "composer_call_run api texts parse_oid from_row_major (WithMatrix n m) c = with_matrix from_row_major n m c"

text \<open>A sequence of calls; a call that throws leaves the composer as it was.\<close>

fun composer_calls ::
  "('e, 's, 'd) wire_api \<Rightarrow> error_texts \<Rightarrow> (string \<Rightarrow> string option) \<Rightarrow> (u8 \<Rightarrow> bytes \<Rightarrow> matrix_dyn option) \<Rightarrow>
   composer_call list \<Rightarrow> frame_config \<Rightarrow> frame_config" where
  "composer_calls api texts parse_oid from_row_major [] c = c"
| "composer_calls api texts parse_oid from_row_major (call # calls) c =
     composer_calls api texts parse_oid from_row_major calls
       (case composer_call_run api texts parse_oid from_row_major call c of Inr d \<Rightarrow> d | Inl _ \<Rightarrow> c)"

section \<open>Structure operations\<close>

definition js_body_preimage :: "('e, 's, 'd) wire_api \<Rightarrow> error_texts \<Rightarrow> bytes \<Rightarrow> js_value + bytes" where
  "js_body_preimage api texts message = js_fail texts (body_preimage api message)"

definition js_decode_body :: "('e, 's, 'd) wire_api \<Rightarrow> error_texts \<Rightarrow> bytes \<Rightarrow> js_value + bytes" where
  "js_decode_body api texts body_der = js_fail texts (decode_body api body_der)"

definition js_commitment_preimage :: "('e, 's, 'd) wire_api \<Rightarrow> error_texts \<Rightarrow> bytes \<Rightarrow> bytes \<Rightarrow> js_value + bytes" where
  "js_commitment_preimage api texts salt body_der = js_fail texts (commitment_preimage api salt body_der)"

definition js_set_message_integrity ::
  "('e, 's, 'd) wire_api \<Rightarrow> error_texts \<Rightarrow> (string \<Rightarrow> string option) \<Rightarrow> bytes \<Rightarrow> string \<Rightarrow> bytes \<Rightarrow> js_value + bytes" where
  "js_set_message_integrity api texts parse_oid frame_der algorithm_oid digest =
     and_then (oid_from parse_oid algorithm_oid ''messageIntegrity.algorithmOid'') (\<lambda>oid.
       js_fail texts (set_message_integrity api frame_der oid digest))"

definition js_set_confidentiality ::
  "('e, 's, 'd) wire_api \<Rightarrow> error_texts \<Rightarrow> bytes \<Rightarrow> bytes \<Rightarrow> bytes \<Rightarrow> js_value + bytes" where
  "js_set_confidentiality api texts frame_der envelope_der ciphertext =
     js_fail texts (set_confidentiality api frame_der envelope_der ciphertext)"

definition js_set_compactness ::
  "('e, 's, 'd) wire_api \<Rightarrow> error_texts \<Rightarrow> (string \<Rightarrow> string option) \<Rightarrow> bytes \<Rightarrow> string option \<Rightarrow> string \<Rightarrow> bytes option \<Rightarrow>
   bytes \<Rightarrow> js_value + bytes" where
  "js_set_compactness api texts parse_oid frame_der content_oid algorithm_oid parameters_der compressed =
     and_then (case content_oid of
                 Some dotted \<Rightarrow> and_then (oid_from parse_oid dotted ''contentOid'') (\<lambda>oid. Inr (Some oid))
               | None \<Rightarrow> Inr None) (\<lambda>content_oid.
     and_then (oid_from parse_oid algorithm_oid ''compactness.algorithmOid'') (\<lambda>algorithm_oid.
       js_fail texts (set_compactness api frame_der content_oid algorithm_oid parameters_der compressed)))"

definition js_witness_input :: "('e, 's, 'd) wire_api \<Rightarrow> error_texts \<Rightarrow> bytes \<Rightarrow> js_value + bytes" where
  "js_witness_input api texts frame_der = js_fail texts (witness_input api frame_der)"

definition js_attach_witness ::
  "('e, 's, 'd) wire_api \<Rightarrow> error_texts \<Rightarrow> (string \<Rightarrow> string option) \<Rightarrow> bytes \<Rightarrow> string \<Rightarrow> bytes \<Rightarrow> js_value + bytes" where
  "js_attach_witness api texts parse_oid frame_der algorithm_oid digest =
     and_then (oid_from parse_oid algorithm_oid ''frameIntegrity.algorithmOid'') (\<lambda>oid.
       js_fail texts (attach_witness api frame_der oid digest))"

definition js_tbs_bytes :: "('e, 's, 'd) wire_api \<Rightarrow> error_texts \<Rightarrow> bytes \<Rightarrow> js_value + bytes" where
  "js_tbs_bytes api texts frame_der = js_fail texts (tbs_bytes api frame_der)"

definition js_signing_prehash :: "('e, 's, 'd) wire_api \<Rightarrow> error_texts \<Rightarrow> bytes \<Rightarrow> bytes \<Rightarrow> js_value + bytes" where
  "js_signing_prehash api texts frame_der signer_key_id = js_fail texts (signing_prehash api frame_der signer_key_id)"

definition js_signature_prehash :: "('e, 's, 'd) wire_api \<Rightarrow> error_texts \<Rightarrow> bytes \<Rightarrow> js_value + bytes" where
  "js_signature_prehash api texts frame_der = js_fail texts (signature_prehash api frame_der)"

definition js_attach_signature ::
  "('e, 's, 'd) wire_api \<Rightarrow> error_texts \<Rightarrow> bytes \<Rightarrow> bytes \<Rightarrow> bytes \<Rightarrow> js_value + bytes" where
  "js_attach_signature api texts frame_der signature signer_key_id =
     js_fail texts (attach_signature api frame_der signature signer_key_id)"

section \<open>The frame view\<close>

record frame_view =
  view_summary :: "frame_summary option"

text \<open>\<^verbatim>\<open>set_bytes\<close> and \<^verbatim>\<open>set_string\<close>, and the same shape inlined for numbers: an absent value sets nothing.\<close>

definition set_optional :: "('a \<Rightarrow> js_value) \<Rightarrow> string \<Rightarrow> 'a option \<Rightarrow> js_value \<Rightarrow> js_value" where
  "set_optional project name val obj =
     (case val of Some v \<Rightarrow> set_property obj name (project v) | None \<Rightarrow> obj)"

definition byte_number :: "u8 \<Rightarrow> js_value" where
  "byte_number w = JNumber (number_of_unsigned w)"

definition summary_into_js :: "frame_summary \<Rightarrow> js_value" where
  "summary_into_js s =
     (let obj = JObject [];
          obj = set_property obj ''version'' (byte_number (summary_version s));
          obj = set_property obj ''id'' (JUint8Array (summary_id s));
          obj = set_property obj ''order'' (from_u64 (summary_order s));
          obj = set_property obj ''bodyDer'' (JUint8Array (summary_body_der s));
          obj = set_optional byte_number ''priority'' (summary_priority s) obj;
          obj = set_optional from_u64 ''lifetime'' (summary_lifetime s) obj;
          obj = set_optional JString ''previousHashAlgorithmOid'' (previous_hash_algorithm_oid s) obj;
          obj = set_optional JUint8Array ''previousHashDigest'' (previous_hash_digest s) obj;
          obj = set_optional byte_number ''matrixN'' (summary_matrix_n s) obj;
          obj = set_optional JUint8Array ''matrixData'' (summary_matrix_data s) obj;
          obj = set_optional JString ''messageIntegrityAlgorithmOid'' (message_integrity_algorithm_oid s) obj;
          obj = set_optional JUint8Array ''messageIntegrityDigest'' (message_integrity_digest s) obj;
          obj = set_optional JString ''frameIntegrityAlgorithmOid'' (frame_integrity_algorithm_oid s) obj;
          obj = set_optional JUint8Array ''frameIntegrityDigest'' (frame_integrity_digest s) obj;
          obj = set_optional JString ''compactnessAlgorithmOid'' (compactness_algorithm_oid s) obj;
          obj = set_optional JUint8Array ''compactnessParametersDer'' (compactness_parameters_der s) obj;
          obj = set_optional JString ''compactnessContentOid'' (compactness_content_oid s) obj;
          obj = set_optional JString ''confidentialityAlgorithmOid'' (confidentiality_algorithm_oid s) obj;
          obj = set_optional JUint8Array ''confidentialityEnvelopeDer'' (confidentiality_envelope_der s) obj;
          obj = set_optional JString ''signatureAlgorithmOid'' (signature_algorithm_oid s) obj;
          obj = set_optional JString ''signatureDigestAlgorithmOid'' (signature_digest_algorithm_oid s) obj;
          obj = set_optional JUint8Array ''signature'' (summary_signature s) obj
      in obj)"

definition view_version :: "frame_view \<Rightarrow> u8" where
  "view_version v = (case view_summary v of Some s \<Rightarrow> summary_version s | None \<Rightarrow> 0)"

definition view_id :: "frame_view \<Rightarrow> bytes" where
  "view_id v = (case view_summary v of Some s \<Rightarrow> summary_id s | None \<Rightarrow> [])"

definition view_order :: "frame_view \<Rightarrow> u64" where
  "view_order v = (case view_summary v of Some s \<Rightarrow> summary_order s | None \<Rightarrow> 0)"

definition view_body_der :: "frame_view \<Rightarrow> bytes" where
  "view_body_der v = (case view_summary v of Some s \<Rightarrow> summary_body_der s | None \<Rightarrow> [])"

definition view_priority :: "frame_view \<Rightarrow> u8 option" where
  "view_priority v = Option.bind (view_summary v) summary_priority"

definition view_lifetime :: "frame_view \<Rightarrow> u64 option" where
  "view_lifetime v = Option.bind (view_summary v) summary_lifetime"

definition view_previous_hash_algorithm_oid :: "frame_view \<Rightarrow> string option" where
  "view_previous_hash_algorithm_oid v = Option.bind (view_summary v) previous_hash_algorithm_oid"

definition view_previous_hash_digest :: "frame_view \<Rightarrow> bytes option" where
  "view_previous_hash_digest v = Option.bind (view_summary v) previous_hash_digest"

definition view_matrix_n :: "frame_view \<Rightarrow> u8 option" where
  "view_matrix_n v = Option.bind (view_summary v) summary_matrix_n"

definition view_matrix_data :: "frame_view \<Rightarrow> bytes option" where
  "view_matrix_data v = Option.bind (view_summary v) summary_matrix_data"

definition view_message_integrity_algorithm_oid :: "frame_view \<Rightarrow> string option" where
  "view_message_integrity_algorithm_oid v = Option.bind (view_summary v) message_integrity_algorithm_oid"

definition view_message_integrity_digest :: "frame_view \<Rightarrow> bytes option" where
  "view_message_integrity_digest v = Option.bind (view_summary v) message_integrity_digest"

definition view_frame_integrity_algorithm_oid :: "frame_view \<Rightarrow> string option" where
  "view_frame_integrity_algorithm_oid v = Option.bind (view_summary v) frame_integrity_algorithm_oid"

definition view_frame_integrity_digest :: "frame_view \<Rightarrow> bytes option" where
  "view_frame_integrity_digest v = Option.bind (view_summary v) frame_integrity_digest"

definition view_compactness_algorithm_oid :: "frame_view \<Rightarrow> string option" where
  "view_compactness_algorithm_oid v = Option.bind (view_summary v) compactness_algorithm_oid"

definition view_compactness_parameters_der :: "frame_view \<Rightarrow> bytes option" where
  "view_compactness_parameters_der v = Option.bind (view_summary v) compactness_parameters_der"

definition view_compactness_content_oid :: "frame_view \<Rightarrow> string option" where
  "view_compactness_content_oid v = Option.bind (view_summary v) compactness_content_oid"

definition view_confidentiality_algorithm_oid :: "frame_view \<Rightarrow> string option" where
  "view_confidentiality_algorithm_oid v = Option.bind (view_summary v) confidentiality_algorithm_oid"

definition view_confidentiality_envelope_der :: "frame_view \<Rightarrow> bytes option" where
  "view_confidentiality_envelope_der v = Option.bind (view_summary v) confidentiality_envelope_der"

definition view_signature_algorithm_oid :: "frame_view \<Rightarrow> string option" where
  "view_signature_algorithm_oid v = Option.bind (view_summary v) signature_algorithm_oid"

definition view_signature_digest_algorithm_oid :: "frame_view \<Rightarrow> string option" where
  "view_signature_digest_algorithm_oid v = Option.bind (view_summary v) signature_digest_algorithm_oid"

definition view_signature :: "frame_view \<Rightarrow> bytes option" where
  "view_signature v = Option.bind (view_summary v) summary_signature"

definition take_fields :: "frame_view \<Rightarrow> (js_value + js_value) \<times> frame_view" where
  "take_fields v =
     (case view_summary v of
        Some s \<Rightarrow> (Inr (summary_into_js s), v\<lparr>view_summary := None\<rparr>)
      | None \<Rightarrow> (Inl (js_error ''FrameViewConsumed: fields already taken''), v))"

definition js_inspect_frame :: "('e, 's, 'd) wire_api \<Rightarrow> error_texts \<Rightarrow> bytes \<Rightarrow> js_value + frame_view" where
  "js_inspect_frame api texts frame_der =
     and_then (js_fail texts (inspect_frame api frame_der)) (\<lambda>summary. Inr \<lparr>view_summary = Some summary\<rparr>)"

definition inspect_frame_fields :: "('e, 's, 'd) wire_api \<Rightarrow> error_texts \<Rightarrow> bytes \<Rightarrow> js_value + js_value" where
  "inspect_frame_fields api texts frame_der =
     and_then (js_fail texts (inspect_frame api frame_der)) (\<lambda>summary. Inr (summary_into_js summary))"

section \<open>What the view shows\<close>

text \<open>What each getter returns, as JavaScript sees it, under the name of its property.\<close>

definition shown :: "('a \<Rightarrow> js_value) \<Rightarrow> 'a option \<Rightarrow> js_value" where
  "shown project val = (case val of Some v \<Rightarrow> project v | None \<Rightarrow> JUndefined)"

definition getter_values :: "frame_view \<Rightarrow> (string \<times> js_value) list" where
  "getter_values v =
     [(''version'', byte_number (view_version v)),
      (''id'', JUint8Array (view_id v)),
      (''order'', from_u64 (view_order v)),
      (''bodyDer'', JUint8Array (view_body_der v)),
      (''priority'', shown byte_number (view_priority v)),
      (''lifetime'', shown from_u64 (view_lifetime v)),
      (''previousHashAlgorithmOid'', shown JString (view_previous_hash_algorithm_oid v)),
      (''previousHashDigest'', shown JUint8Array (view_previous_hash_digest v)),
      (''matrixN'', shown byte_number (view_matrix_n v)),
      (''matrixData'', shown JUint8Array (view_matrix_data v)),
      (''messageIntegrityAlgorithmOid'', shown JString (view_message_integrity_algorithm_oid v)),
      (''messageIntegrityDigest'', shown JUint8Array (view_message_integrity_digest v)),
      (''frameIntegrityAlgorithmOid'', shown JString (view_frame_integrity_algorithm_oid v)),
      (''frameIntegrityDigest'', shown JUint8Array (view_frame_integrity_digest v)),
      (''compactnessAlgorithmOid'', shown JString (view_compactness_algorithm_oid v)),
      (''compactnessParametersDer'', shown JUint8Array (view_compactness_parameters_der v)),
      (''compactnessContentOid'', shown JString (view_compactness_content_oid v)),
      (''confidentialityAlgorithmOid'', shown JString (view_confidentiality_algorithm_oid v)),
      (''confidentialityEnvelopeDer'', shown JUint8Array (view_confidentiality_envelope_der v)),
      (''signatureAlgorithmOid'', shown JString (view_signature_algorithm_oid v)),
      (''signatureDigestAlgorithmOid'', shown JString (view_signature_digest_algorithm_oid v)),
      (''signature'', shown JUint8Array (view_signature v))]"


lemma set_property_object [simp]: "set_property (JObject es) name v = JObject (AList.update name v es)"
  by (simp add: set_property_def)

text \<open>The same object as one fold over the optional values by name.\<close>

definition update_present :: "(string \<times> js_value) list \<Rightarrow> string \<times> js_value option \<Rightarrow> (string \<times> js_value) list" where
  "update_present es entry =
     (case entry of (name, val) \<Rightarrow> (case val of Some v \<Rightarrow> AList.update name v es | None \<Rightarrow> es))"

lemma set_optional_object [simp]:
  "set_optional project name val (JObject es) = JObject (update_present es (name, map_option project val))"
  by (simp add: set_optional_def update_present_def split: option.split)

lemma set_object_present: "AList.update name v es = update_present es (name, Some v)"
  by (simp add: update_present_def)

lemma map_of_present:
  assumes "distinct (map fst props)" and "\<forall>n \<in> set (map fst props). map_of es n = None"
  shows "map_of (foldl update_present es props) n = (case map_of props n of Some val \<Rightarrow> val | None \<Rightarrow> map_of es n)"
  using assms
proof (induction props arbitrary: es)
  case (Cons entry props)
  obtain name val where entry: "entry = (name, val)" by (cases entry)
  have held: "map_of (update_present es entry) n = (if n = name then val else map_of es n)" for n
    using Cons.prems(2) by (auto simp: update_present_def entry split: option.split)
  then have "\<forall>n \<in> set (map fst props). map_of (update_present es entry) n = None"
    using Cons.prems by (auto simp: entry)
  with Cons.IH [of "update_present es entry"] Cons.prems(1) have
    "map_of (foldl update_present (update_present es entry) props) n =
       (case map_of props n of Some val \<Rightarrow> val | None \<Rightarrow> map_of (update_present es entry) n)" by simp
  moreover have "map_of props name = None" using Cons.prems(1) by (simp add: entry map_of_eq_None_iff)
  ultimately show ?case using held by (simp add: entry split: option.split)
qed simp

definition summary_properties :: "frame_summary \<Rightarrow> (string \<times> js_value option) list" where
  "summary_properties s =
     [(''version'', Some (byte_number (summary_version s))),
      (''id'', Some (JUint8Array (summary_id s))),
      (''order'', Some (from_u64 (summary_order s))),
      (''bodyDer'', Some (JUint8Array (summary_body_der s))),
      (''priority'', map_option byte_number (summary_priority s)),
      (''lifetime'', map_option from_u64 (summary_lifetime s)),
      (''previousHashAlgorithmOid'', map_option JString (previous_hash_algorithm_oid s)),
      (''previousHashDigest'', map_option JUint8Array (previous_hash_digest s)),
      (''matrixN'', map_option byte_number (summary_matrix_n s)),
      (''matrixData'', map_option JUint8Array (summary_matrix_data s)),
      (''messageIntegrityAlgorithmOid'', map_option JString (message_integrity_algorithm_oid s)),
      (''messageIntegrityDigest'', map_option JUint8Array (message_integrity_digest s)),
      (''frameIntegrityAlgorithmOid'', map_option JString (frame_integrity_algorithm_oid s)),
      (''frameIntegrityDigest'', map_option JUint8Array (frame_integrity_digest s)),
      (''compactnessAlgorithmOid'', map_option JString (compactness_algorithm_oid s)),
      (''compactnessParametersDer'', map_option JUint8Array (compactness_parameters_der s)),
      (''compactnessContentOid'', map_option JString (compactness_content_oid s)),
      (''confidentialityAlgorithmOid'', map_option JString (confidentiality_algorithm_oid s)),
      (''confidentialityEnvelopeDer'', map_option JUint8Array (confidentiality_envelope_der s)),
      (''signatureAlgorithmOid'', map_option JString (signature_algorithm_oid s)),
      (''signatureDigestAlgorithmOid'', map_option JString (signature_digest_algorithm_oid s)),
      (''signature'', map_option JUint8Array (summary_signature s))]"

lemma summary_into_js_fold: "summary_into_js s = JObject (foldl update_present [] (summary_properties s))"
  unfolding summary_into_js_def Let_def summary_properties_def
  by (simp only: set_property_object set_optional_object set_object_present foldl_Cons foldl_Nil)

lemma summary_names_distinct: "distinct (map fst (summary_properties s))"
  by (simp add: summary_properties_def)

lemmas getter_defs =
  view_version_def
  view_id_def
  view_order_def
  view_body_der_def
  view_priority_def
  view_lifetime_def
  view_previous_hash_algorithm_oid_def
  view_previous_hash_digest_def
  view_matrix_n_def
  view_matrix_data_def
  view_message_integrity_algorithm_oid_def
  view_message_integrity_digest_def
  view_frame_integrity_algorithm_oid_def
  view_frame_integrity_digest_def
  view_compactness_algorithm_oid_def
  view_compactness_parameters_der_def
  view_compactness_content_oid_def
  view_confidentiality_algorithm_oid_def
  view_confidentiality_envelope_der_def
  view_signature_algorithm_oid_def
  view_signature_digest_algorithm_oid_def
  view_signature_def

lemma shown_project: "shown (\<lambda>v. v) (map_option project val) = shown project val" "shown (\<lambda>v. v) (Some x) = x"
  by (cases val) (simp_all add: shown_def)

lemma getter_values_summary:
  "getter_values \<lparr>view_summary = Some s\<rparr> = map (\<lambda>(name, val). (name, shown (\<lambda>v. v) val)) (summary_properties s)"
  by (simp add: getter_values_def summary_properties_def getter_defs shown_project)

lemma summary_fields:
  "reflect_get (summary_into_js s) name =
     Inr (case map_of (getter_values \<lparr>view_summary = Some s\<rparr>) name of Some v \<Rightarrow> v | None \<Rightarrow> JUndefined)"
proof -
  have "map_of (foldl update_present [] (summary_properties s)) name = Option.bind (map_of (summary_properties s) name) (\<lambda>v. v)"
    using map_of_present [OF summary_names_distinct, of s "[]" name] by (simp split: option.split)
  moreover have "map_of (getter_values \<lparr>view_summary = Some s\<rparr>) name = map_option (shown (\<lambda>v. v)) (map_of (summary_properties s) name)"
    by (simp add: getter_values_summary map_of_map)
  ultimately show ?thesis
    by (cases "map_of (summary_properties s) name") (auto simp: summary_into_js_fold shown_def split: option.split)
qed

text \<open>
  C34. The object of fields shows what the getters show: every property reads as its getter did, an
  absent optional field and every other name read as \<^verbatim>\<open>undefined\<close>, and \<^verbatim>\<open>inspectFrameFields\<close> gives the
  same object. Taking the fields empties the view: a second take is an error and its getters read
  as absent.
\<close>

theorem taken_fields_match_getters:
  assumes "js_inspect_frame api texts frame_der = Inr v"
  shows "\<exists>obj v'. take_fields v = (Inr obj, v') \<and> inspect_frame_fields api texts frame_der = Inr obj \<and>
    reflect_get obj name = Inr (case map_of (getter_values v) name of Some x \<Rightarrow> x | None \<Rightarrow> JUndefined) \<and>
    take_fields v' = (Inl (js_error ''FrameViewConsumed: fields already taken''), v') \<and>
    view_body_der v' = [] \<and> view_signature v' = None"
proof -
  obtain s where s: "inspect_frame api frame_der = Inr s" "v = \<lparr>view_summary = Some s\<rparr>"
    using assms by (auto simp: js_inspect_frame_def js_fail_def result_simps)
  have "take_fields v = (Inr (summary_into_js s), \<lparr>view_summary = None\<rparr>)" by (simp add: take_fields_def s(2))
  moreover have "inspect_frame_fields api texts frame_der = Inr (summary_into_js s)"
    by (simp add: inspect_frame_fields_def js_fail_def s(1))
  moreover have "take_fields \<lparr>view_summary = None\<rparr> = (Inl (js_error ''FrameViewConsumed: fields already taken''), \<lparr>view_summary = None\<rparr>)"
    by (simp add: take_fields_def)
  ultimately show ?thesis
    using summary_fields [of s name] by (auto simp: s(2) view_body_der_def view_signature_def)
qed

text \<open>
  A composer that is never given an order stamp builds its frame with order 0: the builder is
  handed the stamp 0, whatever else was configured.
\<close>

lemma omitted_order_is_zero:
  assumes "\<forall>n. WithOrder n \<notin> set calls"
  shows "draft_order (config_draft (composer_calls api texts parse_oid from_row_major calls composer_new) placeholder) = 0"
proof -
  have step: "config_order (case composer_call_run api texts parse_oid from_row_major call c of Inr d \<Rightarrow> d | Inl _ \<Rightarrow> c) =
      config_order c" if "\<forall>n. call \<noteq> WithOrder n" for call c
    using that by (cases call) (auto simp: with_version_def with_id_def with_message_def with_priority_def with_lifetime_def
        with_previous_hash_def with_matrix_def result_simps split: sum.split)
  have "config_order (composer_calls api texts parse_oid from_row_major calls c) = config_order c" for c
    using assms
  proof (induction calls arbitrary: c)
    case (Cons call calls)
    then have "\<forall>n. call \<noteq> WithOrder n" "\<forall>n. WithOrder n \<notin> set calls" by auto
    with Cons.IH step show ?case by simp
  qed simp
  then show ?thesis by (simp add: config_draft_def composer_new_def)
qed

theorem taken_fields_match_getters_witness:
  "\<exists>obj v'. take_fields \<lparr>view_summary = Some (projr (inspect_frame example_api example_der_frame))\<rparr> = (Inr obj, v') \<and>
     reflect_get obj ''version'' = Inr (byte_number 0) \<and> reflect_get obj ''signature'' = Inr JUndefined"
proof -
  let ?texts = "\<lparr>status_debug = (\<lambda>_. []), work_debug = (\<lambda>_. []), work_display = (\<lambda>_. []),
     wire_debug = (\<lambda>_. []), wire_display = (\<lambda>_. []), urn_display = (\<lambda>_. [])\<rparr>"
  let ?s = "projr (inspect_frame example_api example_der_frame)"
  have "isl (inspect_frame example_api example_der_frame) = False" by code_simp
  then have "js_inspect_frame example_api ?texts example_der_frame = Inr \<lparr>view_summary = Some ?s\<rparr>"
    by (cases "inspect_frame example_api example_der_frame") (simp_all add: js_inspect_frame_def js_fail_def)
  note taken = taken_fields_match_getters [OF this]
  have "summary_version ?s = 0" "summary_signature ?s = None" by code_simp+
  with taken [of "''version''"] taken [of "''signature''"] show ?thesis
    by (auto simp: getter_values_def view_version_def view_signature_def shown_def)
qed

text \<open>The table of profile algorithms; \<open>oid\<close> gives the dotted form of an upstream constant.\<close>

datatype profile_constant =
    HASH_SHA3_256
  | SIGNER_ECDSA_WITH_SHA3_256
  | AES_256_GCM
  | DHKEM_SECP256K1
  | COMPRESSION_ZSTD
  | COMPRESSION_ZLIB
  | DATA

definition profile_entries :: "(string \<times> profile_constant) list" where
  "profile_entries =
     [(''sha3_256'', HASH_SHA3_256), (''ecdsaWithSha3_256'', SIGNER_ECDSA_WITH_SHA3_256), (''aes256Gcm'', AES_256_GCM),
      (''dhkemSecp256k1'', DHKEM_SECP256K1), (''zstd'', COMPRESSION_ZSTD), (''zlib'', COMPRESSION_ZLIB), (''data'', DATA)]"

definition profile_oids :: "(profile_constant \<Rightarrow> string) \<Rightarrow> der_error + js_value" where
  "profile_oids oid =
     foldl (\<lambda>table (key, c). and_then table (\<lambda>table. reflect_set table key (JString (oid c)))) (Inr (JObject [])) profile_entries"

text \<open>The table is always built, and each name reads as its own algorithm.\<close>

lemma profile_oids_entries:
  "\<exists>table. profile_oids oid = Inr table \<and>
     (\<forall>(key, c) \<in> set profile_entries. reflect_get table key = Inr (JString (oid c)))"
  by (simp add: profile_entries_def profile_oids_def)

text \<open>
  The structure functions of the surface succeed exactly when the core does, on the same octets; an
  OID argument must parse first.
\<close>

lemma surface_is_core:
  "composer_build api texts c = Inr b \<longleftrightarrow> config_build api c = Inr b"
  "js_body_preimage api texts m = Inr b \<longleftrightarrow> body_preimage api m = Inr b"
  "js_decode_body api texts m = Inr b \<longleftrightarrow> decode_body api m = Inr b"
  "js_commitment_preimage api texts salt m = Inr b \<longleftrightarrow> commitment_preimage api salt m = Inr b"
  "js_witness_input api texts der = Inr b \<longleftrightarrow> witness_input api der = Inr b"
  "js_tbs_bytes api texts der = Inr b \<longleftrightarrow> tbs_bytes api der = Inr b"
  "js_signature_prehash api texts der = Inr b \<longleftrightarrow> signature_prehash api der = Inr b"
  "js_set_message_integrity api texts parse_oid der oid digest = Inr b \<longleftrightarrow>
     (\<exists>o'. parse_oid oid = Some o' \<and> set_message_integrity api der o' digest = Inr b)"
  "js_attach_witness api texts parse_oid der oid digest = Inr b \<longleftrightarrow>
     (\<exists>o'. parse_oid oid = Some o' \<and> attach_witness api der o' digest = Inr b)"
  "js_set_compactness api texts parse_oid der None oid parameters compressed = Inr b \<longleftrightarrow>
     (\<exists>o'. parse_oid oid = Some o' \<and> set_compactness api der None o' parameters compressed = Inr b)"
  by (auto simp: composer_build_def js_body_preimage_def js_decode_body_def js_commitment_preimage_def js_witness_input_def
      js_tbs_bytes_def js_signature_prehash_def js_set_message_integrity_def js_attach_witness_def js_set_compactness_def
      oid_from_def js_fail_def result_simps)

end
