(* ===== verification/Ws_Profile.thy ===== *)
theory Ws_Profile
  imports Wire_Seal Ws_Bindings
begin

text \<open>
  The profile classes of the JavaScript surface (\<^verbatim>\<open>ws/tightbeam-ws-wasm/src/profile.rs\<close>) and the key
  constructors they wrap (the end of \<^verbatim>\<open>build.rs\<close>). Key types and their constructors are upstream and
  the fields of \<open>key_api\<close>; the symmetric key is one provider that both seals and opens.
\<close>

record ('sk, 'vk, 'ek, 'dk) key_api =
  key_from_scalar :: "bytes \<Rightarrow> wire_error + 'sk"
  verifying_key :: "'sk \<Rightarrow> 'vk"
  key_from_sec1 :: "bytes \<Rightarrow> wire_error + 'vk"
  key_to_sec1 :: "'vk \<Rightarrow> bytes"
  key_to_spki :: "'vk \<Rightarrow> wire_error + bytes"
  kek_provider :: "bytes \<Rightarrow> bytes \<Rightarrow> wire_error + 'ek \<times> 'dk"
  kem_encryptor :: "bytes \<Rightarrow> wire_error + 'ek"
  kem_decryptor :: "'sk \<Rightarrow> wire_error + 'dk"

section \<open>Key constructors\<close>

definition SECP256K1_KEY_LEN :: nat where "SECP256K1_KEY_LEN = 32"

definition aes_key_new :: "('sk, 'vk, 'ek, 'dk) key_api \<Rightarrow> bytes \<Rightarrow> bytes \<Rightarrow> wire_error + 'ek \<times> 'dk" where
  "aes_key_new keys key key_id = kek_provider keys key key_id"

definition hpke_encryptor_from_sec1 :: "('sk, 'vk, 'ek, 'dk) key_api \<Rightarrow> bytes \<Rightarrow> wire_error + 'ek" where
  "hpke_encryptor_from_sec1 keys recipient =
     and_then (key_from_sec1 keys recipient) (\<lambda>key. and_then (key_to_spki keys key) (\<lambda>spki. kem_encryptor keys spki))"

definition hpke_decryptor_new :: "('sk, 'vk, 'ek, 'dk) key_api \<Rightarrow> bytes \<Rightarrow> wire_error + 'dk" where
  "hpke_decryptor_new keys secret = and_then (key_from_scalar keys secret) (\<lambda>key. kem_decryptor keys key)"

section \<open>The classes\<close>

definition content_oid_from :: "(string \<Rightarrow> string option) \<Rightarrow> string option \<Rightarrow> js_value + string option" where
  "content_oid_from parse_oid content_oid =
     (case content_oid of
        Some dotted \<Rightarrow>
          and_then (ok_or (js_error ''contentOid is not a valid dotted OID'') (parse_oid dotted)) (\<lambda>oid. Inr (Some oid))
      | None \<Rightarrow> Inr None)"

text \<open>A promise of the plaintext, settled.\<close>

definition plaintext_promise :: "error_texts \<Rightarrow> wire_error + bytes \<Rightarrow> js_value + js_value" where
  "plaintext_promise texts opening' = and_then (js_fail texts opening') (\<lambda>plaintext. Inr (JUint8Array plaintext))"

definition js_sha3_256 :: "('e, 's, 'sk, 'vk, 'ek, 'dk) profile_api \<Rightarrow> bytes \<Rightarrow> bytes" where
  "js_sha3_256 profile octets = sha3_256_digest profile octets"

definition js_signing_key :: "('sk, 'vk, 'ek, 'dk) key_api \<Rightarrow> error_texts \<Rightarrow> bytes \<Rightarrow> js_value + 'sk" where
  "js_signing_key keys texts key_bytes =
     (if length key_bytes \<noteq> SECP256K1_KEY_LEN then Inl (js_error ''secp256k1 key must be 32 octets'')
      else js_fail texts (key_from_scalar keys key_bytes))"

definition derive_public_key :: "('sk, 'vk, 'ek, 'dk) key_api \<Rightarrow> 'sk \<Rightarrow> bytes" where
  "derive_public_key keys key = key_to_sec1 keys (verifying_key keys key)"

definition to_spki_der :: "('sk, 'vk, 'ek, 'dk) key_api \<Rightarrow> error_texts \<Rightarrow> 'sk \<Rightarrow> js_value + bytes" where
  "to_spki_der keys texts key = js_fail texts (key_to_spki keys (verifying_key keys key))"

definition js_signer_id ::
  "('e, 's, 'sk, 'vk, 'ek, 'dk) profile_api \<Rightarrow> ('sk, 'vk, 'ek, 'dk) key_api \<Rightarrow> error_texts \<Rightarrow> 'sk \<Rightarrow> js_value + bytes" where
  "js_signer_id profile keys texts key = js_fail texts (signer_id profile (verifying_key keys key))"

definition js_sign_prehash ::
  "('e, 's, 'sk, 'vk, 'ek, 'dk) profile_api \<Rightarrow> error_texts \<Rightarrow> 'sk \<Rightarrow> bytes \<Rightarrow> js_value + bytes" where
  "js_sign_prehash profile texts key prehash = js_fail texts (sign_prehash profile key prehash)"

definition js_verifying_key :: "('sk, 'vk, 'ek, 'dk) key_api \<Rightarrow> error_texts \<Rightarrow> bytes \<Rightarrow> js_value + 'vk" where
  "js_verifying_key keys texts sec1 = js_fail texts (key_from_sec1 keys sec1)"

definition to_sec1_bytes :: "('sk, 'vk, 'ek, 'dk) key_api \<Rightarrow> 'vk \<Rightarrow> bytes" where
  "to_sec1_bytes keys key = key_to_sec1 keys key"

definition js_verifier_id ::
  "('e, 's, 'sk, 'vk, 'ek, 'dk) profile_api \<Rightarrow> error_texts \<Rightarrow> 'vk \<Rightarrow> js_value + bytes" where
  "js_verifier_id profile texts key = js_fail texts (signer_id profile key)"

definition verify_frame ::
  "('e, 's, 'd) wire_api \<Rightarrow> ('e, 's, 'sk, 'vk, 'ek, 'dk) profile_api \<Rightarrow> error_texts \<Rightarrow> 'vk \<Rightarrow> bytes \<Rightarrow> js_value + unit" where
  "verify_frame api profile texts key frame_der = js_fail texts (verify_signature api profile key frame_der)"

definition js_aes_key :: "('sk, 'vk, 'ek, 'dk) key_api \<Rightarrow> error_texts \<Rightarrow> bytes \<Rightarrow> bytes \<Rightarrow> js_value + 'ek \<times> 'dk" where
  "js_aes_key keys texts key key_id = js_fail texts (aes_key_new keys key key_id)"

definition js_aes_seal ::
  "('e, 's, 'd) wire_api \<Rightarrow> ('e, 's, 'sk, 'vk, 'ek, 'dk) profile_api \<Rightarrow> error_texts \<Rightarrow> (string \<Rightarrow> string option) \<Rightarrow>
   'ek \<times> 'dk \<Rightarrow> bytes \<Rightarrow> string option \<Rightarrow> js_value + sealed_body" where
  "js_aes_seal api profile texts parse_oid key plaintext content_oid =
     and_then (content_oid_from parse_oid content_oid) (\<lambda>oid. js_fail texts (aes_seal api profile (fst key) plaintext oid))"

definition js_aes_open ::
  "('e, 's, 'd) wire_api \<Rightarrow> ('e, 's, 'sk, 'vk, 'ek, 'dk) profile_api \<Rightarrow> error_texts \<Rightarrow> 'ek \<times> 'dk \<Rightarrow> bytes \<Rightarrow> bytes \<Rightarrow>
   js_value + js_value" where
  "js_aes_open api profile texts key envelope_der ciphertext =
     plaintext_promise texts (aes_open api profile (snd key) envelope_der ciphertext)"

definition js_hpke_encryptor :: "('sk, 'vk, 'ek, 'dk) key_api \<Rightarrow> error_texts \<Rightarrow> bytes \<Rightarrow> js_value + 'ek" where
  "js_hpke_encryptor keys texts recipient = js_fail texts (hpke_encryptor_from_sec1 keys recipient)"

definition js_hpke_seal ::
  "('e, 's, 'd) wire_api \<Rightarrow> ('e, 's, 'sk, 'vk, 'ek, 'dk) profile_api \<Rightarrow> error_texts \<Rightarrow> (string \<Rightarrow> string option) \<Rightarrow>
   'ek \<Rightarrow> bytes \<Rightarrow> string option \<Rightarrow> js_value + sealed_body" where
  "js_hpke_seal api profile texts parse_oid key plaintext content_oid =
     and_then (content_oid_from parse_oid content_oid) (\<lambda>oid. js_fail texts (hpke_seal api profile key plaintext oid))"

definition js_hpke_decryptor :: "('sk, 'vk, 'ek, 'dk) key_api \<Rightarrow> error_texts \<Rightarrow> bytes \<Rightarrow> js_value + 'dk" where
  "js_hpke_decryptor keys texts secret = js_fail texts (hpke_decryptor_new keys secret)"

definition js_hpke_open ::
  "('e, 's, 'd) wire_api \<Rightarrow> ('e, 's, 'sk, 'vk, 'ek, 'dk) profile_api \<Rightarrow> error_texts \<Rightarrow> 'dk \<Rightarrow> bytes \<Rightarrow> bytes \<Rightarrow> js_value + js_value" where
  "js_hpke_open api profile texts key envelope_der ciphertext =
     plaintext_promise texts (hpke_open api profile key envelope_der ciphertext)"

section \<open>Properties\<close>

lemma js_fail_Inr [result_simps]: "js_fail texts r = Inr v \<longleftrightarrow> r = Inr v"
  by (simp add: js_fail_def result_simps)

lemma signing_key_length: "js_signing_key keys texts b = Inr sk \<Longrightarrow> length b = 32"
  by (simp add: js_signing_key_def SECP256K1_KEY_LEN_def split: if_splits)


definition example_keys :: "(unit, unit, unit, unit) key_api" where
  "example_keys =
     \<lparr>key_from_scalar = (\<lambda>_. Inr ()), verifying_key = (\<lambda>_. ()), key_from_sec1 = (\<lambda>_. Inr ()), key_to_sec1 = (\<lambda>_. []),
      key_to_spki = (\<lambda>_. Inr []), kek_provider = (\<lambda>_ _. Inr ((), ())), kem_encryptor = (\<lambda>_. Inr ()), kem_decryptor = (\<lambda>_. Inr ())\<rparr>"

definition blank_texts :: error_texts where
  "blank_texts = \<lparr>status_debug = (\<lambda>_. []), work_debug = (\<lambda>_. []), work_display = (\<lambda>_. []), wire_debug = (\<lambda>_. []),
     wire_display = (\<lambda>_. []), urn_display = (\<lambda>_. [])\<rparr>"

lemma example_content_laws: "content_laws example_api example_profile () ()"
  by (auto simp: content_laws_def example_profile_def example_api_def base_api_def o_def)

lemma example_verify_laws: "verify_laws example_api example_profile () ()"
  by (auto simp: verify_laws_def example_profile_def example_api_def base_api_def split: signer_identifier.splits if_splits)


end
