(* ===== verification/Spec2Isabelle.thy ===== *)
theory Spec2Isabelle
  imports World Memory_Link Demo_Servers Work_Gateway Asn_Fixtures Asn_Typing Asn_Emit Ws_Session Ws_Profile
begin

text \<open>
  A verification development for tightbeam-ext, the extensions of the tightbeam transport: a
  publish/subscribe layer (\<^verbatim>\<open>src/pubsub\<close>), WebSocket transports with a browser client (\<^verbatim>\<open>src/ws\<close>), and a
  derive macro with a generator that carry ASN.1 messages to JavaScript (\<^verbatim>\<open>src/asn\<close>).

  \<^bold>\<open>How the parts interact.\<close> A subscriber's connection is served by \<^verbatim>\<open>serve\<close>, which hands command frames to
  \<^verbatim>\<open>PubsubCommands\<close>; those register, unregister and publish through the topic registry under access
  policies. The registry publishes through a backplane, which orders updates per topic and delivers
  them to every attached registry; each registry fans an update out to the lanes of its subscribers,
  and one delivery task per subscriber drains its lane over the multiplexed connection. The browser
  client dials a WebSocket, pins the server's certificate, negotiates a multiplexed session, and offers
  requests, work submissions and progressive streams to JavaScript, and a frame surface that builds,
  seals, compresses, witnesses and signs encoded frames in place. The derive gives messages a
  JavaScript projection, and the generator writes the TypeScript codecs.

  \<^bold>\<open>Theories and sources.\<close> Each theory names its files in its opening text; \<open>Prelude\<close> holds what they share
  (results with early return, ordered association lists for maps, 64-bit saturation, the collection
  \<open>result_simps\<close> of inversion rules).

  \<^item> \<open>Topic\<close>, \<open>Frame\<close>, \<open>Policy\<close>: \<^verbatim>\<open>topic.rs\<close>, \<^verbatim>\<open>frame.rs\<close>, \<^verbatim>\<open>policy.rs\<close>. Topic names are validated from
    UTF-8 octets, with the standard library's validation written out.
  \<^item> \<open>Subscriber\<close>, \<open>Backplane\<close>, \<open>Registry\<close>: the lane, \<^verbatim>\<open>Local\<close>, and every operation of \<^verbatim>\<open>TopicRegistry\<close> and
    \<^verbatim>\<open>Inner\<close>. The locked state is a record, each critical section one function on it.
    \<open>Registry_Invariant\<close> shows that the topic, connection and subscriber maps describe one set of
    subscriptions; \<open>Registry_Properties\<close> that every reachable registry keeps it and refines an
    abstract subscription book (locale \<open>subscription_book\<close>); \<open>Registry_Delivery\<close> what publishing and
    completing do to the members, where a quiesce may be interrupted by any other call between the
    moment it sets the drain flag and the moment it hands out the end frames.
  \<^item> \<open>Drain\<close>: the delivery task and the flush waiter as an interleaving of atomic steps, with order,
    accounting, wake-ups, and progress, and the two interleavings in which a completion or a flush is
    lost.
  \<^item> \<open>Dispatch\<close>, \<open>Serve\<close>: commands, statuses, fallthrough, clean-up and keepalive. \<open>World\<close> composes them: any
    number of registries join, leave, serve, publish and quiesce over one backplane, and an accepted
    publish reaches every subscriber of every node. \<open>Memory_Link\<close>: the bounded in-memory link.
  \<^item> \<open>Relay\<close>, \<open>Demo_Servers\<close>: the demo server with its relay backplane, a bounded queue drained by one
    worker, and the payload processor at the other end of it.
  \<^item> \<open>Js_Value\<close>, \<open>Asn_Codec\<close>, \<open>Asn_Derive\<close>, \<open>Asn_Emit\<close>, \<open>Asn_Fixtures\<close>: \<^verbatim>\<open>js.rs\<close>, the meaning of the code the
    derive emits, the derive itself, the generator with its command line (over \<open>Rust_Text\<close>), and the
    fixture messages. \<open>Asn_Roundtrip\<close> and \<open>Asn_Typing\<close> show that written values read back (locale
    \<open>js_codec\<close>) and that readers only produce values of the declared type.
  \<^item> \<open>Wire_Frame\<close>, \<open>Wire_Seal\<close>, \<open>Ws_Work\<close>: \<^verbatim>\<open>build.rs\<close> and \<^verbatim>\<open>work.rs\<close>, frames as splices of DER components;
    \<open>Wire_Frame_Properties\<close> what the splices keep.
  \<^item> \<open>Ws_Stream\<close>, \<open>Ws_Listener\<close>: \<^verbatim>\<open>io.rs\<close>, \<^verbatim>\<open>stream.rs\<close> and the native \<^verbatim>\<open>protocol.rs\<close>; both streams satisfy
    the locale \<open>framed_stream\<close>.
  \<^item> \<open>Ws_Fault\<close>, \<open>Ws_Mux\<close>, \<open>Ws_Handles\<close>, \<open>Ws_Signer\<close>, \<open>Ws_Socket\<close>, \<open>Ws_Session\<close>, \<open>Ws_Bindings\<close>, \<open>Ws_Profile\<close>:
    the browser client (\<^verbatim>\<open>fault.rs\<close>, \<^verbatim>\<open>promise.rs\<close>, \<^verbatim>\<open>approver.rs\<close>, \<^verbatim>\<open>mux.rs\<close>, \<^verbatim>\<open>streaming.rs\<close>, \<^verbatim>\<open>signer.rs\<close>,
    \<^verbatim>\<open>socket.rs\<close>, \<^verbatim>\<open>clock.rs\<close>, \<^verbatim>\<open>secure.rs\<close>, \<^verbatim>\<open>protocol.rs\<close>, \<^verbatim>\<open>bindings.rs\<close>, \<^verbatim>\<open>profile.rs\<close>). The five stream
    handles are instances of the locale \<open>slot_handle\<close>.
  \<^item> \<open>Paywall\<close>, \<open>Echo\<close>, \<open>Identity\<close>, \<open>Servers\<close>, \<open>Work_Gateway\<close>: the test servers (\<^verbatim>\<open>testing/paywall.rs\<close>,
    \<^verbatim>\<open>testing/mux.rs\<close>, \<^verbatim>\<open>testing/fixtures.rs\<close>, \<^verbatim>\<open>testing/handshake.rs\<close> and the \<^verbatim>\<open>examples\<close>): handlers, provisioned
    identities from generation to reload, start-up from the environment, accept loops and the service of
    one connection. A paywalled server never serves a connection without invoice and pinned client.

  \<^bold>\<open>Conventions.\<close> Code of other crates is a parameter: the fields of \<open>frame_api\<close>, \<open>wire_api\<close>, \<open>profile_api\<close>,
  \<open>der_api\<close>, \<open>key_api\<close>, \<open>secure_api\<close>, \<open>network\<close> and the like, with what the code relies on as named laws
  (\<open>frame_api_laws\<close>, \<open>wire_laws\<close>, \<open>signing_laws\<close>, \<open>content_laws\<close>, \<open>verify_laws\<close>, \<open>encoding_laws\<close>, \<open>file_laws\<close>), which
  concrete instances satisfy.
  A future is the list of what its polls see, or a step relation where several of them share state; a
  promise that has not settled is \<open>None\<close>. Errors are values of sum types, a panic is the error \<open>Panic\<close>.
  Machine integers are words; order stamps saturate as in the code. A JavaScript number is a rational,
  an infinity or NaN, so the rounding of arithmetic is not represented; the code only compares,
  truncates and converts integers below the exact range.

  \<^bold>\<open>Bounds.\<close> Every loop is a recursion on the data it consumes. The delivery task and the relay worker run
  forever in the code and are step relations here; that they finish their work is a count of steps:
  a finished lane with \<open>n\<close> queued frames is delivered and stopped within \<open>4 * n + 3\<close> steps of its task, a
  relay with \<open>n\<close> requests drains within \<open>2 * n\<close> steps of its worker. Every step of another thread is
  one critical section or one atomic access, so any schedule of the code is one of the relation's runs.
  A server's accept loop has no end either: \<open>accept_loop n\<close> is its state after \<open>n\<close> iterations, for every \<open>n\<close>.

  \<^bold>\<open>What is not modelled.\<close> The upstream transport, its handshake, multiplexer, colony runtime, DER codec and
  cryptography, JSON and Unicode case tables: they are not part of the repository. Getters that forward
  to the upstream handle, debug formatting, the wall clock, terminal output, and the parsing of Rust
  tokens by \<^verbatim>\<open>syn\<close>, which gives the derive the declarations it is modelled on. Module roots and test
  suites hold no logic of their own. The TypeScript packages and build scripts: another language.
\<close>

end
